(* ===== verification/Mahalo_Prelude.thy ===== *)
theory Mahalo_Prelude
  imports Main "HOL-Library.Word"
begin

text \<open>
  The shared vocabulary of the development: the machine types of the Rust sources, Rust's
  \<open>Result\<close>, the generic list lemmas that several components use, and the lemma collections
  that carry the component proofs.

  \<^item> \<open>u8\<close> and \<open>u16\<close> keep their width. \<open>usize\<close> and \<open>u64\<close> values (lengths,
    offsets, counters) are natural numbers; where the code could leave the 64-bit range a bound is
    proved or an explicit check is part of the definition.
  \<^item> A byte buffer (\<open>Vec<u8>\<close>, \<open>&[u8]\<close>, \<open>Bytes\<close>) is a list of \<open>u8\<close>.
  \<^item> A \<open>str\<close>/\<open>String\<close> is the HOL \<open>string\<close> of its UTF-8 bytes.
  \<^item> A \<open>HashMap\<close> is a finite partial map.
\<close>

section \<open>Machine types\<close>

type_synonym u8 = "8 word"
type_synonym u16 = "16 word"
type_synonym bytes = "u8 list"

text \<open>The number of values of a 64-bit \<open>usize\<close>.\<close>

abbreviation (input) usize_card :: nat where
  "usize_card \<equiv> 2 ^ 64"

section \<open>Rust's Result\<close>

datatype ('a, 'e) result = Ok 'a | Err 'e

fun result_bind :: "('a, 'e) result \<Rightarrow> ('a \<Rightarrow> ('b, 'e) result) \<Rightarrow> ('b, 'e) result" where
  "result_bind (Ok a) f = f a"
| "result_bind (Err e) f = Err e"

text \<open>\<open>Option::ok_or\<close> and \<open>Result::ok\<close>.\<close>

fun ok_or :: "'a option \<Rightarrow> 'e \<Rightarrow> ('a, 'e) result" where
  "ok_or (Some a) e = Ok a"
| "ok_or None e = Err e"

fun result_ok :: "('a, 'e) result \<Rightarrow> 'a option" where
  "result_ok (Ok a) = Some a"
| "result_ok (Err e) = None"

lemma result_bind_Err_iff:
  "result_bind r f = Err e \<longleftrightarrow> r = Err e \<or> (\<exists>x. r = Ok x \<and> f x = Err e)"
  by (cases r) auto

lemma result_bind_Ok_iff [simp]:
  "result_bind r f = Ok b \<longleftrightarrow> (\<exists>a. r = Ok a \<and> f a = Ok b)"
  by (cases r) auto

lemma ok_or_Ok_iff [simp]: "ok_or x e = Ok a \<longleftrightarrow> x = Some a"
  by (cases x) auto

lemma ok_or_Err_iff [simp]: "ok_or x e = Err e' \<longleftrightarrow> x = None \<and> e' = e"
  by (cases x) auto

section \<open>Lemma collections\<close>

named_theorems ws_intros "facts that place a parsed frame inside its buffer"
named_theorems std_defs "definitions of the modelled standard-library functions"

section \<open>Lists\<close>

lemma take_append_le [simp]: "n \<le> length xs \<Longrightarrow> take n (xs @ ys) = take n xs"
  by simp

lemma nth_append_lt: "i < length xs \<Longrightarrow> (xs @ ys) ! i = xs ! i"
  by (simp add: nth_append)

lemma prefix_take_eq: "take n (xs @ ys) = xs \<Longrightarrow> n \<le> length (xs @ ys) \<Longrightarrow> n = length xs"
  by (metis length_take min.absorb2)

text \<open>Writing \<open>b\<close> into \<open>m\<close> at \<open>p\<close>, as \<open>copy_nonoverlapping\<close> and
  \<open>copy_from_slice\<close> do; the caller is responsible for the bounds.\<close>

definition splice :: "nat \<Rightarrow> 'a list \<Rightarrow> 'a list \<Rightarrow> 'a list" where
  "splice p b m = take p m @ b @ drop (p + length b) m"

lemma length_splice [simp]:
  "p + length b \<le> length m \<Longrightarrow> length (splice p b m) = length m"
  by (simp add: splice_def)

lemma take_splice [simp]:
  "p + length b \<le> length m \<Longrightarrow> take (p + length b) (splice p b m) = take p m @ b"
  by (simp add: splice_def)

lemma take_splice_prefix:
  "p + length b \<le> length m \<Longrightarrow> take p (splice p b m) = take p m"
  by (simp add: splice_def)

text \<open>The slice \<open>xs[a..b]\<close>, where \<open>a \<le> b \<le> xs.len()\<close>.\<close>

definition slice :: "'a list \<Rightarrow> nat \<Rightarrow> nat \<Rightarrow> 'a list" where
  "slice xs a b = take (b - a) (drop a xs)"

lemma length_slice [simp]: "b \<le> length xs \<Longrightarrow> length (slice xs a b) = b - a"
  by (simp add: slice_def)

lemma slice_append_le: "b \<le> length xs \<Longrightarrow> slice (xs @ ys) a b = slice xs a b"
  by (simp add: slice_def)

lemma slice_take: "b \<le> n \<Longrightarrow> slice (take n xs) a b = slice xs a b"
  by (simp add: slice_def drop_take)

lemma slice_middle: "slice (xs @ ys @ zs) (length xs) (length xs + length ys) = ys"
  by (simp add: slice_def)

text \<open>The first element that satisfies \<open>P\<close> (\<open>Iterator::find\<close>).\<close>

lemma find_append: "List.find P (xs @ ys) = (case List.find P xs of None \<Rightarrow> List.find P ys | Some x \<Rightarrow> Some x)"
  by (induction xs) auto

lemma find_Some_mem: "List.find P xs = Some x \<Longrightarrow> x \<in> set xs \<and> P x"
  by (auto simp: find_Some_iff)

section \<open>Words\<close>

lemma u8_less_256 [simp]: "unat (b :: u8) < 256"
  using unsigned_less [of b, where 'a = nat] by simp

lemma u8_of_nat_unat_mod [simp]: "unat (word_of_nat n :: u8) = n mod 256"
  by (simp add: unsigned_of_nat take_bit_eq_mod)

lemma u16_less [simp]: "unat (b :: u16) < 65536"
  using unsigned_less [of b, where 'a = nat] by simp

end
