(* ===== verification/Rust_Std.thy ===== *)
theory Rust_Std
  imports Mahalo_Prelude
begin

text \<open>
  The parts of Rust's standard library the sources use on strings and bytes: conversion between
  \<open>str\<close> and bytes, ASCII case folding, UTF-8 validation, \<open>split\<close>, \<open>join\<close>,
  \<open>trim\<close>, \<open>strip_prefix\<close>, \<open>lines\<close>, decimal printing and \<open>parse::<usize>\<close>, and the
  big-endian integer conversions. Each definition computes; the lemmas are the laws the
  component theories use.
\<close>

section \<open>Strings and bytes\<close>

definition u8_of_char :: "char \<Rightarrow> u8" where
  "u8_of_char c = word_of_nat (of_char c)"

definition char_of_u8 :: "u8 \<Rightarrow> char" where
  "char_of_u8 b = char_of (unat b)"

definition as_bytes :: "string \<Rightarrow> bytes" where
  "as_bytes s = map u8_of_char s"

lemma char_of_u8_of_char [simp]: "char_of_u8 (u8_of_char c) = c"
  by (simp add: char_of_u8_def u8_of_char_def)

lemma u8_of_char_of_u8 [simp]: "u8_of_char (char_of_u8 b) = b"
  by (simp add: char_of_u8_def u8_of_char_def)

lemma u8_of_char_inject [simp]: "u8_of_char c = u8_of_char d \<longleftrightarrow> c = d"
  by (metis char_of_u8_of_char)

lemma length_as_bytes [simp]: "length (as_bytes s) = length s"
  by (simp add: as_bytes_def)

lemma as_bytes_simps [simp]:
  "as_bytes [] = []"
  "as_bytes (c # s) = u8_of_char c # as_bytes s"
  "as_bytes (s @ t) = as_bytes s @ as_bytes t"
  by (simp_all add: as_bytes_def)

lemma as_bytes_inject [simp]: "as_bytes s = as_bytes t \<longleftrightarrow> s = t"
  by (simp add: as_bytes_def inj_map_eq_map inj_def)

lemma map_char_of_as_bytes [simp]: "map char_of_u8 (as_bytes s) = s"
  by (simp add: as_bytes_def comp_def)

lemma as_bytes_map_char_of [simp]: "as_bytes (map char_of_u8 bs) = bs"
  by (simp add: as_bytes_def comp_def)

subsection \<open>ASCII case folding\<close>

definition to_ascii_lowercase :: "u8 \<Rightarrow> u8" where
  "to_ascii_lowercase b = (if 65 \<le> b \<and> b \<le> 90 then b + 32 else b)"

definition eq_ignore_ascii_case :: "bytes \<Rightarrow> bytes \<Rightarrow> bool" where
  "eq_ignore_ascii_case a b \<longleftrightarrow> map to_ascii_lowercase a = map to_ascii_lowercase b"

definition str_eq_ignore_ascii_case :: "string \<Rightarrow> string \<Rightarrow> bool" where
  "str_eq_ignore_ascii_case a b = eq_ignore_ascii_case (as_bytes a) (as_bytes b)"

lemma eq_ignore_ascii_case_refl [simp]: "eq_ignore_ascii_case a a"
  by (simp add: eq_ignore_ascii_case_def)

lemma eq_ignore_ascii_case_length: "eq_ignore_ascii_case a b \<Longrightarrow> length a = length b"
  by (metis eq_ignore_ascii_case_def length_map)

lemma eq_ignore_ascii_case_sym: "eq_ignore_ascii_case a b \<Longrightarrow> eq_ignore_ascii_case b a"
  by (simp add: eq_ignore_ascii_case_def)

lemma eq_ignore_ascii_case_trans:
  "eq_ignore_ascii_case a b \<Longrightarrow> eq_ignore_ascii_case b c \<Longrightarrow> eq_ignore_ascii_case a c"
  by (simp add: eq_ignore_ascii_case_def)

subsection \<open>UTF-8\<close>

definition utf8_cont :: "u8 \<Rightarrow> bool" where
  "utf8_cont b \<longleftrightarrow> 0x80 \<le> b \<and> b \<le> 0xBF"

text \<open>The second byte of a three- or four-byte sequence, by its first byte (no overlong forms, no
  surrogates, nothing above U+10FFFF).\<close>

definition utf8_second3 :: "u8 \<Rightarrow> u8 \<Rightarrow> bool" where
  "utf8_second3 b0 b1 \<longleftrightarrow>
     (if b0 = 0xE0 then 0xA0 \<le> b1 \<and> b1 \<le> 0xBF
      else if b0 = 0xED then 0x80 \<le> b1 \<and> b1 \<le> 0x9F
      else utf8_cont b1)"

definition utf8_second4 :: "u8 \<Rightarrow> u8 \<Rightarrow> bool" where
  "utf8_second4 b0 b1 \<longleftrightarrow>
     (if b0 = 0xF0 then 0x90 \<le> b1 \<and> b1 \<le> 0xBF
      else if b0 = 0xF4 then 0x80 \<le> b1 \<and> b1 \<le> 0x8F
      else utf8_cont b1)"

text \<open>The length of the well-formed scalar at the front of the bytes, if there is one.\<close>

definition utf8_scalar_len :: "bytes \<Rightarrow> nat option" where
  "utf8_scalar_len bs =
     (case bs of
        [] \<Rightarrow> None
      | b0 # r \<Rightarrow>
          if b0 < 0x80 then Some 1
          else if 0xC2 \<le> b0 \<and> b0 \<le> 0xDF then
            (case r of b1 # _ \<Rightarrow> if utf8_cont b1 then Some 2 else None | _ \<Rightarrow> None)
          else if 0xE0 \<le> b0 \<and> b0 \<le> 0xEF then
            (case r of b1 # b2 # _ \<Rightarrow> if utf8_second3 b0 b1 \<and> utf8_cont b2 then Some 3 else None
             | _ \<Rightarrow> None)
          else if 0xF0 \<le> b0 \<and> b0 \<le> 0xF4 then
            (case r of b1 # b2 # b3 # _ \<Rightarrow>
               if utf8_second4 b0 b1 \<and> utf8_cont b2 \<and> utf8_cont b3 then Some 4 else None
             | _ \<Rightarrow> None)
          else None)"

lemma utf8_scalar_len_pos: "utf8_scalar_len bs = Some n \<Longrightarrow> 0 < n \<and> n \<le> length bs"
  by (auto simp: utf8_scalar_len_def split: list.splits if_splits)

function utf8_valid :: "bytes \<Rightarrow> bool" where
  "utf8_valid bs =
     (if bs = [] then True
      else case utf8_scalar_len bs of None \<Rightarrow> False | Some n \<Rightarrow> utf8_valid (drop n bs))"
  by pat_completeness auto
termination
  by (relation "measure length") (auto dest: utf8_scalar_len_pos)

declare utf8_valid.simps [simp del]

text \<open>\<open>std::str::from_utf8\<close>.\<close>

definition from_utf8 :: "bytes \<Rightarrow> string option" where
  "from_utf8 bs = (if utf8_valid bs then Some (map char_of_u8 bs) else None)"

lemma from_utf8_as_bytes: "from_utf8 bs = Some s \<Longrightarrow> as_bytes s = bs"
  by (auto simp: from_utf8_def split: if_splits)

lemma utf8_valid_ascii: "\<forall>b \<in> set bs. b < 0x80 \<Longrightarrow> utf8_valid bs"
proof (induction bs)
  case Nil
  show ?case by (simp add: utf8_valid.simps)
next
  case (Cons b bs)
  then show ?case by (subst utf8_valid.simps) (simp add: utf8_scalar_len_def)
qed

lemma from_utf8_ascii: "\<forall>c \<in> set s. u8_of_char c < 0x80 \<Longrightarrow> from_utf8 (as_bytes s) = Some s"
  by (auto simp: from_utf8_def as_bytes_def intro!: utf8_valid_ascii map_idI)

text \<open>\<open>String::from_utf8_lossy\<close>: each maximal ill-formed part becomes U+FFFD.\<close>

definition utf8_invalid_len :: "bytes \<Rightarrow> nat" where
  "utf8_invalid_len bs =
     (case bs of
        b0 # b1 # r \<Rightarrow>
          if 0xE0 \<le> b0 \<and> b0 \<le> 0xEF \<and> utf8_second3 b0 b1 then 2
          else if 0xF0 \<le> b0 \<and> b0 \<le> 0xF4 \<and> utf8_second4 b0 b1 then
            (case r of b2 # _ \<Rightarrow> if utf8_cont b2 then 3 else 2 | [] \<Rightarrow> 2)
          else 1
      | _ \<Rightarrow> 1)"

function utf8_lossy :: "bytes \<Rightarrow> bytes" where
  "utf8_lossy bs =
     (if bs = [] then []
      else case utf8_scalar_len bs of
        Some n \<Rightarrow> take n bs @ utf8_lossy (drop n bs)
      | None \<Rightarrow> [0xEF, 0xBF, 0xBD] @ utf8_lossy (drop (utf8_invalid_len bs) bs))"
  by pat_completeness auto
termination
  by (relation "measure length")
    (auto dest: utf8_scalar_len_pos simp: utf8_invalid_len_def split: list.splits)

declare utf8_lossy.simps [simp del]

definition from_utf8_lossy :: "bytes \<Rightarrow> string" where
  "from_utf8_lossy bs = map char_of_u8 (utf8_lossy bs)"

lemma utf8_lossy_valid: "utf8_valid bs \<Longrightarrow> utf8_lossy bs = bs"
proof (induction bs rule: utf8_valid.induct)
  case (1 bs)
  then show ?case
    by (subst utf8_lossy.simps) (auto simp: utf8_valid.simps [of bs] split: option.splits)
qed

lemma from_utf8_lossy_valid: "from_utf8 bs = Some s \<Longrightarrow> from_utf8_lossy bs = s"
  by (auto simp: from_utf8_def from_utf8_lossy_def utf8_lossy_valid split: if_splits)

section \<open>Splitting, joining, trimming\<close>

text \<open>\<open>str::split\<close> on a character: always at least one piece.\<close>

fun split_on :: "'a \<Rightarrow> 'a list \<Rightarrow> 'a list list" where
  "split_on c [] = [[]]"
| "split_on c (x # xs) =
     (if x = c then [] # split_on c xs
      else case split_on c xs of [] \<Rightarrow> [[x]] | y # ys \<Rightarrow> (x # y) # ys)"

fun join :: "'a list \<Rightarrow> 'a list list \<Rightarrow> 'a list" where
  "join sep [] = []"
| "join sep [x] = x"
| "join sep (x # y # ys) = x @ sep @ join sep (y # ys)"

lemma split_on_not_Nil [simp]: "split_on c xs \<noteq> []"
  by (induction xs) (auto split: list.splits)

lemma split_on_no_sep: "p \<in> set (split_on c xs) \<Longrightarrow> c \<notin> set p"
  by (induction xs arbitrary: p) (auto split: list.splits if_splits)

lemma join_Cons: "ps \<noteq> [] \<Longrightarrow> join sep (p # ps) = p @ sep @ join sep ps"
  by (cases ps) auto

lemma join_split_on [simp]: "join [c] (split_on c xs) = xs"
proof (induction xs)
  case (Cons x xs)
  obtain y ys where s: "split_on c xs = y # ys"
    by (meson list.exhaust split_on_not_Nil)
  with Cons show ?case by (cases ys) (auto simp: join_Cons)
qed simp

lemma split_on_append_sep: "c \<notin> set p \<Longrightarrow> split_on c (p @ c # xs) = p # split_on c xs"
  by (induction p) auto

lemma split_on_none: "c \<notin> set p \<Longrightarrow> split_on c p = [p]"
  by (induction p) auto

lemma split_on_join:
  "ps \<noteq> [] \<Longrightarrow> \<forall>p \<in> set ps. c \<notin> set p \<Longrightarrow> split_on c (join [c] ps) = ps"
proof (induction ps)
  case (Cons p ps)
  then show ?case by (cases ps) (auto simp: split_on_append_sep split_on_none)
qed simp

text \<open>\<open>str::strip_prefix\<close>, \<open>starts_with\<close>, \<open>ends_with\<close>.\<close>

fun strip_prefix :: "'a list \<Rightarrow> 'a list \<Rightarrow> 'a list option" where
  "strip_prefix [] s = Some s"
| "strip_prefix (p # ps) [] = None"
| "strip_prefix (p # ps) (x # xs) = (if p = x then strip_prefix ps xs else None)"

definition starts_with :: "'a list \<Rightarrow> 'a list \<Rightarrow> bool" where
  "starts_with s p \<longleftrightarrow> take (length p) s = p"

definition ends_with :: "'a list \<Rightarrow> 'a list \<Rightarrow> bool" where
  "ends_with s p \<longleftrightarrow> starts_with (rev s) (rev p)"

lemma strip_prefix_Some_iff: "strip_prefix p s = Some r \<longleftrightarrow> s = p @ r"
  by (induction p s rule: strip_prefix.induct) auto

lemma strip_prefix_append [simp]: "strip_prefix p (p @ r) = Some r"
  by (simp add: strip_prefix_Some_iff)

lemma strip_prefix_None_iff: "strip_prefix p s = None \<longleftrightarrow> \<not> starts_with s p"
  by (induction p s rule: strip_prefix.induct) (auto simp: starts_with_def)

lemma starts_with_iff: "starts_with s p \<longleftrightarrow> (\<exists>r. s = p @ r)"
  by (metis append_take_drop_id append_eq_conv_conj starts_with_def)

lemma ends_with_iff: "ends_with s p \<longleftrightarrow> (\<exists>r. s = r @ p)"
  by (metis ends_with_def rev_append rev_rev_ident starts_with_iff)

text \<open>\<open>str::contains\<close> and \<open>str::replacen(pat, to, 1)\<close> for a non-empty pattern.\<close>

fun str_contains :: "string \<Rightarrow> string \<Rightarrow> bool" where
  "str_contains [] t = (t = [])"
| "str_contains (c # s) t = (starts_with (c # s) t \<or> str_contains s t)"

fun replace_first :: "string \<Rightarrow> string \<Rightarrow> string \<Rightarrow> string" where
  "replace_first p r [] = (if p = [] then r else [])"
| "replace_first p r (c # s) =
     (if starts_with (c # s) p then r @ drop (length p) (c # s) else c # replace_first p r s)"

lemma str_contains_iff: "str_contains s t \<longleftrightarrow> (\<exists>a b. s = a @ t @ b)"
proof (induction s)
  case (Cons c s)
  have "(\<exists>a b. c # s = a @ t @ b) \<longleftrightarrow> (\<exists>b. c # s = t @ b) \<or> (\<exists>a b. s = a @ t @ b)"
    by (metis append_Cons append_Nil append_eq_Cons_conv)
  with Cons show ?case by (simp add: starts_with_iff)
qed auto

lemma str_contains_subset: "str_contains s t \<Longrightarrow> set t \<subseteq> set s"
  by (auto simp: str_contains_iff)

lemma str_contains_suffix: "str_contains s (t @ u) \<Longrightarrow> str_contains s u"
  by (metis append.assoc str_contains_iff)

lemma starts_with_append_sep:
  assumes "c \<notin> set m"
  shows "starts_with (l @ c # s) m \<longleftrightarrow> starts_with l m"
proof
  assume "starts_with (l @ c # s) m"
  then obtain r where "l @ c # s = m @ r" by (auto simp: starts_with_iff)
  with assms show "starts_with l m" by (auto simp: append_eq_append_conv2 starts_with_iff Cons_eq_append_conv)
qed (auto simp: starts_with_iff)

text \<open>A pattern without line break is found line by line.\<close>

lemma str_contains_sep:
  "c \<notin> set m \<Longrightarrow> m \<noteq> [] \<Longrightarrow> str_contains (l @ c # s) m \<longleftrightarrow> str_contains l m \<or> str_contains s m"
proof (induction l)
  case Nil
  then show ?case by (cases m) (auto simp: starts_with_def)
next
  case (Cons a l)
  then show ?case using starts_with_append_sep [of c m "a # l" s] by auto
qed

lemma replace_first_sep:
  "c \<notin> set m \<Longrightarrow> m \<noteq> [] \<Longrightarrow> replace_first m r (l @ c # s) =
     (if str_contains l m then replace_first m r l @ c # s else l @ c # replace_first m r s)"
proof (induction l)
  case Nil
  then show ?case by (cases m) (auto simp: starts_with_def)
next
  case (Cons a l)
  moreover have "starts_with (a # l) m \<Longrightarrow> drop (length m) (a # l @ c # s) = drop (length m) (a # l) @ c # s"
    by (metis append_Cons append_assoc append_eq_conv_conj starts_with_iff)
  ultimately show ?case using starts_with_append_sep [of c m "a # l" s] by auto
qed

text \<open>\<open>trim_start_matches\<close> and \<open>trim_end_matches\<close> with a character.\<close>

definition trim_start_matches :: "'a \<Rightarrow> 'a list \<Rightarrow> 'a list" where
  "trim_start_matches c s = dropWhile (\<lambda>x. x = c) s"

definition trim_end_matches :: "'a \<Rightarrow> 'a list \<Rightarrow> 'a list" where
  "trim_end_matches c s = rev (dropWhile (\<lambda>x. x = c) (rev s))"

lemma trim_end_matches_no_suffix: "\<not> ends_with (trim_end_matches c s) [c]"
proof
  assume "ends_with (trim_end_matches c s) [c]"
  then obtain r where "dropWhile (\<lambda>x. x = c) (rev s) = c # r"
    by (auto simp: ends_with_iff trim_end_matches_def rev_eq_append_conv)
  then show False by (simp add: dropWhile_eq_Cons_conv)
qed

text \<open>\<open>str::trim\<close>: the Unicode \<open>White_Space\<close> characters, as their UTF-8 bytes.\<close>

definition white_space :: "bytes list" where
  "white_space =
     [[9], [10], [11], [12], [13], [32], [0xC2, 0x85], [0xC2, 0xA0], [0xE1, 0x9A, 0x80]]
     @ map (\<lambda>k. [0xE2, 0x80, k])
         [0x80, 0x81, 0x82, 0x83, 0x84, 0x85, 0x86, 0x87, 0x88, 0x89, 0x8A, 0xA8, 0xA9, 0xAF]
     @ [[0xE2, 0x81, 0x9F], [0xE3, 0x80, 0x80]]"

definition strip_any :: "bytes list \<Rightarrow> bytes \<Rightarrow> bytes option" where
  "strip_any ps s = (case List.find (\<lambda>p. starts_with s p) ps of
       None \<Rightarrow> None | Some p \<Rightarrow> Some (drop (length p) s))"

fun trim_with :: "nat \<Rightarrow> bytes list \<Rightarrow> bytes \<Rightarrow> bytes" where
  "trim_with 0 ps s = s"
| "trim_with (Suc n) ps s = (case strip_any ps s of None \<Rightarrow> s | Some r \<Rightarrow> trim_with n ps r)"

definition trim :: "string \<Rightarrow> string" where
  "trim s =
     (let b = as_bytes s;
          l = trim_with (length b) white_space b;
          r = trim_with (length l) (map rev white_space) (rev l)
      in map char_of_u8 (rev r))"

section \<open>Numbers\<close>

definition digit_char :: "nat \<Rightarrow> char" where
  "digit_char d = char_of (48 + d)"

fun nat_to_string :: "nat \<Rightarrow> string" where
  "nat_to_string n =
     (if n < 10 then [digit_char n] else nat_to_string (n div 10) @ [digit_char (n mod 10)])"

declare nat_to_string.simps [simp del]

definition digit_val :: "char \<Rightarrow> nat option" where
  "digit_val c = (let n = of_char c in if 48 \<le> n \<and> n \<le> 57 then Some (n - 48) else None)"

fun parse_digits :: "nat \<Rightarrow> string \<Rightarrow> nat option" where
  "parse_digits acc [] = Some acc"
| "parse_digits acc (c # s) =
     (case digit_val c of
        None \<Rightarrow> None
      | Some d \<Rightarrow> if acc * 10 + d < usize_card then parse_digits (acc * 10 + d) s else None)"

text \<open>\<open>str::parse::<usize>\<close>: an optional \<open>+\<close>, at least one digit, no overflow.\<close>

definition parse_usize :: "string \<Rightarrow> nat option" where
  "parse_usize s =
     (case s of
        [] \<Rightarrow> None
      | c # r \<Rightarrow> if c = CHR ''+'' then (if r = [] then None else parse_digits 0 r)
                 else parse_digits 0 s)"

lemma digit_val_digit_char [simp]: "d < 10 \<Longrightarrow> digit_val (digit_char d) = Some d"
  by (simp add: digit_val_def digit_char_def)

lemma digit_char_not_plus [simp]: "d < 10 \<Longrightarrow> digit_char d \<noteq> CHR ''+''"
proof
  assume "d < 10" "digit_char d = CHR ''+''"
  then have "of_char (digit_char d) = (43 :: nat)" by simp
  with \<open>d < 10\<close> show False by (simp add: digit_char_def)
qed

lemma nat_to_string_not_Nil [simp]: "nat_to_string n \<noteq> []"
  by (subst nat_to_string.simps) simp

lemma parse_digits_append:
  "parse_digits a (s @ t) = (case parse_digits a s of None \<Rightarrow> None | Some b \<Rightarrow> parse_digits b t)"
  by (induction s arbitrary: a) (auto split: option.splits)

lemma parse_digits_nat_to_string: "n < usize_card \<Longrightarrow> parse_digits 0 (nat_to_string n) = Some n"
proof (induction n rule: nat_to_string.induct)
  case (1 n)
  then show ?case
    by (subst nat_to_string.simps) (auto simp: parse_digits_append)
qed

lemma hd_nat_to_string: "\<exists>d < 10. hd (nat_to_string n) = digit_char d"
proof (induction n rule: nat_to_string.induct)
  case (1 n)
  then show ?case by (subst nat_to_string.simps) (auto simp: hd_append)
qed

lemma parse_usize_nat_to_string:
  assumes "n < usize_card"
  shows "parse_usize (nat_to_string n) = Some n"
proof -
  obtain c r where s: "nat_to_string n = c # r" by (meson list.exhaust nat_to_string_not_Nil)
  with hd_nat_to_string [of n] have "c \<noteq> CHR ''+''" by auto
  with s parse_digits_nat_to_string [OF assms] show ?thesis by (simp add: parse_usize_def)
qed

lemma nat_to_string_digits: "c \<in> set (nat_to_string n) \<Longrightarrow> \<exists>d < 10. c = digit_char d"
proof (induction n rule: nat_to_string.induct)
  case (1 n)
  have "n mod 10 < 10" by simp
  with 1 show ?case by (cases "n < 10") (auto simp only: nat_to_string.simps [of n] if_True if_False set_append list.set
      Un_iff insert_iff empty_iff simp_thms)
qed

lemma length_nat_to_string: "n < 10 ^ k \<Longrightarrow> 0 < k \<Longrightarrow> length (nat_to_string n) \<le> k"
proof (induction n arbitrary: k rule: nat_to_string.induct)
  case (1 n)
  show ?case
  proof (cases "n < 10")
    case True
    with "1.prems" show ?thesis by (subst nat_to_string.simps) simp
  next
    case False
    with "1.prems" obtain j where j: "k = Suc j" "0 < j"
      by (cases k; cases "k - 1") auto
    with "1.prems" have "n div 10 < 10 ^ j" by (simp add: less_mult_imp_div_less mult.commute)
    with "1.IH" False j have "length (nat_to_string (n div 10)) \<le> j" by simp
    with False j show ?thesis by (subst nat_to_string.simps) simp
  qed
qed

lemma length_usize_string: "n < usize_card \<Longrightarrow> length (nat_to_string n) \<le> 20"
  by (rule length_nat_to_string) auto

subsection \<open>Big-endian integers\<close>

text \<open>\<open>uN::from_be_bytes\<close> and \<open>uN::to_be_bytes\<close> for \<open>N = 8 * k\<close>.\<close>

definition from_be_bytes :: "bytes \<Rightarrow> nat" where
  "from_be_bytes bs = foldl (\<lambda>a b. a * 256 + unat b) 0 bs"

fun to_be_bytes :: "nat \<Rightarrow> nat \<Rightarrow> bytes" where
  "to_be_bytes 0 n = []"
| "to_be_bytes (Suc k) n = to_be_bytes k (n div 256) @ [word_of_nat n]"

lemma length_to_be_bytes [simp]: "length (to_be_bytes k n) = k"
  by (induction k arbitrary: n) auto

lemma from_be_bytes_snoc: "from_be_bytes (bs @ [b]) = from_be_bytes bs * 256 + unat b"
  by (simp add: from_be_bytes_def)

lemma from_be_to_be: "n < 256 ^ k \<Longrightarrow> from_be_bytes (to_be_bytes k n) = n"
proof (induction k arbitrary: n)
  case 0
  then show ?case by (simp add: from_be_bytes_def)
next
  case (Suc k)
  then have "n div 256 < 256 ^ k" by (simp add: less_mult_imp_div_less mult.commute)
  with Suc.IH show ?case by (simp add: from_be_bytes_snoc)
qed

lemma from_be_bytes_bound: "from_be_bytes bs < 256 ^ length bs"
proof (induction bs rule: rev_induct)
  case (snoc b bs)
  then have "(from_be_bytes bs + 1) * 256 \<le> 256 ^ length bs * 256" by (intro mult_right_mono) auto
  moreover have "unat b < 256" by simp
  ultimately show ?case by (simp add: from_be_bytes_snoc del: u8_less_256)
qed (simp add: from_be_bytes_def)

lemmas std_string_defs [std_defs] =
  starts_with_def ends_with_def trim_start_matches_def trim_end_matches_def

end
