(* ===== verification/Mahalo_Conn.thy ===== *)
theory Mahalo_Conn
  imports Rust_Std "HOL-Library.Multiset"
begin

text \<open>
  The request/response value \<open>Conn\<close> of \<open>mahalo-core/src/conn.rs\<close> and its operations.

  The types and functions of the third-party \<open>http\<close> crate that the sources call are a record of
  operations \<open>http_api\<close>, an argument of the definitions that use them; what the code relies on
  is the predicate \<open>hm_laws\<close>, the documented behaviour of \<open>HeaderMap\<close> as a multimap. The
  type \<open>'h\<close> stands for the contents of a header map. \<open>list_http\<close> is one implementation
  of those laws, used where a theorem is applied to concrete data.

  A \<open>Conn\<close> is an extensible record. The extension \<open>'z\<close> is no field of the Rust struct: it
  carries the state that the closures of an application share (a store behind a mutex, a PubSub
  handle), so that plugs and handlers may have effects beyond the connection. The server's own code
  never looks at it.
\<close>

section \<open>Types of the http crate\<close>

datatype http_method =
  GET | HEAD | POST | PUT | DELETE | CONNECT | OPTIONS | TRACE | PATCH | Extension string

text \<open>A \<open>Uri\<close> is used through \<open>path()\<close> and \<open>query()\<close> only.\<close>

record uri =
  uri_path :: string
  uri_query :: "string option"

record 'h http_api =
  hm_new :: 'h
  hm_clear :: "'h \<Rightarrow> 'h"
  hm_insert :: "string \<Rightarrow> bytes \<Rightarrow> 'h \<Rightarrow> 'h"
  hm_append :: "string \<Rightarrow> bytes \<Rightarrow> 'h \<Rightarrow> 'h"
  hm_get :: "string \<Rightarrow> 'h \<Rightarrow> bytes option"
  hm_contains_key :: "string \<Rightarrow> 'h \<Rightarrow> bool"
  hm_iter :: "'h \<Rightarrow> (string \<times> bytes) list"
  header_name_from_bytes :: "bytes \<Rightarrow> string option"
  header_value_from_str :: "string \<Rightarrow> bytes option"
  header_value_to_str :: "bytes \<Rightarrow> string option"
  method_from_bytes :: "bytes \<Rightarrow> http_method option"
  uri_from_str :: "string \<Rightarrow> uri option"
  canonical_reason :: "u16 \<Rightarrow> string option"

text \<open>\<open>HeaderMap\<close> as documented: \<open>insert\<close> replaces all values of a name, \<open>append\<close> adds
  one, \<open>get\<close> returns the first, \<open>iter\<close> yields each value once in an unspecified order.\<close>

definition hm_laws :: "'h http_api \<Rightarrow> bool" where
  "hm_laws H \<longleftrightarrow>
     (\<forall>h. hm_clear H h = hm_new H) \<and>
     (\<forall>k. hm_get H k (hm_new H) = None) \<and>
     (\<forall>k k' v h. hm_get H k' (hm_insert H k v h) = (if k' = k then Some v else hm_get H k' h)) \<and>
     (\<forall>k k' v h. hm_get H k' (hm_append H k v h) =
        (if k' = k \<and> hm_get H k h = None then Some v else hm_get H k' h)) \<and>
     (\<forall>k h. hm_contains_key H k h \<longleftrightarrow> hm_get H k h \<noteq> None) \<and>
     (\<forall>k h. hm_get H k h = None \<longleftrightarrow> k \<notin> fst ` set (hm_iter H h)) \<and>
     (\<forall>k v h. hm_get H k h = Some v \<longrightarrow> (k, v) \<in> set (hm_iter H h)) \<and>
     hm_iter H (hm_new H) = [] \<and>
     (\<forall>k v h. mset (hm_iter H (hm_insert H k v h)) =
        add_mset (k, v) (filter_mset (\<lambda>e. fst e \<noteq> k) (mset (hm_iter H h)))) \<and>
     (\<forall>k v h. mset (hm_iter H (hm_append H k v h)) = add_mset (k, v) (mset (hm_iter H h)))"

section \<open>Conn\<close>

text \<open>\<open>KeepAlive\<close>: the interval in milliseconds and the comment text.\<close>

record keep_alive =
  ka_interval :: nat
  ka_text :: string

definition KeepAlive_new :: "nat \<Rightarrow> keep_alive" where
  "KeepAlive_new interval = \<lparr>ka_interval = interval, ka_text = ''keep-alive''\<rparr>"

definition KeepAlive_text :: "keep_alive \<Rightarrow> string \<Rightarrow> keep_alive" where
  "KeepAlive_text ka text = ka\<lparr>ka_text := text\<rparr>"

text \<open>The assign keys (a \<open>TypeId\<close> each) and the boxed values. \<open>has_type\<close> is the
  association \<open>AssignKey::Value\<close> (an application's own keys carry numbers, \<open>UserKey\<close>, or
  strings, \<open>AppKey\<close>); \<open>downcast\<close> is \<open>Any::downcast_ref\<close>. Channel ends and
  instants are opaque numbers.\<close>

datatype type_id =
  CsrfToken | RequestIdKey | RequestStartTime | SseStreamKey | SseKeepAliveKey | UserKey string | AppKey string

datatype any_val =
  StringVal string | InstantVal nat | SseStreamVal nat | KeepAliveVal keep_alive | UserVal nat

fun has_type :: "type_id \<Rightarrow> any_val \<Rightarrow> bool" where
  "has_type CsrfToken (StringVal s) = True"
| "has_type RequestIdKey (StringVal s) = True"
| "has_type RequestStartTime (InstantVal t) = True"
| "has_type SseStreamKey (SseStreamVal r) = True"
| "has_type SseKeepAliveKey (KeepAliveVal k) = True"
| "has_type (UserKey u) (UserVal n) = True"
| "has_type (AppKey u) (StringVal s) = True"
| "has_type _ _ = False"

definition downcast :: "type_id \<Rightarrow> any_val \<Rightarrow> any_val option" where
  "downcast k v = (if has_type k v then Some v else None)"

record 'h conn =
  conn_method :: http_method
  conn_uri :: uri
  conn_headers :: 'h
  conn_path_params :: "(string \<times> bytes) list"
  conn_query_params :: "(string \<rightharpoonup> string) option"
  conn_remote_addr :: "string option"
  conn_body :: bytes
  conn_status :: u16
  conn_resp_headers :: 'h
  conn_resp_body :: bytes
  conn_halted :: bool
  conn_assigns :: "(type_id \<rightharpoonup> any_val) option"
  conn_runtime :: "nat option"

definition conn_new :: "'h http_api \<Rightarrow> http_method \<Rightarrow> uri \<Rightarrow> 'h conn" where
  "conn_new H m u =
     \<lparr>conn_method = m, conn_uri = u, conn_headers = hm_new H, conn_path_params = [],
      conn_query_params = None, conn_remote_addr = None, conn_body = [], conn_status = 200,
      conn_resp_headers = hm_new H, conn_resp_body = [], conn_halted = False,
      conn_assigns = None, conn_runtime = None\<rparr>"

definition conn_reset :: "'h http_api \<Rightarrow> http_method \<Rightarrow> uri \<Rightarrow> ('h, 'z) conn_scheme \<Rightarrow> ('h, 'z) conn_scheme" where
  "conn_reset H m u c =
     c\<lparr>conn_method := m, conn_uri := u, conn_headers := hm_clear H (conn_headers c),
       conn_path_params := [],
       conn_query_params := (case conn_query_params c of Some qp \<Rightarrow> Some Map.empty | None \<Rightarrow> None),
       conn_remote_addr := None, conn_body := [], conn_status := 200,
       conn_resp_headers := hm_clear H (conn_resp_headers c), conn_resp_body := [],
       conn_halted := False,
       conn_assigns := (case conn_assigns c of Some a \<Rightarrow> Some Map.empty | None \<Rightarrow> None)\<rparr>"

fun find_param :: "(string \<times> bytes) list \<Rightarrow> string \<Rightarrow> string option" where
  "find_param [] name = None"
| "find_param ((k, v) # ps) name = (if k = name then from_utf8 v else find_param ps name)"

definition path_param :: "('h, 'z) conn_scheme \<Rightarrow> string \<Rightarrow> string option" where
  "path_param c name = find_param (conn_path_params c) name"

definition put_status :: "u16 \<Rightarrow> ('h, 'z) conn_scheme \<Rightarrow> ('h, 'z) conn_scheme" where
  "put_status s c = c\<lparr>conn_status := s\<rparr>"

definition put_resp_header :: "'h http_api \<Rightarrow> string \<Rightarrow> string \<Rightarrow> ('h, 'z) conn_scheme \<Rightarrow> ('h, 'z) conn_scheme" where
  "put_resp_header H key val c =
     (case (header_name_from_bytes H (as_bytes key), header_value_from_str H val) of
        (Some k, Some v) \<Rightarrow> c\<lparr>conn_resp_headers := hm_insert H k v (conn_resp_headers c)\<rparr>
      | _ \<Rightarrow> c)"

definition put_resp_header_static :: "'h http_api \<Rightarrow> string \<Rightarrow> bytes \<Rightarrow> ('h, 'z) conn_scheme \<Rightarrow> ('h, 'z) conn_scheme" where
  "put_resp_header_static H key val c =
     c\<lparr>conn_resp_headers := hm_insert H key val (conn_resp_headers c)\<rparr>"

definition put_resp_body :: "bytes \<Rightarrow> ('h, 'z) conn_scheme \<Rightarrow> ('h, 'z) conn_scheme" where
  "put_resp_body b c = c\<lparr>conn_resp_body := b\<rparr>"

definition put_resp_body_static :: "bytes \<Rightarrow> ('h, 'z) conn_scheme \<Rightarrow> ('h, 'z) conn_scheme" where
  "put_resp_body_static b c = c\<lparr>conn_resp_body := b\<rparr>"

definition halt :: "('h, 'z) conn_scheme \<Rightarrow> ('h, 'z) conn_scheme" where
  "halt c = c\<lparr>conn_halted := True\<rparr>"

text \<open>\<open>get_or_insert_with(HashMap::new).insert(TypeId::of::<K>(), value)\<close>.\<close>

definition assign :: "type_id \<Rightarrow> any_val \<Rightarrow> ('h, 'z) conn_scheme \<Rightarrow> ('h, 'z) conn_scheme" where
  "assign k v c =
     c\<lparr>conn_assigns := Some ((case conn_assigns c of None \<Rightarrow> Map.empty | Some a \<Rightarrow> a)(k \<mapsto> v))\<rparr>"

definition get_assign :: "type_id \<Rightarrow> ('h, 'z) conn_scheme \<Rightarrow> any_val option" where
  "get_assign k c =
     (case conn_assigns c of None \<Rightarrow> None | Some a \<Rightarrow> Option.bind (a k) (downcast k))"

text \<open>The entry is removed even when the downcast fails.\<close>

definition take_assign :: "type_id \<Rightarrow> ('h, 'z) conn_scheme \<Rightarrow> any_val option \<times> ('h, 'z) conn_scheme" where
  "take_assign k c =
     (case conn_assigns c of
        None \<Rightarrow> (None, c)
      | Some a \<Rightarrow> (Option.bind (a k) (downcast k), c\<lparr>conn_assigns := Some (a(k := None))\<rparr>))"

definition with_runtime :: "nat \<Rightarrow> ('h, 'z) conn_scheme \<Rightarrow> ('h, 'z) conn_scheme" where
  "with_runtime rt c = c\<lparr>conn_runtime := Some rt\<rparr>"

definition conn_test :: "'h http_api \<Rightarrow> 'h conn" where
  "conn_test H = conn_new H GET \<lparr>uri_path = ''/'', uri_query = None\<rparr>"

definition get_resp_header :: "'h http_api \<Rightarrow> ('h, 'z) conn_scheme \<Rightarrow> string \<Rightarrow> string option" where
  "get_resp_header H c name =
     Option.bind (hm_get H name (conn_resp_headers c)) (header_value_to_str H)"

text \<open>A pair of the query string: \<open>splitn(2, '=')\<close>, the missing value being empty. The
  percent decoder (\<open>percent_decode_str(..).decode_utf8_lossy()\<close>) is a third-party crate's.\<close>

definition split_pair :: "string \<Rightarrow> string \<times> string" where
  "split_pair p =
     (takeWhile (\<lambda>c. c \<noteq> CHR ''='') p,
      case dropWhile (\<lambda>c. c \<noteq> CHR ''='') p of [] \<Rightarrow> [] | _ # v \<Rightarrow> v)"

definition query_pairs :: "(string \<Rightarrow> string) \<Rightarrow> string \<Rightarrow> (string \<times> string) list" where
  "query_pairs decode q =
     map (\<lambda>p. case split_pair p of (k, v) \<Rightarrow> (decode k, decode v)) (split_on (CHR ''&'') q)"

definition parse_query_params :: "(string \<Rightarrow> string) \<Rightarrow> ('h, 'z) conn_scheme \<Rightarrow> ('h, 'z) conn_scheme" where
  "parse_query_params decode c =
     (case uri_query (conn_uri c) of
        None \<Rightarrow> c
      | Some q \<Rightarrow>
          c\<lparr>conn_query_params := Some (foldl (\<lambda>m (k, v). m(k \<mapsto> v)) Map.empty (query_pairs decode q))\<rparr>)"

definition query_param :: "('h, 'z) conn_scheme \<Rightarrow> string \<Rightarrow> string option" where
  "query_param c name = (case conn_query_params c of None \<Rightarrow> None | Some qp \<Rightarrow> qp name)"

section \<open>A list implementation of the http operations\<close>

definition lower_ascii :: "bytes \<Rightarrow> string" where
  "lower_ascii bs = map (char_of_u8 \<circ> to_ascii_lowercase) bs"

definition list_http :: "(string \<times> bytes) list http_api" where
  "list_http =
     \<lparr>hm_new = [], hm_clear = (\<lambda>_. []),
      hm_insert = (\<lambda>k v h. filter (\<lambda>e. fst e \<noteq> k) h @ [(k, v)]),
      hm_append = (\<lambda>k v h. h @ [(k, v)]),
      hm_get = (\<lambda>k h. map_of h k),
      hm_contains_key = (\<lambda>k h. k \<in> fst ` set h),
      hm_iter = (\<lambda>h. h),
      header_name_from_bytes = (\<lambda>b. if b = [] then None else Some (lower_ascii b)),
      header_value_from_str = (\<lambda>s. Some (as_bytes s)),
      header_value_to_str = from_utf8,
      method_from_bytes = (\<lambda>b. if b = as_bytes ''GET'' then Some GET
         else if b = as_bytes ''HEAD'' then Some HEAD
         else if b = as_bytes ''POST'' then Some POST
         else if b = [] then None else Some (Extension (map char_of_u8 b))),
      uri_from_str = (\<lambda>s. if s = [] then None else Some \<lparr>uri_path = s, uri_query = None\<rparr>),
      canonical_reason = (\<lambda>s. if s = 200 then Some ''OK'' else None)\<rparr>"

lemma map_of_filter_ne: "map_of (filter (\<lambda>e. fst e \<noteq> k) h) k' = (if k' = k then None else map_of h k')"
  by (induction h) auto

lemma map_of_snoc: "map_of (h @ [(k, v)]) k' = (if k' = k \<and> map_of h k = None then Some v else map_of h k')"
  by (auto simp: map_add_def split: option.splits)

lemma hm_laws_list_http: "hm_laws list_http"
  unfolding hm_laws_def list_http_def
  by (auto simp: map_of_snoc map_of_filter_ne map_of_eq_None_iff
      simp del: map_of_append dest: map_of_SomeD)

text \<open>The laws as rewrite rules for a given implementation.\<close>

lemma hm_laws_simps:
  assumes "hm_laws H"
  shows "hm_clear H h = hm_new H" and "hm_get H k (hm_new H) = None"
    and "hm_get H k' (hm_insert H k v h) = (if k' = k then Some v else hm_get H k' h)"
    and "hm_get H k' (hm_append H k v h) =
        (if k' = k \<and> hm_get H k h = None then Some v else hm_get H k' h)"
    and "hm_contains_key H k h \<longleftrightarrow> hm_get H k h \<noteq> None"
    and "hm_iter H (hm_new H) = []"
    and "mset (hm_iter H (hm_insert H k v h)) =
        add_mset (k, v) (filter_mset (\<lambda>e. fst e \<noteq> k) (mset (hm_iter H h)))"
    and "mset (hm_iter H (hm_append H k v h)) = add_mset (k, v) (mset (hm_iter H h))"
  by (insert assms, unfold hm_laws_def, (elim conjE, (erule spec | (erule allE)+, assumption | assumption))+)

lemma hm_get_iter:
  assumes "hm_laws H"
  shows "hm_get H k h = None \<longleftrightarrow> k \<notin> fst ` set (hm_iter H h)"
    and "hm_get H k h = Some v \<Longrightarrow> (k, v) \<in> set (hm_iter H h)"
  using assms unfolding hm_laws_def by simp_all

section \<open>Typed stores\<close>

text \<open>The contract of an assigns map, which \<open>Conn\<close> and \<open>ChannelSocket\<close> both promise: what
  was put under a key comes back for that key and no other, if it has the key's type.\<close>

locale typed_store =
  fixes put :: "type_id \<Rightarrow> any_val \<Rightarrow> 's \<Rightarrow> 's"
    and get :: "type_id \<Rightarrow> 's \<Rightarrow> any_val option"
  assumes get_put_same: "has_type k v \<Longrightarrow> get k (put k v s) = Some v"
    and get_put_other: "k' \<noteq> k \<Longrightarrow> get k' (put k v s) = get k' s"
begin

lemma get_put: "has_type k v \<Longrightarrow> get k' (put k v s) = (if k' = k then Some v else get k' s)"
  by (simp add: get_put_same get_put_other)

lemma put_put_get: "has_type k v \<Longrightarrow> has_type k w \<Longrightarrow> get k' (put k w (put k v s)) = get k' (put k w s)"
  by (simp add: get_put)

lemma fold_put_get:
  "\<forall>(k, v) \<in> set kvs. has_type k v \<Longrightarrow>
     get k (fold (\<lambda>(k, v). put k v) kvs s) = (case map_of (rev kvs) k of None \<Rightarrow> get k s | Some v \<Rightarrow> Some v)"
  by (induction kvs rule: rev_induct) (auto simp: get_put split: option.splits)

end

interpretation conn_store: typed_store assign get_assign
  by unfold_locales (auto simp: assign_def get_assign_def downcast_def split: option.splits)

lemma take_assign_get:
  "fst (take_assign k c) = get_assign k c"
  "get_assign k' (snd (take_assign k c)) = (if k' = k then None else get_assign k' c)"
  by (auto simp: take_assign_def get_assign_def split: option.splits)

section \<open>Query strings\<close>

lemma foldl_update_map_of:
  "foldl (\<lambda>m (k, v). m(k \<mapsto> v)) m kvs = m ++ map_of (rev kvs)"
  by (induction kvs arbitrary: m) (auto simp: fun_eq_iff map_add_def split: option.splits)

lemma query_param_parse:
  "uri_query (conn_uri c) = Some q \<Longrightarrow>
     query_param (parse_query_params decode c) name = map_of (rev (query_pairs decode q)) name"
  by (simp add: query_param_def parse_query_params_def foldl_update_map_of)

lemma split_pair_encoded:
  "CHR ''='' \<notin> set k \<Longrightarrow> split_pair (k @ CHR ''='' # v) = (k, v)"
  by (simp add: split_pair_def takeWhile_append dropWhile_append)

text \<open>A small escaping codec, to apply the round trip to.\<close>

definition pct_enc :: "string \<Rightarrow> string" where
  "pct_enc s = concat (map (\<lambda>c. if c = CHR ''&'' then ''%a'' else if c = CHR ''='' then ''%e''
     else if c = CHR ''%'' then ''%p'' else [c]) s)"

fun pct_dec :: "string \<Rightarrow> string" where
  "pct_dec [] = []"
| "pct_dec [c] = [c]"
| "pct_dec (c # d # s) =
     (if c = CHR ''%'' then (if d = CHR ''a'' then CHR ''&'' else if d = CHR ''e'' then CHR ''='' else c) # pct_dec s
      else c # pct_dec (d # s))"

lemma pct_dec_plain: "c \<noteq> CHR ''%'' \<Longrightarrow> pct_dec (c # s) = c # pct_dec s"
  by (cases s) auto

lemma pct_dec_enc [simp]: "pct_dec (pct_enc s) = s"
  by (induction s) (auto simp: pct_enc_def pct_dec_plain)

lemma pct_enc_safe: "CHR ''&'' \<notin> set (pct_enc s)" "CHR ''='' \<notin> set (pct_enc s)"
  by (auto simp: pct_enc_def)

section \<open>Properties\<close>

text \<open>A \<open>Conn\<close> that is reset for the next keep-alive request gives every reader what a freshly
  created one gives: no header, parameter, assign, body or halt flag of the previous request is
  left. Only the runtime handle is kept.\<close>

theorem conn_reset_fresh:
  assumes "hm_laws H"
  shows "let r = conn_reset H m u c; n = conn_new H m u in
     r = n\<lparr>conn_query_params := conn_query_params r, conn_assigns := conn_assigns r,
            conn_runtime := conn_runtime c\<rparr>
     \<and> (\<forall>k. get_assign k r = get_assign k n) \<and> (\<forall>name. query_param r name = query_param n name)
     \<and> (\<forall>name. path_param r name = path_param n name)
     \<and> (\<forall>name. get_resp_header H r name = get_resp_header H n name)"
  by (auto simp: conn_reset_def conn_new_def hm_laws_simps [OF assms(1)] get_assign_def Let_def
      query_param_def path_param_def get_resp_header_def split: option.splits)

theorem conn_reset_fresh_witness:
  "get_assign CsrfToken (conn_reset list_http GET \<lparr>uri_path = ''/'', uri_query = None\<rparr>
      (assign CsrfToken (StringVal ''t'') (conn_test list_http)))
   = get_assign CsrfToken (conn_new list_http GET \<lparr>uri_path = ''/'', uri_query = None\<rparr>)"
  using conn_reset_fresh [OF hm_laws_list_http, of GET "\<lparr>uri_path = ''/'', uri_query = None\<rparr>"
      "assign CsrfToken (StringVal ''t'') (conn_test list_http)"]
  unfolding Let_def by blast

text \<open>The assigns of a \<open>Conn\<close> are a typed map: a value assigned under a key is read and taken
  under that key, taking removes it, and other keys are not affected.\<close>

theorem conn_assigns_typed_map:
  assumes "has_type k v"
  shows "get_assign k' (assign k v c) = (if k' = k then Some v else get_assign k' c)
       \<and> fst (take_assign k (assign k v c)) = Some v
       \<and> get_assign k' (snd (take_assign k (assign k v c))) = (if k' = k then None else get_assign k' c)"
  using assms by (simp add: conn_store.get_put take_assign_get)

theorem conn_assigns_typed_map_witness:
  "get_assign RequestIdKey (assign CsrfToken (StringVal ''t'') (conn_test list_http))
   = get_assign RequestIdKey (conn_test list_http)"
  using conn_assigns_typed_map [of CsrfToken "StringVal ''t''" RequestIdKey "conn_test list_http"]
  by simp

text \<open>Query parameters round-trip: a query string written from key/value pairs with an encoding
  that the decoder inverts and that escapes the two separators is read back, the last pair of a
  repeated key winning.\<close>

theorem query_params_roundtrip:
  assumes dec: "\<And>s. decode (enc s) = s"
    and esc: "\<And>s. CHR ''&'' \<notin> set (enc s) \<and> CHR ''='' \<notin> set (enc s)"
    and q: "uri_query (conn_uri c) =
      Some (join ''&'' (map (\<lambda>(k, v). enc k @ CHR ''='' # enc v) kvs))"
    and ne: "kvs \<noteq> []"
  shows "query_param (parse_query_params decode c) name = map_of (rev kvs) name"
proof -
  have "split_on (CHR ''&'') (join ''&'' (map (\<lambda>(k, v). enc k @ CHR ''='' # enc v) kvs))
      = map (\<lambda>(k, v). enc k @ CHR ''='' # enc v) kvs"
    using ne esc by (intro split_on_join) auto
  then have "query_pairs decode (join ''&'' (map (\<lambda>(k, v). enc k @ CHR ''='' # enc v) kvs)) = kvs"
    using esc dec by (simp add: query_pairs_def split_pair_encoded comp_def case_prod_unfold)
  then show ?thesis by (simp add: query_param_parse [OF q])
qed

theorem query_params_roundtrip_witness:
  "query_param (parse_query_params pct_dec
     (conn_new list_http GET
        \<lparr>uri_path = ''/'', uri_query = Some (join ''&'' (map (\<lambda>(k, v). pct_enc k @ CHR ''='' # pct_enc v)
           [(''a'', ''1''), (''b'', ''x&y''), (''a'', ''2'')]))\<rparr>)) ''a'' = Some ''2''"
  by (subst query_params_roundtrip [of pct_dec pct_enc _ "[(''a'', ''1''), (''b'', ''x&y''), (''a'', ''2'')]"])
    (simp_all add: conn_new_def pct_enc_safe)

end
