(* ===== verification/Http_Date.thy ===== *)
theory Http_Date
  imports Rust_Std
begin

text \<open>
  The cached \<open>date\<close> header line of \<open>mahalo-endpoint/src/date.rs\<close>. The formatter of the
  \<open>httpdate\<close> crate is a parameter \<open>fmt\<close> from system time to text; \<open>sys\<close> is the system
  clock as a function of the monotonic instant (milliseconds). Slicing a formatted date shorter
  than 29 bytes would panic, which is the value \<open>None\<close>.
\<close>

section \<open>Definitions\<close>

definition DATE_HEADER_LEN :: nat where "DATE_HEADER_LEN = 29"
definition REFRESH_INTERVAL :: nat where "REFRESH_INTERVAL = 500"
definition DATE_HEADER_WIRE_LEN :: nat where "DATE_HEADER_WIRE_LEN = 6 + DATE_HEADER_LEN + 2"

record cached_date_line =
  cdl_wire :: bytes
  cdl_last_updated :: nat

definition cdl_refresh ::
  "(nat \<Rightarrow> string) \<Rightarrow> (nat \<Rightarrow> nat) \<Rightarrow> nat \<Rightarrow> cached_date_line \<Rightarrow> cached_date_line option" where
  "cdl_refresh fmt sys now cdl =
     (let b = as_bytes (fmt (sys now)) in
      if length b < DATE_HEADER_LEN then None
      else Some (cdl\<lparr>cdl_wire := splice 6 (take DATE_HEADER_LEN b) (cdl_wire cdl),
                     cdl_last_updated := now\<rparr>))"

definition cdl_new :: "(nat \<Rightarrow> string) \<Rightarrow> (nat \<Rightarrow> nat) \<Rightarrow> nat \<Rightarrow> cached_date_line option" where
  "cdl_new fmt sys now =
     (let w0 = replicate DATE_HEADER_WIRE_LEN 0;
          w1 = splice 0 (as_bytes ''date: '') w0;
          w2 = w1[DATE_HEADER_WIRE_LEN - 2 := 13];
          w3 = w2[DATE_HEADER_WIRE_LEN - 1 := 10]
      in cdl_refresh fmt sys now \<lparr>cdl_wire = w3, cdl_last_updated = now\<rparr>)"

definition write_date_header ::
  "(nat \<Rightarrow> string) \<Rightarrow> (nat \<Rightarrow> nat) \<Rightarrow> nat \<Rightarrow> cached_date_line \<Rightarrow> bytes
    \<Rightarrow> (cached_date_line \<times> bytes) option" where
  "write_date_header fmt sys now cdl buf =
     Option.bind
       (if REFRESH_INTERVAL \<le> now - cdl_last_updated cdl then cdl_refresh fmt sys now cdl else Some cdl)
       (\<lambda>cdl'. Some (cdl', buf @ cdl_wire cdl'))"

section \<open>The line that is written\<close>

definition date_line :: "string \<Rightarrow> bytes" where
  "date_line d = as_bytes ''date: '' @ take 29 (as_bytes d) @ [13, 10]"

text \<open>What the crate documents of its formatter: an IMF-fixdate has 29 characters.\<close>

definition imf_fixdate :: "(nat \<Rightarrow> string) \<Rightarrow> bool" where
  "imf_fixdate fmt \<longleftrightarrow> (\<forall>t. length (fmt t) = 29)"

text \<open>The cache holds a complete line for the instant of its last refresh.\<close>

definition date_inv :: "(nat \<Rightarrow> string) \<Rightarrow> (nat \<Rightarrow> nat) \<Rightarrow> cached_date_line \<Rightarrow> bool" where
  "date_inv fmt sys cdl \<longleftrightarrow> cdl_wire cdl = date_line (fmt (sys (cdl_last_updated cdl)))"

lemmas date_lens = DATE_HEADER_LEN_def DATE_HEADER_WIRE_LEN_def

lemma length_date_line: "length d = 29 \<Longrightarrow> length (date_line d) = DATE_HEADER_WIRE_LEN"
  by (simp add: date_line_def date_lens)

lemma cdl_refresh_line:
  assumes "length (fmt (sys now)) = 29"
    and "take 6 (cdl_wire cdl) = as_bytes ''date: ''" and "drop 35 (cdl_wire cdl) = [13, 10]"
  shows "\<exists>cdl'. cdl_refresh fmt sys now cdl = Some cdl' \<and> date_inv fmt sys cdl' \<and>
           cdl_last_updated cdl' = now"
  using assms by (simp add: cdl_refresh_def date_inv_def date_line_def splice_def date_lens)

lemma cdl_new_ok:
  assumes "imf_fixdate fmt"
  shows "\<exists>cdl. cdl_new fmt sys now = Some cdl \<and> date_inv fmt sys cdl \<and> cdl_last_updated cdl = now"
  unfolding cdl_new_def Let_def
proof (rule cdl_refresh_line)
  show "length (fmt (sys now)) = 29" using assms by (simp add: imf_fixdate_def)
qed (simp_all add: splice_def date_lens numeral_eq_Suc)

lemma write_date_header_ok:
  assumes "imf_fixdate fmt" and "date_inv fmt sys cdl"
  shows "\<exists>cdl'. write_date_header fmt sys now cdl buf =
             Some (cdl', buf @ date_line (fmt (sys (cdl_last_updated cdl')))) \<and>
           date_inv fmt sys cdl' \<and>
           (cdl_last_updated cdl' = now \<or>
            cdl_last_updated cdl' = cdl_last_updated cdl \<and> now - cdl_last_updated cdl < REFRESH_INTERVAL)"
proof (cases "REFRESH_INTERVAL \<le> now - cdl_last_updated cdl")
  case True
  have "take 6 (cdl_wire cdl) = as_bytes ''date: ''" "drop 35 (cdl_wire cdl) = [13, 10]"
    using assms by (simp_all add: date_inv_def date_line_def imf_fixdate_def)
  with assms obtain cdl' where "cdl_refresh fmt sys now cdl = Some cdl'" "date_inv fmt sys cdl'"
      "cdl_last_updated cdl' = now"
    using cdl_refresh_line by (metis imf_fixdate_def)
  with True show ?thesis by (simp add: write_date_header_def date_inv_def)
next
  case False
  with assms show ?thesis by (simp add: write_date_header_def date_inv_def)
qed

section \<open>Properties\<close>

text \<open>C39: The date header written into a response is always the complete 37-byte line
  \<open>date: <IMF-fixdate>CRLF\<close> of a moment that lies less than 500 ms in the past, the cache
  stays consistent, and no slice panics.\<close>

theorem date_header_fresh:
  assumes "imf_fixdate fmt" and "date_inv fmt sys cdl" and "cdl_last_updated cdl \<le> now"
  shows "\<exists>cdl' t. write_date_header fmt sys now cdl buf = Some (cdl', buf @ date_line (fmt (sys t))) \<and>
           date_inv fmt sys cdl' \<and> t \<le> now \<and> now < t + REFRESH_INTERVAL \<and>
           length (date_line (fmt (sys t))) = DATE_HEADER_WIRE_LEN"
proof -
  obtain cdl' where c: "write_date_header fmt sys now cdl buf =
        Some (cdl', buf @ date_line (fmt (sys (cdl_last_updated cdl'))))" "date_inv fmt sys cdl'"
      "cdl_last_updated cdl' = now \<or>
       cdl_last_updated cdl' = cdl_last_updated cdl \<and> now - cdl_last_updated cdl < REFRESH_INTERVAL"
    using write_date_header_ok [OF assms(1,2)] by blast
  then have "cdl_last_updated cdl' \<le> now \<and> now < cdl_last_updated cdl' + REFRESH_INTERVAL"
    using assms(3) by (auto simp: REFRESH_INTERVAL_def)
  moreover have "length (date_line (fmt (sys (cdl_last_updated cdl')))) = DATE_HEADER_WIRE_LEN"
    using assms(1) by (simp add: length_date_line imf_fixdate_def)
  ultimately show ?thesis using c by blast
qed

theorem date_header_fresh_witness:
  "\<exists>cdl' t. write_date_header (\<lambda>_. ''Sun, 06 Nov 1994 08:49:37 GMT'') (\<lambda>t. t) 700
       \<lparr>cdl_wire = date_line ''Sun, 06 Nov 1994 08:49:37 GMT'', cdl_last_updated = 0\<rparr> [1]
     = Some (cdl', [1] @ date_line ''Sun, 06 Nov 1994 08:49:37 GMT'') \<and> t \<le> 700 \<and> 700 < t + REFRESH_INTERVAL"
proof -
  have "imf_fixdate (\<lambda>_. ''Sun, 06 Nov 1994 08:49:37 GMT'')" by (simp add: imf_fixdate_def)
  moreover have "date_inv (\<lambda>_. ''Sun, 06 Nov 1994 08:49:37 GMT'') (\<lambda>t. t)
      \<lparr>cdl_wire = date_line ''Sun, 06 Nov 1994 08:49:37 GMT'', cdl_last_updated = 0\<rparr>"
    by (simp add: date_inv_def)
  ultimately show ?thesis
    using date_header_fresh [of "\<lambda>_. ''Sun, 06 Nov 1994 08:49:37 GMT''" "\<lambda>t. t" _ 700 "[1]"] by fastforce
qed

end
