(* ===== verification/Http_Parse.thy ===== *)
theory Http_Parse
  imports Mahalo_Conn Http_Date
begin

text \<open>
  HTTP/1.1 request parsing and response serialization, \<open>mahalo-endpoint/src/http_parse.rs\<close>.

  The tokenizer of the \<open>httparse\<close> crate is a parameter \<open>P\<close> from the buffer to its verdict
  and the request it filled in; the \<open>http\<close> crate is the record of \<open>Mahalo_Conn\<close>; SHA-1 and
  Base64 are parameters of the handshake response. The pointer writes of
  \<open>serialize_response_into\<close> are modelled as writes into an allocation of a given size, where a
  write that does not fit is the value \<open>None\<close> (undefined behaviour in the source).
\<close>

section \<open>Requests: definitions\<close>

definition crlf :: bytes where "crlf = [13, 10]"

definition SERVER_HEADER :: bytes where "SERVER_HEADER = as_bytes ''server: mahalo'' @ crlf"

datatype parse_error = InvalidRequest | BodyTooLarge

definition RESPONSE_400 :: bytes where
  "RESPONSE_400 = as_bytes ''HTTP/1.1 400 Bad Request'' @ crlf @ as_bytes ''content-length: 11'' @ crlf
     @ as_bytes ''connection: close'' @ crlf @ crlf @ as_bytes ''Bad Request''"

definition RESPONSE_413 :: bytes where
  "RESPONSE_413 = as_bytes ''HTTP/1.1 413 Payload Too Large'' @ crlf @ as_bytes ''content-length: 17'' @ crlf
     @ as_bytes ''connection: close'' @ crlf @ crlf @ as_bytes ''Payload Too Large''"

definition RESPONSE_503 :: bytes where
  "RESPONSE_503 = as_bytes ''HTTP/1.1 503 Service Unavailable'' @ crlf @ as_bytes ''content-length: 19'' @ crlf
     @ as_bytes ''connection: close'' @ crlf @ crlf @ as_bytes ''Service Unavailable''"

text \<open>The interface of \<open>httparse\<close>: the status of \<open>Request::parse\<close> and the fields it sets.\<close>

type_synonym header = "string \<times> bytes"

datatype hp_status = Partial | Complete nat

record hp_request =
  hp_method :: "string option"
  hp_path :: "string option"
  hp_version :: "nat option"
  hp_headers :: "header list"

type_synonym httparse = "bytes \<Rightarrow> (hp_status, string) result \<times> hp_request"

text \<open>What the crate documents: the length of a complete head is the number of bytes it consumed.\<close>

definition httparse_laws :: "httparse \<Rightarrow> bool" where
  "httparse_laws P \<longleftrightarrow>
     (\<forall>buf n. fst (P buf) = Ok (Complete n) \<longrightarrow> 0 < n \<and> n \<le> length buf)"

record raw_parsed =
  raw_method :: http_method
  raw_uri :: uri
  raw_headers :: "header list"
  raw_content_length :: "nat option"
  raw_connection_header :: "string option"
  raw_http_version :: "nat option"
  raw_header_len :: nat

text \<open>One turn of the header scan: the last content-length and connection headers count.\<close>

definition scan_header :: "nat option \<times> string option \<Rightarrow> header \<Rightarrow> nat option \<times> string option" where
  "scan_header s h =
     ((if str_eq_ignore_ascii_case (fst h) ''content-length''
       then (case from_utf8 (snd h) of Some v \<Rightarrow> parse_usize (trim v) | None \<Rightarrow> fst s)
       else fst s),
      (if str_eq_ignore_ascii_case (fst h) ''connection'' then from_utf8 (snd h) else snd s))"

definition parse_raw ::
  "'h http_api \<Rightarrow> httparse \<Rightarrow> bytes \<Rightarrow> (raw_parsed option, parse_error) result" where
  "parse_raw H P buf =
     (case P buf of (status, req) \<Rightarrow>
       (case status of
          Ok Partial \<Rightarrow> Ok None
        | Err e \<Rightarrow> Err InvalidRequest
        | Ok (Complete header_len) \<Rightarrow>
            result_bind (ok_or (Option.bind (hp_method req) (\<lambda>m. method_from_bytes H (as_bytes m))) InvalidRequest)
              (\<lambda>m. result_bind (ok_or (Option.bind (hp_path req) (uri_from_str H)) InvalidRequest)
                (\<lambda>u. let s = foldl scan_header (None, None) (hp_headers req) in
                   Ok (Some \<lparr>raw_method = m, raw_uri = u, raw_headers = hp_headers req,
                             raw_content_length = fst s, raw_connection_header = snd s,
                             raw_http_version = hp_version req, raw_header_len = header_len\<rparr>)))))"

definition fast_header_name :: "bytes \<Rightarrow> string option" where
  "fast_header_name name =
     (if length name = 4 then
        (if eq_ignore_ascii_case name (as_bytes ''host'') then Some ''host'' else None)
      else if length name = 6 then
        (if eq_ignore_ascii_case name (as_bytes ''accept'') then Some ''accept''
         else if eq_ignore_ascii_case name (as_bytes ''cookie'') then Some ''cookie'' else None)
      else if length name = 10 then
        (if eq_ignore_ascii_case name (as_bytes ''connection'') then Some ''connection''
         else if eq_ignore_ascii_case name (as_bytes ''user-agent'') then Some ''user-agent'' else None)
      else if length name = 12 then
        (if eq_ignore_ascii_case name (as_bytes ''content-type'') then Some ''content-type'' else None)
      else if length name = 14 then
        (if eq_ignore_ascii_case name (as_bytes ''content-length'') then Some ''content-length'' else None)
      else if length name = 15 then
        (if eq_ignore_ascii_case name (as_bytes ''accept-encoding'') then Some ''accept-encoding''
         else if eq_ignore_ascii_case name (as_bytes ''accept-language'') then Some ''accept-language''
         else None)
      else None)"

text \<open>\<open>fast_header_name(..).or_else(|| HeaderName::from_bytes(..).ok())\<close>.\<close>

definition header_name :: "'h http_api \<Rightarrow> string \<Rightarrow> string option" where
  "header_name H name =
     (case fast_header_name (as_bytes name) of
        Some n \<Rightarrow> Some n
      | None \<Rightarrow> header_name_from_bytes H (as_bytes name))"

fun build_header_map_loop :: "'h http_api \<Rightarrow> 'h \<Rightarrow> header list \<Rightarrow> ('h, parse_error) result" where
  "build_header_map_loop H hm [] = Ok hm"
| "build_header_map_loop H hm (h # hs) =
     (case header_name H (fst h) of
        None \<Rightarrow> Err InvalidRequest
      | Some name \<Rightarrow> build_header_map_loop H (hm_append H name (snd h) hm) hs)"

definition build_header_map :: "'h http_api \<Rightarrow> header list \<Rightarrow> ('h, parse_error) result" where
  "build_header_map H hs = build_header_map_loop H (hm_new H) hs"

text \<open>The map is changed in place: on an error it keeps the headers appended so far.\<close>

fun append_headers :: "'h http_api \<Rightarrow> 'h \<Rightarrow> header list \<Rightarrow> 'h \<times> (unit, parse_error) result" where
  "append_headers H hm [] = (hm, Ok ())"
| "append_headers H hm (h # hs) =
     (case header_name H (fst h) of
        None \<Rightarrow> (hm, Err InvalidRequest)
      | Some name \<Rightarrow> append_headers H (hm_append H name (snd h) hm) hs)"

definition body_length :: "raw_parsed \<Rightarrow> nat" where
  "body_length raw =
     (if raw_method raw \<in> {GET, HEAD, DELETE} then 0
      else case raw_content_length raw of Some n \<Rightarrow> n | None \<Rightarrow> 0)"

definition keep_alive_of :: "raw_parsed \<Rightarrow> bool" where
  "keep_alive_of raw =
     (case raw_connection_header raw of
        Some v \<Rightarrow>
          if str_eq_ignore_ascii_case v ''close'' then False
          else if str_eq_ignore_ascii_case v ''keep-alive'' then True
          else (case raw_http_version raw of Some n \<Rightarrow> 1 \<le> n | None \<Rightarrow> True)
      | None \<Rightarrow> (case raw_http_version raw of Some n \<Rightarrow> 1 \<le> n | None \<Rightarrow> True))"

definition finalize_body_and_keepalive ::
  "raw_parsed \<Rightarrow> bytes \<Rightarrow> nat \<Rightarrow> ((bytes \<times> bool \<times> nat) option, parse_error) result" where
  "finalize_body_and_keepalive raw buf body_limit =
     (let body_len = body_length raw in
      if body_limit < body_len then Err BodyTooLarge
      else let total_len = raw_header_len raw + body_len in
        if length buf < total_len then Ok None
        else let body = (if 0 < body_len then slice buf (raw_header_len raw) total_len else [])
             in Ok (Some (body, keep_alive_of raw, total_len)))"

definition ws_scan :: "bool \<times> string option \<Rightarrow> header \<Rightarrow> bool \<times> string option" where
  "ws_scan s h =
     (if str_eq_ignore_ascii_case (fst h) ''upgrade'' then
        (case from_utf8 (snd h) of
           Some v \<Rightarrow> (fst s \<or> str_eq_ignore_ascii_case v ''websocket'', snd s)
         | None \<Rightarrow> s)
      else if str_eq_ignore_ascii_case (fst h) ''sec-websocket-key'' then
        (case from_utf8 (snd h) of Some v \<Rightarrow> (fst s, Some (trim v)) | None \<Rightarrow> s)
      else s)"

definition detect_ws_key ::
  "'h http_api \<Rightarrow> http_method \<Rightarrow> header list \<Rightarrow> 'h \<Rightarrow> string option" where
  "detect_ws_key H m hs hm =
     (if m \<noteq> GET then None
      else case foldl ws_scan (False, None) hs of
        (upgrade_websocket, key) \<Rightarrow>
          if upgrade_websocket \<and> key \<noteq> None then
            (case Option.bind (hm_get H ''sec-websocket-version'' hm) (header_value_to_str H) of
               Some v \<Rightarrow> if trim v = ''13'' then key else None
             | None \<Rightarrow> None)
          else None)"

record 'h parsed_request =
  pr_conn :: "'h conn"
  pr_keep_alive :: bool
  pr_bytes_consumed :: nat
  pr_ws_key :: "string option"

definition try_parse_request ::
  "'h http_api \<Rightarrow> httparse \<Rightarrow> bytes \<Rightarrow> nat \<Rightarrow> string
    \<Rightarrow> ('h parsed_request option, parse_error) result" where
  "try_parse_request H P buf body_limit peer_addr =
     (case parse_raw H P buf of
        Err e \<Rightarrow> Err e
      | Ok None \<Rightarrow> Ok None
      | Ok (Some raw) \<Rightarrow>
          (case finalize_body_and_keepalive raw buf body_limit of
             Err e \<Rightarrow> Err e
           | Ok None \<Rightarrow> Ok None
           | Ok (Some (body, keep_alive, total_len)) \<Rightarrow>
               (case build_header_map H (raw_headers raw) of
                  Err e \<Rightarrow> Err e
                | Ok header_map \<Rightarrow>
                    let c = (conn_new H (raw_method raw) (raw_uri raw))
                              \<lparr>conn_headers := header_map, conn_body := body,
                               conn_remote_addr := Some peer_addr\<rparr>
                    in Ok (Some \<lparr>pr_conn = c, pr_keep_alive = keep_alive, pr_bytes_consumed = total_len,
                         pr_ws_key = detect_ws_key H (conn_method c) (raw_headers raw) (conn_headers c)\<rparr>))))"

record parsed_into =
  pi_keep_alive :: bool
  pi_bytes_consumed :: nat
  pi_ws_key :: "string option"

definition try_parse_into_conn ::
  "'h http_api \<Rightarrow> httparse \<Rightarrow> 'h conn \<Rightarrow> bytes \<Rightarrow> nat \<Rightarrow> string
    \<Rightarrow> 'h conn \<times> (parsed_into option, parse_error) result" where
  "try_parse_into_conn H P c buf body_limit peer_addr =
     (case parse_raw H P buf of
        Err e \<Rightarrow> (c, Err e)
      | Ok None \<Rightarrow> (c, Ok None)
      | Ok (Some raw) \<Rightarrow>
          (case finalize_body_and_keepalive raw buf body_limit of
             Err e \<Rightarrow> (c, Err e)
           | Ok None \<Rightarrow> (c, Ok None)
           | Ok (Some (body, keep_alive, total_len)) \<Rightarrow>
               let c1 = conn_reset H (raw_method raw) (raw_uri raw) c in
               (case append_headers H (conn_headers c1) (raw_headers raw) of
                  (hm, Err e) \<Rightarrow> (c1\<lparr>conn_headers := hm\<rparr>, Err e)
                | (hm, Ok _) \<Rightarrow>
                    let c2 = c1\<lparr>conn_headers := hm, conn_body := body,
                                conn_remote_addr := Some peer_addr\<rparr>
                    in (c2, Ok (Some \<lparr>pi_keep_alive = keep_alive, pi_bytes_consumed = total_len,
                         pi_ws_key = detect_ws_key H (conn_method c2) (raw_headers raw) (conn_headers c2)\<rparr>)))))"

section \<open>Responses: definitions\<close>

definition status_text :: "u16 \<Rightarrow> string" where
  "status_text code =
     (if code = 200 then ''HTTP/1.1 200 OK''
      else if code = 201 then ''HTTP/1.1 201 Created''
      else if code = 204 then ''HTTP/1.1 204 No Content''
      else if code = 301 then ''HTTP/1.1 301 Moved Permanently''
      else if code = 302 then ''HTTP/1.1 302 Found''
      else if code = 304 then ''HTTP/1.1 304 Not Modified''
      else if code = 400 then ''HTTP/1.1 400 Bad Request''
      else if code = 401 then ''HTTP/1.1 401 Unauthorized''
      else if code = 403 then ''HTTP/1.1 403 Forbidden''
      else if code = 404 then ''HTTP/1.1 404 Not Found''
      else if code = 405 then ''HTTP/1.1 405 Method Not Allowed''
      else if code = 413 then ''HTTP/1.1 413 Payload Too Large''
      else if code = 500 then ''HTTP/1.1 500 Internal Server Error''
      else if code = 503 then ''HTTP/1.1 503 Service Unavailable''
      else [])"

definition status_line :: "u16 \<Rightarrow> bytes" where
  "status_line code = (if status_text code = [] then [] else as_bytes (status_text code) @ crlf)"

text \<open>\<open>b'0' + x as u8\<close> for the three digits of a status code.\<close>

definition status_digits :: "u16 \<Rightarrow> bytes" where
  "status_digits code =
     [48 + ucast (code div 100), 48 + ucast ((code div 10) mod 10), 48 + ucast (code mod 10)]"

definition reason_text :: "'h http_api \<Rightarrow> u16 \<Rightarrow> string" where
  "reason_text H code = (case canonical_reason H code of Some r \<Rightarrow> r | None \<Rightarrow> ''Unknown'')"

text \<open>The bytes of the pointer writes, one element per write, in program order.\<close>

definition status_writes :: "'h http_api \<Rightarrow> u16 \<Rightarrow> bytes list" where
  "status_writes H code =
     (if status_line code \<noteq> [] then [status_line code]
      else [as_bytes ''HTTP/1.1 ''] @ map (\<lambda>b. [b]) (status_digits code)
        @ [[32], as_bytes (reason_text H code), [13], [10]])"

definition header_writes :: "header \<Rightarrow> bytes list" where
  "header_writes h = [as_bytes (fst h), [58], [32], snd h, [13], [10]]"

definition connection_hdr :: "bool \<Rightarrow> bytes" where
  "connection_hdr keep_alive =
     (if keep_alive then as_bytes ''connection: keep-alive'' else as_bytes ''connection: close'') @ crlf"

definition content_length_writes :: "'h http_api \<Rightarrow> ('h, 'z) conn_scheme \<Rightarrow> bytes list" where
  "content_length_writes H c =
     (if hm_contains_key H ''content-length'' (conn_resp_headers c) then []
      else [as_bytes ''content-length: '', as_bytes (nat_to_string (length (conn_resp_body c))), [13], [10]])"

definition response_writes :: "'h http_api \<Rightarrow> ('h, 'z) conn_scheme \<Rightarrow> bool \<Rightarrow> bytes list" where
  "response_writes H c keep_alive =
     status_writes H (conn_status c)
     @ concat (map header_writes (hm_iter H (conn_resp_headers c)))
     @ content_length_writes H c
     @ [connection_hdr keep_alive]"

definition response_needed :: "'h http_api \<Rightarrow> ('h, 'z) conn_scheme \<Rightarrow> nat" where
  "response_needed H c =
     128 + (\<Sum>(name, value) \<leftarrow> hm_iter H (conn_resp_headers c). length name + 2 + length value + 2)
     + length (conn_resp_body c)"

text \<open>A pointer write of \<open>b\<close> at \<open>pos\<close> into the allocation \<open>mem\<close>.\<close>

definition raw_write :: "bytes \<Rightarrow> bytes \<times> nat \<Rightarrow> (bytes \<times> nat) option" where
  "raw_write b s =
     (case s of (mem, pos) \<Rightarrow>
        if pos + length b \<le> length mem then Some (splice pos b mem, pos + length b) else None)"

fun raw_writes :: "bytes list \<Rightarrow> bytes \<times> nat \<Rightarrow> (bytes \<times> nat) option" where
  "raw_writes [] s = Some s"
| "raw_writes (b # bs) s = Option.bind (raw_write b s) (raw_writes bs)"

text \<open>\<open>mem\<close> is the allocation behind \<open>buf\<close> (its length is the capacity), \<open>reserve\<close> what
  \<open>Vec::reserve\<close> makes of it. The date cache is threaded through.\<close>

definition serialize_response_into ::
  "'h http_api \<Rightarrow> (nat \<Rightarrow> string) \<Rightarrow> (nat \<Rightarrow> nat) \<Rightarrow> nat \<Rightarrow> (bytes \<Rightarrow> nat \<Rightarrow> bytes)
    \<Rightarrow> ('h, 'z) conn_scheme \<Rightarrow> bool \<Rightarrow> cached_date_line \<Rightarrow> bytes \<Rightarrow> (cached_date_line \<times> bytes) option" where
  "serialize_response_into H fmt sys now reserve c keep_alive cdl mem =
     (let needed = response_needed H c;
          mem' = (if length mem < needed then reserve mem needed else mem)
      in Option.bind (raw_writes (response_writes H c keep_alive) (mem', 0)) (\<lambda>(m, pos).
         Option.bind (write_date_header fmt sys now cdl (take pos m)) (\<lambda>(cdl', buf).
           Some (cdl', buf @ SERVER_HEADER @ crlf
              @ (if conn_method c \<noteq> HEAD then conn_resp_body c else [])))))"

definition serialize_response ::
  "'h http_api \<Rightarrow> (nat \<Rightarrow> string) \<Rightarrow> (nat \<Rightarrow> nat) \<Rightarrow> nat \<Rightarrow> (bytes \<Rightarrow> nat \<Rightarrow> bytes)
    \<Rightarrow> ('h, 'z) conn_scheme \<Rightarrow> bool \<Rightarrow> cached_date_line \<Rightarrow> (cached_date_line \<times> bytes) option" where
  "serialize_response H fmt sys now reserve c keep_alive cdl =
     serialize_response_into H fmt sys now reserve c keep_alive cdl (replicate 256 0)"

definition serialize_sse_headers_into ::
  "'h http_api \<Rightarrow> (nat \<Rightarrow> string) \<Rightarrow> (nat \<Rightarrow> nat) \<Rightarrow> nat \<Rightarrow> ('h, 'z) conn_scheme \<Rightarrow> cached_date_line
    \<Rightarrow> (cached_date_line \<times> bytes) option" where
  "serialize_sse_headers_into H fmt sys now c cdl =
     (let b1 = (if status_line (conn_status c) \<noteq> [] then status_line (conn_status c)
                else as_bytes ''HTTP/1.1 '' @ status_digits (conn_status c) @ [32]
                  @ as_bytes (reason_text H (conn_status c)) @ crlf);
          b2 = b1 @ concat (map (\<lambda>(name, value). as_bytes name @ as_bytes '': '' @ value @ crlf)
                 (hm_iter H (conn_resp_headers c)));
          b3 = b2 @ as_bytes ''connection: close'' @ crlf
      in Option.bind (write_date_header fmt sys now cdl b3)
           (\<lambda>(cdl', buf). Some (cdl', buf @ SERVER_HEADER @ crlf)))"

definition serialize_ws_accept_response ::
  "(bytes \<Rightarrow> bytes) \<Rightarrow> (bytes \<Rightarrow> string) \<Rightarrow> string \<Rightarrow> bytes \<Rightarrow> bytes" where
  "serialize_ws_accept_response sha1 base64 ws_key buf =
     (let hash = sha1 (as_bytes ws_key @ as_bytes ''258EAFA5-E914-47DA-95CA-C5AB0DC85B11'');
          accept = base64 hash
      in buf @ as_bytes ''HTTP/1.1 101 Switching Protocols'' @ crlf
           @ as_bytes ''Upgrade: websocket'' @ crlf
           @ as_bytes ''Connection: Upgrade'' @ crlf
           @ as_bytes ''Sec-WebSocket-Accept: '' @ as_bytes accept @ crlf @ crlf)"


section \<open>Parsing: what comes out\<close>

lemma try_parse_request_Some_iff:
  "try_parse_request H P buf l peer = Ok (Some pr) \<longleftrightarrow>
     (\<exists>raw body ka n hm. parse_raw H P buf = Ok (Some raw) \<and>
        finalize_body_and_keepalive raw buf l = Ok (Some (body, ka, n)) \<and>
        build_header_map H (raw_headers raw) = Ok hm \<and>
        pr = \<lparr>pr_conn = (conn_new H (raw_method raw) (raw_uri raw))
                 \<lparr>conn_headers := hm, conn_body := body, conn_remote_addr := Some peer\<rparr>,
              pr_keep_alive = ka, pr_bytes_consumed = n,
              pr_ws_key = detect_ws_key H (raw_method raw) (raw_headers raw) hm\<rparr>)"
  by (auto simp: try_parse_request_def conn_new_def Let_def
      split: result.splits option.splits prod.splits)

lemma parse_raw_Some_iff:
  "parse_raw H P buf = Ok (Some raw) \<longleftrightarrow>
     (\<exists>n req m path u. P buf = (Ok (Complete n), req) \<and>
        hp_method req = Some m \<and> method_from_bytes H (as_bytes m) = Some (raw_method raw) \<and>
        hp_path req = Some path \<and> uri_from_str H path = Some u \<and>
        raw = \<lparr>raw_method = raw_method raw, raw_uri = u, raw_headers = hp_headers req,
               raw_content_length = fst (foldl scan_header (None, None) (hp_headers req)),
               raw_connection_header = snd (foldl scan_header (None, None) (hp_headers req)),
               raw_http_version = hp_version req, raw_header_len = n\<rparr>)"
  by (cases raw)
    (auto simp: parse_raw_def Let_def bind_eq_Some_conv split: prod.splits result.splits hp_status.splits)

lemma finalize_Some_iff:
  "finalize_body_and_keepalive raw buf l = Ok (Some (body, ka, n)) \<longleftrightarrow>
     body_length raw \<le> l \<and> n = raw_header_len raw + body_length raw \<and> n \<le> length buf \<and>
     body = slice buf (raw_header_len raw) n \<and> ka = keep_alive_of raw"
  by (auto simp: finalize_body_and_keepalive_def Let_def slice_def)

lemma parse_raw_header_len:
  assumes "httparse_laws P" and "parse_raw H P buf = Ok (Some raw)"
  shows "0 < raw_header_len raw \<and> raw_header_len raw \<le> length buf"
  using assms unfolding parse_raw_Some_iff httparse_laws_def
  by (metis fst_conv raw_parsed.select_convs(7))

lemma append_headers_build:
  "append_headers H hm hs = (hm', Ok u) \<longleftrightarrow> build_header_map_loop H hm hs = Ok hm'"
  "snd (append_headers H hm hs) = Err e \<longleftrightarrow> build_header_map_loop H hm hs = Err e"
  by (induction hs arbitrary: hm) (auto split: option.splits)

section \<open>Serialization: lengths and contents\<close>

lemma length_status_line: "length (status_line code) \<le> 36"
  by (simp add: status_line_def status_text_def crlf_def)

lemma status_writes_bytes:
  "concat (status_writes H code) =
     (if status_line code \<noteq> [] then status_line code
      else as_bytes ''HTTP/1.1 '' @ status_digits code @ [32] @ as_bytes (reason_text H code) @ crlf)"
  by (simp add: status_writes_def status_digits_def crlf_def)

definition reason_laws :: "'h http_api \<Rightarrow> bool" where
  "reason_laws H \<longleftrightarrow> (\<forall>code r. canonical_reason H code = Some r \<longrightarrow> length r \<le> 51)"

lemma length_status_writes:
  assumes "reason_laws H"
  shows "length (concat (status_writes H code)) \<le> 66"
proof -
  have "length (reason_text H code) \<le> 51"
    using assms by (auto simp: reason_text_def reason_laws_def split: option.splits)
  then show ?thesis
    using length_status_line [of code] by (simp add: status_writes_bytes status_digits_def crlf_def)
qed

lemma header_writes_bytes:
  "concat (concat (map header_writes hs)) =
     concat (map (\<lambda>(name, value). as_bytes name @ as_bytes '': '' @ value @ crlf) hs)"
  by (induction hs) (auto simp: header_writes_def crlf_def u8_of_char_def)

lemma length_header_writes:
  "length (concat (concat (map header_writes hs))) =
     (\<Sum>(name, value) \<leftarrow> hs. length name + 2 + length value + 2)"
  by (induction hs) (auto simp: header_writes_def)

lemma length_content_length_writes:
  "length (conn_resp_body c) < usize_card \<Longrightarrow> length (concat (content_length_writes H c)) \<le> 38"
  using length_usize_string [of "length (conn_resp_body c)"]
  by (simp add: content_length_writes_def)

lemma length_response_writes:
  assumes "reason_laws H" and "length (conn_resp_body c) < usize_card"
  shows "length (concat (response_writes H c ka)) \<le> response_needed H c"
proof -
  have "length (connection_hdr ka) \<le> 24" by (simp add: connection_hdr_def crlf_def)
  with length_status_writes [OF assms(1), of "conn_status c"] length_content_length_writes [OF assms(2), of H]
  show ?thesis
    by (simp add: response_writes_def response_needed_def length_header_writes)
qed

lemma raw_writes_in_bounds:
  "pos + length (concat bs) \<le> length mem \<Longrightarrow>
     \<exists>mem'. raw_writes bs (mem, pos) = Some (mem', pos + length (concat bs)) \<and>
       length mem' = length mem \<and> take (pos + length (concat bs)) mem' = take pos mem @ concat bs"
proof (induction bs arbitrary: mem pos)
  case (Cons b bs)
  let ?m = "splice pos b mem"
  from Cons.prems have fits: "pos + length b \<le> length mem" by simp
  with Cons.prems have "pos + length b + length (concat bs) \<le> length ?m" by simp
  from Cons.IH [OF this] fits show ?case by (auto simp: raw_write_def add.assoc)
qed simp

section \<open>Properties of parsing\<close>

text \<open>C31: A request is reported only when it is complete in the buffer: the number of bytes consumed
  is positive and within the buffer, the body is the slice just before that point, it is within
  the configured limit, and it is empty for GET, HEAD and DELETE.\<close>

theorem parsed_request_in_buffer:
  assumes "httparse_laws P" and "try_parse_request H P buf body_limit peer = Ok (Some pr)"
  shows "0 < pr_bytes_consumed pr \<and> pr_bytes_consumed pr \<le> length buf
       \<and> length (conn_body (pr_conn pr)) \<le> body_limit
       \<and> conn_body (pr_conn pr) =
           slice buf (pr_bytes_consumed pr - length (conn_body (pr_conn pr))) (pr_bytes_consumed pr)
       \<and> (conn_method (pr_conn pr) \<in> {GET, HEAD, DELETE} \<longrightarrow> conn_body (pr_conn pr) = [])"
proof -
  from assms(2) obtain raw hm where r: "parse_raw H P buf = Ok (Some raw)"
      "finalize_body_and_keepalive raw buf body_limit =
         Ok (Some (conn_body (pr_conn pr), pr_keep_alive pr, pr_bytes_consumed pr))"
      "conn_method (pr_conn pr) = raw_method raw"
    unfolding try_parse_request_Some_iff by (auto simp: conn_new_def)
  from parse_raw_header_len [OF assms(1) r(1)] r(2,3) show ?thesis
    by (auto simp: finalize_Some_iff body_length_def slice_def)
qed

text \<open>C13: Parsing into a reused \<open>Conn\<close> is equivalent to parsing into a new one: same errors, same
  partial results (with the \<open>Conn\<close> untouched), same keep-alive, length and upgrade key, and the
  same request except for the runtime handle and the emptied parameter and assign maps.\<close>

theorem try_parse_into_conn_equiv:
  assumes "hm_laws H"
  shows "case try_parse_request H P buf body_limit peer of
       Err e \<Rightarrow> snd (try_parse_into_conn H P c buf body_limit peer) = Err e
     | Ok None \<Rightarrow> try_parse_into_conn H P c buf body_limit peer = (c, Ok None)
     | Ok (Some pr) \<Rightarrow> try_parse_into_conn H P c buf body_limit peer =
         ((pr_conn pr)\<lparr>conn_query_params := map_option (\<lambda>_. Map.empty) (conn_query_params c),
                       conn_assigns := map_option (\<lambda>_. Map.empty) (conn_assigns c),
                       conn_runtime := conn_runtime c\<rparr>,
          Ok (Some \<lparr>pi_keep_alive = pr_keep_alive pr, pi_bytes_consumed = pr_bytes_consumed pr,
                    pi_ws_key = pr_ws_key pr\<rparr>))"
proof -
  have ok: "build_header_map H hs = Ok hm \<Longrightarrow> append_headers H (hm_new H) hs = (hm, Ok ())" for hs hm
    by (simp add: append_headers_build build_header_map_def)
  have err: "build_header_map H hs = Err e \<Longrightarrow> \<exists>hm. append_headers H (hm_new H) hs = (hm, Err e)" for hs e
    by (metis append_headers_build(2) build_header_map_def prod.collapse)
  show ?thesis
    by (auto simp: try_parse_request_def try_parse_into_conn_def conn_reset_def conn_new_def
        hm_laws_simps [OF assms] Let_def ok dest: err
        split: result.splits option.splits prod.splits)
qed


text \<open>A tokenizer and requests to apply the theorems to: four bytes of head, then the body.\<close>

definition demo_request :: "string \<Rightarrow> header list \<Rightarrow> hp_request" where
  "demo_request m hs = \<lparr>hp_method = Some m, hp_path = Some ''/'', hp_version = Some 1, hp_headers = hs\<rparr>"

definition demo_httparse :: "string \<Rightarrow> header list \<Rightarrow> httparse" where
  "demo_httparse m hs buf =
     (if length buf < 4 then (Ok Partial, demo_request m hs) else (Ok (Complete 4), demo_request m hs))"

lemma httparse_laws_demo: "httparse_laws (demo_httparse m hs)"
  by (auto simp: httparse_laws_def demo_httparse_def)

lemma demo_content_length:
  "scan_header (None, None) (''Content-Length'', [50]) = (Some 2, None)"
proof -
  have "str_eq_ignore_ascii_case ''Content-Length'' ''content-length''"
    "\<not> str_eq_ignore_ascii_case ''Content-Length'' ''connection''"
    "from_utf8 [50] = Some ''2''" "trim ''2'' = ''2''" "digit_val (CHR ''2'') = Some 2"
    by code_simp+
  then show ?thesis by (simp add: scan_header_def parse_usize_def)
qed

lemma demo_header_map:
  "build_header_map list_http [(''Content-Length'', [50])] = Ok [(''content-length'', [50])]"
  by code_simp

lemma demo_post:
  "\<exists>pr. try_parse_request list_http (demo_httparse ''POST'' [(''Content-Length'', [50])])
       [1, 2, 3, 4, 5, 6, 7] 10 ''peer'' = Ok (Some pr) \<and>
     conn_body (pr_conn pr) = [5, 6] \<and> pr_bytes_consumed pr = 6"
proof -
  let ?P = "demo_httparse ''POST'' [(''Content-Length'', [50])]"
  let ?raw = "\<lparr>raw_method = POST, raw_uri = \<lparr>uri_path = ''/'', uri_query = None\<rparr>,
     raw_headers = [(''Content-Length'', [50])], raw_content_length = Some 2,
     raw_connection_header = None, raw_http_version = Some 1, raw_header_len = 4\<rparr>"
  have "parse_raw list_http ?P [1, 2, 3, 4, 5, 6, 7] = Ok (Some ?raw)"
    by (simp add: parse_raw_def demo_httparse_def demo_request_def list_http_def demo_content_length Let_def)
  moreover have "finalize_body_and_keepalive ?raw [1, 2, 3, 4, 5, 6, 7] 10 = Ok (Some ([5, 6], True, 6))"
    by (simp add: finalize_Some_iff body_length_def keep_alive_of_def slice_def)
  ultimately show ?thesis
    by (simp add: try_parse_request_def demo_header_map conn_new_def Let_def)
qed

theorem parsed_request_in_buffer_witness:
  "\<exists>pr. try_parse_request list_http (demo_httparse ''POST'' [(''Content-Length'', [50])])
       [1, 2, 3, 4, 5, 6, 7] 10 ''peer'' = Ok (Some pr) \<and>
     0 < pr_bytes_consumed pr \<and> pr_bytes_consumed pr \<le> 7 \<and> length (conn_body (pr_conn pr)) \<le> 10"
proof -
  obtain pr where pr: "try_parse_request list_http (demo_httparse ''POST'' [(''Content-Length'', [50])])
       [1, 2, 3, 4, 5, 6, 7] 10 ''peer'' = Ok (Some pr)"
    using demo_post by blast
  from pr parsed_request_in_buffer [OF httparse_laws_demo pr] show ?thesis by simp
qed

theorem try_parse_into_conn_equiv_witness:
  "try_parse_into_conn list_http (demo_httparse ''GET'' []) (conn_test list_http) [1, 2] 10 ''peer''
     = (conn_test list_http, Ok None)"
proof -
  have "try_parse_request list_http (demo_httparse ''GET'' []) [1, 2] 10 ''peer'' = Ok None"
    by (simp add: try_parse_request_def parse_raw_def demo_httparse_def)
  with try_parse_into_conn_equiv [OF hm_laws_list_http, where P = "demo_httparse ''GET'' []"
      and buf = "[1, 2]" and body_limit = 10 and peer = "''peer''" and c = "conn_test list_http"]
  show ?thesis by simp
qed

text \<open>What the crate documents of \<open>HeaderName::from_bytes\<close>: names are compared without regard
  to case, and a name in lower case is its own normal form.\<close>

definition lower_token :: "string \<Rightarrow> bool" where
  "lower_token s \<longleftrightarrow> s \<noteq> [] \<and> list_all (\<lambda>c. c \<in> set ''abcdefghijklmnopqrstuvwxyz0123456789-'') s"

definition header_name_laws :: "'h http_api \<Rightarrow> bool" where
  "header_name_laws H \<longleftrightarrow>
     (\<forall>a b. eq_ignore_ascii_case a b \<longrightarrow> header_name_from_bytes H a = header_name_from_bytes H b) \<and>
     (\<forall>s. lower_token s \<longrightarrow> header_name_from_bytes H (as_bytes s) = Some s)"

lemma fast_header_name_SomeD:
  "fast_header_name name = Some n \<Longrightarrow> eq_ignore_ascii_case name (as_bytes n) \<and>
     n \<in> {''host'', ''accept'', ''cookie'', ''connection'', ''user-agent'', ''content-type'',
          ''content-length'', ''accept-encoding'', ''accept-language''}"
  by (auto simp: fast_header_name_def split: if_splits)

text \<open>The fast lookup of common header names is only an optimisation: for every header name the
  combined lookup gives what \<open>HeaderName::from_bytes\<close> alone would give.\<close>

theorem fast_header_name_transparent:
  assumes "header_name_laws H"
  shows "header_name H name = header_name_from_bytes H (as_bytes name)"
proof (cases "fast_header_name (as_bytes name)")
  case None
  then show ?thesis by (simp add: header_name_def)
next
  case (Some n)
  from fast_header_name_SomeD [OF this]
  have "eq_ignore_ascii_case (as_bytes name) (as_bytes n)" "header_name_from_bytes H (as_bytes n) = Some n"
    using assms by (auto simp: header_name_laws_def lower_token_def simp del: as_bytes_simps)
  with assms Some show ?thesis unfolding header_name_def header_name_laws_def by auto
qed

lemma to_ascii_lowercase_token:
  "c \<in> set ''abcdefghijklmnopqrstuvwxyz0123456789-'' \<Longrightarrow>
     to_ascii_lowercase (u8_of_char c) = u8_of_char c"
  by (auto simp: to_ascii_lowercase_def u8_of_char_def)

lemma header_name_laws_list_http: "header_name_laws list_http"
proof -
  have "map (char_of_u8 \<circ> to_ascii_lowercase) a = map (char_of_u8 \<circ> to_ascii_lowercase) b"
    if "eq_ignore_ascii_case a b" for a b
    using that by (metis eq_ignore_ascii_case_def map_map)
  moreover have "a = [] \<longleftrightarrow> b = []" if "eq_ignore_ascii_case a b" for a b :: bytes
    using that by (auto dest: eq_ignore_ascii_case_length)
  moreover have "map (char_of_u8 \<circ> to_ascii_lowercase) (as_bytes s) = s"
    if "lower_token s" for s
  proof -
    from that have "list_all (\<lambda>c. to_ascii_lowercase (u8_of_char c) = u8_of_char c) s"
      unfolding lower_token_def by (blast intro: list.pred_mono_strong to_ascii_lowercase_token)
    then show ?thesis by (induction s) auto
  qed
  moreover have "as_bytes s \<noteq> []" if "lower_token s" for s
    using that by (cases s) (simp_all add: lower_token_def)
  ultimately show ?thesis by (auto simp: header_name_laws_def list_http_def lower_ascii_def)
qed

theorem fast_header_name_transparent_witness:
  "header_name list_http ''CoOkIe'' = header_name_from_bytes list_http (as_bytes ''CoOkIe'')"
  by (rule fast_header_name_transparent [OF header_name_laws_list_http])


text \<open>A WebSocket upgrade is detected only for a GET whose headers ask for the \<open>websocket\<close>
  protocol and whose header map has version 13; the key is the trimmed value of a
  \<open>Sec-WebSocket-Key\<close> header of the request.\<close>

theorem ws_upgrade_detected_only_if:
  assumes "detect_ws_key H m hs hm = Some key"
  shows "m = GET
       \<and> (\<exists>h \<in> set hs. str_eq_ignore_ascii_case (fst h) ''upgrade'' \<and>
            (\<exists>v. from_utf8 (snd h) = Some v \<and> str_eq_ignore_ascii_case v ''websocket''))
       \<and> (\<exists>h \<in> set hs. str_eq_ignore_ascii_case (fst h) ''sec-websocket-key'' \<and>
            (\<exists>v. from_utf8 (snd h) = Some v \<and> key = trim v))
       \<and> (\<exists>b v. hm_get H ''sec-websocket-version'' hm = Some b \<and> header_value_to_str H b = Some v \<and>
            trim v = ''13'')"
proof -
  have scan: "(fst (foldl ws_scan s hs) \<longrightarrow> fst s \<or>
        (\<exists>h \<in> set hs. str_eq_ignore_ascii_case (fst h) ''upgrade'' \<and>
            (\<exists>v. from_utf8 (snd h) = Some v \<and> str_eq_ignore_ascii_case v ''websocket''))) \<and>
      (snd (foldl ws_scan s hs) = Some key \<longrightarrow> snd s = Some key \<or>
        (\<exists>h \<in> set hs. str_eq_ignore_ascii_case (fst h) ''sec-websocket-key'' \<and>
            (\<exists>v. from_utf8 (snd h) = Some v \<and> key = trim v)))" for s
  proof (induction hs rule: rev_induct)
    case (snoc h hs)
    then show ?case by (auto simp: ws_scan_def split: option.splits if_splits)
  qed simp
  from assms have "m = GET" "fst (foldl ws_scan (False, None) hs)" "snd (foldl ws_scan (False, None) hs) = Some key"
    "\<exists>b v. hm_get H ''sec-websocket-version'' hm = Some b \<and> header_value_to_str H b = Some v \<and> trim v = ''13''"
    by (auto simp: detect_ws_key_def bind_eq_Some_conv split: if_splits prod.splits option.splits)
  with scan [of "(False, None)"] show ?thesis by simp
qed

lemma demo_upgrade:
  "detect_ws_key list_http GET
     [(''Upgrade'', as_bytes ''WebSocket''), (''Sec-WebSocket-Key'', as_bytes '' abc='')]
     [(''sec-websocket-version'', as_bytes ''13'')] = Some ''abc=''"
  by code_simp

theorem ws_upgrade_detected_only_if_witness:
  "\<exists>b v. hm_get list_http ''sec-websocket-version'' [(''sec-websocket-version'', as_bytes ''13'')] = Some b
     \<and> header_value_to_str list_http b = Some v \<and> trim v = ''13''"
  using ws_upgrade_detected_only_if [OF demo_upgrade] by blast

text \<open>A declared body of a GET, HEAD or DELETE request is not consumed: whatever the
  content-length header says, the parser consumes the head only, so the declared body stays in
  the buffer and is parsed as the next request.\<close>

theorem get_body_left_in_buffer:
  assumes "parse_raw H P buf = Ok (Some raw)" and "raw_method raw \<in> {GET, HEAD, DELETE}"
    and "build_header_map H (raw_headers raw) = Ok hm" and "raw_header_len raw \<le> length buf"
  shows "\<exists>pr. try_parse_request H P buf body_limit peer = Ok (Some pr) \<and>
           pr_bytes_consumed pr = raw_header_len raw \<and> conn_body (pr_conn pr) = []"
proof -
  have "finalize_body_and_keepalive raw buf body_limit =
      Ok (Some ([], keep_alive_of raw, raw_header_len raw))"
    using assms(2,4) by (simp add: finalize_Some_iff body_length_def slice_def)
  with assms(1,3) show ?thesis
    by (simp add: try_parse_request_def conn_new_def Let_def)
qed

theorem get_body_left_in_buffer_witness:
  "\<exists>pr. try_parse_request list_http (demo_httparse ''GET'' [(''Content-Length'', [50])])
       [1, 2, 3, 4, 5, 6] 10 ''peer'' = Ok (Some pr) \<and> pr_bytes_consumed pr = 4"
proof -
  let ?raw = "\<lparr>raw_method = GET, raw_uri = \<lparr>uri_path = ''/'', uri_query = None\<rparr>,
     raw_headers = [(''Content-Length'', [50])], raw_content_length = Some 2,
     raw_connection_header = None, raw_http_version = Some 1, raw_header_len = 4\<rparr>"
  have raw: "parse_raw list_http (demo_httparse ''GET'' [(''Content-Length'', [50])]) [1, 2, 3, 4, 5, 6]
      = Ok (Some ?raw)"
    by (simp add: parse_raw_def demo_httparse_def demo_request_def list_http_def demo_content_length Let_def)
  show ?thesis
    using get_body_left_in_buffer [OF raw, of "[(''content-length'', [50])]" 10 "''peer''"]
    by (auto simp: demo_header_map)
qed

section \<open>Properties of serialization\<close>

text \<open>The response as the protocol has it: status line, the response headers in the map's order, a
  content-length line unless the handler set one, connection, date and server lines, an empty
  line and the body.\<close>

definition status_part :: "'h http_api \<Rightarrow> u16 \<Rightarrow> bytes" where
  "status_part H code =
     (if status_text code \<noteq> [] then as_bytes (status_text code) @ crlf
      else as_bytes ''HTTP/1.1 '' @ status_digits code @ as_bytes '' '' @ as_bytes (reason_text H code) @ crlf)"

definition header_part :: "header list \<Rightarrow> bytes" where
  "header_part hs = concat (map (\<lambda>(name, value). as_bytes name @ as_bytes '': '' @ value @ crlf) hs)"

definition response_bytes :: "'h http_api \<Rightarrow> bytes \<Rightarrow> ('h, 'z) conn_scheme \<Rightarrow> bool \<Rightarrow> bytes" where
  "response_bytes H date c keep_alive =
     status_part H (conn_status c)
     @ header_part (hm_iter H (conn_resp_headers c))
     @ (if ''content-length'' \<in> fst ` set (hm_iter H (conn_resp_headers c)) then []
        else header_part [(''content-length'', as_bytes (nat_to_string (length (conn_resp_body c))))])
     @ header_part [(''connection'', as_bytes (if keep_alive then ''keep-alive'' else ''close''))]
     @ date @ header_part [(''server'', as_bytes ''mahalo'')] @ crlf
     @ (if conn_method c = HEAD then [] else conn_resp_body c)"

lemma response_writes_bytes:
  assumes "hm_laws H"
  shows "concat (response_writes H c ka) @ date @ SERVER_HEADER @ crlf
           @ (if conn_method c \<noteq> HEAD then conn_resp_body c else []) = response_bytes H date c ka"
proof -
  have "concat (status_writes H (conn_status c)) = status_part H (conn_status c)"
    unfolding status_writes_bytes status_part_def status_line_def
    by (simp add: crlf_def u8_of_char_def)
  moreover have "hm_contains_key H ''content-length'' (conn_resp_headers c) \<longleftrightarrow>
      ''content-length'' \<in> fst ` set (hm_iter H (conn_resp_headers c))"
    using hm_get_iter(1) [OF assms] by (auto simp: hm_laws_simps(5) [OF assms])
  ultimately show ?thesis
    by (simp add: response_bytes_def response_writes_def header_writes_bytes header_part_def
        content_length_writes_def connection_hdr_def SERVER_HEADER_def crlf_def)
qed

lemma serialize_response_into_ok:
  assumes "hm_laws H" and "reason_laws H" and "imf_fixdate fmt" and "date_inv fmt sys cdl"
    and "length (conn_resp_body c) < usize_card" and "\<And>m n. n \<le> length (reserve m n)"
  shows "\<exists>cdl'. serialize_response_into H fmt sys now reserve c keep_alive cdl mem =
           Some (cdl', response_bytes H (date_line (fmt (sys (cdl_last_updated cdl')))) c keep_alive) \<and>
           date_inv fmt sys cdl'"
proof -
  let ?ws = "response_writes H c keep_alive"
  let ?mem = "if length mem < response_needed H c then reserve mem (response_needed H c) else mem"
  have "0 + length (concat ?ws) \<le> length ?mem"
    using length_response_writes [OF assms(2,5), of keep_alive] assms(6) [of "response_needed H c" mem]
    by auto
  from raw_writes_in_bounds [OF this] obtain m where
    m: "raw_writes ?ws (?mem, 0) = Some (m, length (concat ?ws))" "take (length (concat ?ws)) m = concat ?ws"
    by auto
  obtain cdl' where "write_date_header fmt sys now cdl (concat ?ws) =
      Some (cdl', concat ?ws @ date_line (fmt (sys (cdl_last_updated cdl'))))" "date_inv fmt sys cdl'"
    using write_date_header_ok [OF assms(3,4)] by blast
  with m response_writes_bytes [OF assms(1), of c keep_alive] show ?thesis
    by (simp add: serialize_response_into_def Let_def del: length_concat)
qed

text \<open>C14: The unsafe response writer never writes outside the memory it reserved, whatever headers,
  body and status the handler set, never panics, and leaves exactly the bytes of a well-formed
  HTTP/1.1 response in the buffer, with the body omitted for HEAD.\<close>

theorem serialize_response_safe:
  assumes "hm_laws H" and "reason_laws H" and "imf_fixdate fmt" and "date_inv fmt sys cdl"
    and "length (conn_resp_body c) < usize_card" and "\<And>m n. n \<le> length (reserve m n)"
  shows "\<exists>cdl'. serialize_response_into H fmt sys now reserve c keep_alive cdl mem =
           Some (cdl', response_bytes H (date_line (fmt (sys (cdl_last_updated cdl')))) c keep_alive) \<and>
           date_inv fmt sys cdl'"
  using assms by (rule serialize_response_into_ok)

lemma reason_laws_list_http: "reason_laws list_http"
  by (simp add: reason_laws_def list_http_def)

theorem serialize_response_safe_witness:
  "\<exists>cdl'. serialize_response_into list_http (\<lambda>_. ''Sun, 06 Nov 1994 08:49:37 GMT'') (\<lambda>t. t) 0
       (\<lambda>m n. replicate n 0) (put_resp_body [104, 105] (conn_test list_http)) True
       \<lparr>cdl_wire = date_line ''Sun, 06 Nov 1994 08:49:37 GMT'', cdl_last_updated = 0\<rparr> [] =
     Some (cdl', response_bytes list_http (date_line ''Sun, 06 Nov 1994 08:49:37 GMT'')
       (put_resp_body [104, 105] (conn_test list_http)) True)"
  using serialize_response_safe [OF hm_laws_list_http reason_laws_list_http,
      of "\<lambda>_. ''Sun, 06 Nov 1994 08:49:37 GMT''" "\<lambda>t. t"
        "\<lparr>cdl_wire = date_line ''Sun, 06 Nov 1994 08:49:37 GMT'', cdl_last_updated = 0\<rparr>"
        "put_resp_body [104, 105] (conn_test list_http)" "\<lambda>m n. replicate n 0"]
  by (fastforce simp: imf_fixdate_def date_inv_def put_resp_body_def)

end
