(* ===== verification/Mahalo_Pipeline.thy ===== *)
theory Mahalo_Pipeline
  imports Mahalo_Conn
begin

text \<open>
  Plugs, pipelines and controllers: \<open>mahalo-core/src/plug.rs\<close>, \<open>pipeline.rs\<close> and
  \<open>controller.rs\<close>. A plug is user code: a record of its asynchronous \<open>call\<close> and its
  synchronous fast path \<open>call_sync\<close>, each a function on \<open>Conn\<close>. The locale
  \<open>plug_contract\<close> is the documented contract between the two; both plug constructors satisfy
  it. The locale \<open>stage\<close> is what every link of request processing promises about halted
  connections. What plugs capture and change besides the connection, the state of an application, is
  the extension \<open>'z\<close> of the connection record.
\<close>

section \<open>Definitions\<close>

record ('h, 'z) plug =
  plug_call :: "('h, 'z) conn_scheme \<Rightarrow> ('h, 'z) conn_scheme"
  plug_call_sync :: "('h, 'z) conn_scheme \<Rightarrow> (('h, 'z) conn_scheme, ('h, 'z) conn_scheme) result"

text \<open>The trait's default \<open>call_sync\<close> gives the connection back.\<close>

definition default_call_sync :: "('h, 'z) conn_scheme \<Rightarrow> (('h, 'z) conn_scheme, ('h, 'z) conn_scheme) result" where
  "default_call_sync c = Err c"

definition plug_fn :: "(('h, 'z) conn_scheme \<Rightarrow> ('h, 'z) conn_scheme) \<Rightarrow> ('h, 'z) plug" where
  "plug_fn f = \<lparr>plug_call = f, plug_call_sync = default_call_sync\<rparr>"

definition sync_plug_fn :: "(('h, 'z) conn_scheme \<Rightarrow> ('h, 'z) conn_scheme) \<Rightarrow> ('h, 'z) plug" where
  "sync_plug_fn f = \<lparr>plug_call = f, plug_call_sync = (\<lambda>c. Ok (f c))\<rparr>"

text \<open>The call protocol: the synchronous path first, then \<open>call(c).await\<close>.\<close>

definition run_plug :: "('h, 'z) plug \<Rightarrow> ('h, 'z) conn_scheme \<Rightarrow> ('h, 'z) conn_scheme" where
  "run_plug p c = (case plug_call_sync p c of Ok c' \<Rightarrow> c' | Err c' \<Rightarrow> plug_call p c')"

text \<open>The loop over plugs with its halt check, shared by \<open>Pipeline::execute\<close> and the after-plugs
  of the endpoint.\<close>

fun run_plugs :: "('h, 'z) plug list \<Rightarrow> ('h, 'z) conn_scheme \<Rightarrow> ('h, 'z) conn_scheme" where
  "run_plugs [] c = c"
| "run_plugs (p # ps) c = (if conn_halted c then c else run_plugs ps (run_plug p c))"

record ('h, 'z) pipeline =
  pl_name :: string
  pl_plugs :: "('h, 'z) plug list"

definition pipeline_new :: "string \<Rightarrow> ('h, 'z) pipeline" where
  "pipeline_new name = \<lparr>pl_name = name, pl_plugs = []\<rparr>"

definition pipeline_plug :: "('h, 'z) plug \<Rightarrow> ('h, 'z) pipeline \<Rightarrow> ('h, 'z) pipeline" where
  "pipeline_plug p pl = pl\<lparr>pl_plugs := pl_plugs pl @ [p]\<rparr>"

definition pipeline_execute :: "('h, 'z) pipeline \<Rightarrow> ('h, 'z) conn_scheme \<Rightarrow> ('h, 'z) conn_scheme" where
  "pipeline_execute pl c = run_plugs (pl_plugs pl) c"

record ('h, 'z) controller =
  ctl_index :: "('h, 'z) conn_scheme \<Rightarrow> ('h, 'z) conn_scheme"
  ctl_show :: "('h, 'z) conn_scheme \<Rightarrow> ('h, 'z) conn_scheme"
  ctl_create :: "('h, 'z) conn_scheme \<Rightarrow> ('h, 'z) conn_scheme"
  ctl_update :: "('h, 'z) conn_scheme \<Rightarrow> ('h, 'z) conn_scheme"
  ctl_delete :: "('h, 'z) conn_scheme \<Rightarrow> ('h, 'z) conn_scheme"

definition default_controller :: "('h, 'z) controller" where
  "default_controller =
     \<lparr>ctl_index = put_status 404, ctl_show = put_status 404, ctl_create = put_status 404,
      ctl_update = put_status 404, ctl_delete = put_status 404\<rparr>"

definition call_action :: "('h, 'z) controller \<Rightarrow> string \<Rightarrow> ('h, 'z) conn_scheme \<Rightarrow> ('h, 'z) conn_scheme" where
  "call_action ctl action c =
     (if action = ''index'' then ctl_index ctl c
      else if action = ''show'' then ctl_show ctl c
      else if action = ''create'' then ctl_create ctl c
      else if action = ''update'' then ctl_update ctl c
      else if action = ''delete'' then ctl_delete ctl c
      else put_status 404 c)"

section \<open>The contract of a plug\<close>

locale plug_contract =
  fixes call :: "('h, 'z) conn_scheme \<Rightarrow> ('h, 'z) conn_scheme"
    and call_sync :: "('h, 'z) conn_scheme \<Rightarrow> (('h, 'z) conn_scheme, ('h, 'z) conn_scheme) result"
  assumes sync_Ok: "call_sync c = Ok c' \<Longrightarrow> c' = call c"
    and sync_Err: "call_sync c = Err c' \<Longrightarrow> c' = c"
begin

text \<open>Under the contract the fast path is not observable.\<close>

lemma run_plug_eq_call: "run_plug \<lparr>plug_call = call, plug_call_sync = call_sync\<rparr> c = call c"
  by (auto simp: run_plug_def dest: sync_Ok sync_Err split: result.splits)

end

interpretation async_plug: plug_contract f default_call_sync for f
  by unfold_locales (simp_all add: default_call_sync_def)

interpretation sync_plug: plug_contract f "\<lambda>c. Ok (f c)" for f
  by unfold_locales simp_all

lemma run_plug_fn [simp]: "run_plug (plug_fn f) = f"
  by (rule ext) (simp add: plug_fn_def async_plug.run_plug_eq_call)

lemma run_sync_plug_fn [simp]: "run_plug (sync_plug_fn f) = f"
  by (rule ext) (simp add: sync_plug_fn_def sync_plug.run_plug_eq_call)

section \<open>Stages\<close>

text \<open>A stage leaves a halted connection as it is. Stages compose.\<close>

locale stage =
  fixes step :: "('h, 'z) conn_scheme \<Rightarrow> ('h, 'z) conn_scheme"
  assumes halted_fixed: "conn_halted c \<Longrightarrow> step c = c"
begin

lemma iterate_halted: "conn_halted c \<Longrightarrow> (step ^^ n) c = c"
  by (induction n) (simp_all add: halted_fixed)

lemma stage_comp:
  assumes "stage g"
  shows "stage (g \<circ> step)"
proof
  fix c :: "('h, 'z) conn_scheme"
  assume h: "conn_halted c"
  from assms h have "g c = c" by (rule stage.halted_fixed)
  with h show "(g \<circ> step) c = c" by (simp add: halted_fixed)
qed

end

interpretation plugs_stage: stage "run_plugs ps" for ps
  by unfold_locales (cases ps; simp)

interpretation pipeline_stage: stage "pipeline_execute pl" for pl
  by unfold_locales (simp add: pipeline_execute_def plugs_stage.halted_fixed)

lemma run_plugs_append: "run_plugs (ps @ qs) c = run_plugs qs (run_plugs ps c)"
  by (induction ps arbitrary: c) (auto simp: plugs_stage.halted_fixed)

lemma run_plugs_prefix:
  "\<exists>n \<le> length ps. run_plugs ps c = fold run_plug (take n ps) c \<and>
     (\<forall>i < n. \<not> conn_halted (fold run_plug (take i ps) c)) \<and>
     (n < length ps \<longrightarrow> conn_halted (fold run_plug (take n ps) c))"
proof (induction ps arbitrary: c)
  case (Cons p ps)
  show ?case
  proof (cases "conn_halted c")
    case True
    then show ?thesis by (intro exI [of _ 0]) simp
  next
    case False
    obtain n where "n \<le> length ps" "run_plugs ps (run_plug p c) = fold run_plug (take n ps) (run_plug p c)"
      "\<forall>i < n. \<not> conn_halted (fold run_plug (take i ps) (run_plug p c))"
      "n < length ps \<longrightarrow> conn_halted (fold run_plug (take n ps) (run_plug p c))"
      using Cons.IH by blast
    with False show ?thesis
      by (intro exI [of _ "Suc n"]) (auto simp: less_Suc_eq_0_disj)
  qed
qed simp

section \<open>Properties\<close>

text \<open>A pipeline runs its plugs in order and stops at the first point where the connection is
  halted: the result is what some initial segment of the plugs computes, the connection is not
  halted before any plug of that segment, and if the segment is not the whole pipeline the
  connection is halted.\<close>

theorem pipeline_execute_halts_early:
  "\<exists>n \<le> length (pl_plugs pl).
     pipeline_execute pl c = fold run_plug (take n (pl_plugs pl)) c \<and>
     (\<forall>i < n. \<not> conn_halted (fold run_plug (take i (pl_plugs pl)) c)) \<and>
     (n < length (pl_plugs pl) \<longrightarrow> conn_halted (pipeline_execute pl c))"
  using run_plugs_prefix [of "pl_plugs pl" c] unfolding pipeline_execute_def by metis

theorem pipeline_execute_halts_early_witness:
  "\<exists>n \<le> 2. pipeline_execute
       \<lparr>pl_name = ''p'', pl_plugs = [sync_plug_fn halt, sync_plug_fn (put_status 500)]\<rparr> (conn_test list_http)
     = fold run_plug (take n [sync_plug_fn halt, sync_plug_fn (put_status 500)]) (conn_test list_http)"
  using pipeline_execute_halts_early
      [of "\<lparr>pl_name = ''p'', pl_plugs = [sync_plug_fn halt, sync_plug_fn (put_status 500)]\<rparr>"
          "conn_test list_http"]
  by (auto simp: numeral_2_eq_2)

text \<open>Whether a plug is registered through the asynchronous or the synchronous constructor makes
  no difference to a pipeline's result, and adding a plug at the end runs it last, on a
  connection that is not halted.\<close>

theorem pipeline_plug_last:
  "pipeline_execute (pipeline_plug (sync_plug_fn f) pl) c = pipeline_execute (pipeline_plug (plug_fn f) pl) c
   \<and> pipeline_execute (pipeline_plug (plug_fn f) pl) c =
       (let c' = pipeline_execute pl c in if conn_halted c' then c' else f c')"
  by (simp add: pipeline_execute_def pipeline_plug_def run_plugs_append)

end
