(* ===== verification/Mahalo_Router.thy ===== *)
theory Mahalo_Router
  imports Mahalo_Pipeline "HOL-Library.Char_ord" "HOL-Library.List_Lexorder" "HOL-Library.AList"
begin

text \<open>
  The router, \<open>mahalo-router/src/router.rs\<close>: route registration (scopes, resources, named
  routes), reverse routing, the lazily compiled per-method matchers and the resolution and
  execution of a request.

  The radix tree of the \<open>matchit\<close> crate is a record of its three operations, an argument of
  the definitions that use it; \<open>matchit_laws\<close> is what its documentation promises. A
  \<open>HashMap\<close> that is iterated is an association list, in whatever order. Registration is a
  state machine: the fields are private, so a router is what the public methods build
  (\<open>mr_built\<close>), and the closure given to \<open>scope\<close> acts on its builder through the
  builder's methods (\<open>sb_steps\<close>).
\<close>

section \<open>Definitions\<close>

datatype ('h, 'z) handler = PlugHandler "('h, 'z) plug" | ControllerHandler "('h, 'z) controller" string

record ('h, 'z) route =
  rt_method :: http_method
  rt_segments :: "string list"
  rt_matchit_path :: string
  rt_handler :: "('h, 'z) handler"
  rt_pipeline_names :: "string list"
  rt_name :: "string option"
  rt_param_keys :: "string list"

definition extract_param_keys :: "string list \<Rightarrow> string list" where
  "extract_param_keys segments = List.map_filter (strip_prefix '':'') segments"

definition parse_segments :: "string \<Rightarrow> string list" where
  "parse_segments path = filter (\<lambda>s. s \<noteq> []) (split_on (CHR ''/'') path)"

text \<open>The loop body of \<open>colon_to_brace\<close>: a separator once something was written, then the
  segment.\<close>

definition brace_segment :: "string \<Rightarrow> string" where
  "brace_segment segment =
     (case strip_prefix '':'' segment of Some param \<Rightarrow> ''{'' @ param @ ''}'' | None \<Rightarrow> segment)"

definition colon_to_brace_step :: "string \<Rightarrow> string \<Rightarrow> string \<Rightarrow> string" where
  "colon_to_brace_step path result segment =
     (let r = (if result \<noteq> [] \<or> starts_with path ''/''
               then (if result \<noteq> [] then result @ ''/'' else result) else result)
      in r @ brace_segment segment)"

definition colon_to_brace :: "string \<Rightarrow> string" where
  "colon_to_brace path =
     (let result = foldl (colon_to_brace_step path) [] (split_on (CHR ''/'') path)
      in if starts_with result ''/'' then result else ''/'' @ result)"

definition normalize_prefix :: "string \<Rightarrow> string" where
  "normalize_prefix prefix =
     (let trimmed = trim_end_matches (CHR ''/'') prefix
      in if starts_with trimmed ''/'' then trimmed else ''/'' @ trimmed)"

definition build_matchit_path :: "string \<Rightarrow> string \<Rightarrow> string" where
  "build_matchit_path prefix path =
     colon_to_brace (if path = ''/'' \<or> path = [] then prefix
                     else if starts_with path ''/'' then prefix @ path
                     else prefix @ ''/'' @ path)"

subsection \<open>Scopes\<close>

record ('h, 'z) scope_builder =
  sb_prefix :: string
  sb_prefix_segments :: "string list"
  sb_pipeline_names :: "string list"
  sb_routes :: "('h, 'z) route list"

definition scope_builder_new :: "string \<Rightarrow> string list \<Rightarrow> string list \<Rightarrow> ('h, 'z) scope_builder" where
  "scope_builder_new prefix prefix_segments pipeline_names =
     \<lparr>sb_prefix = prefix, sb_prefix_segments = prefix_segments,
      sb_pipeline_names = pipeline_names, sb_routes = []\<rparr>"

definition sb_add_route ::
  "http_method \<Rightarrow> string \<Rightarrow> ('h, 'z) handler \<Rightarrow> ('h, 'z) scope_builder \<Rightarrow> ('h, 'z) scope_builder" where
  "sb_add_route m path handler sb =
     (let segments = sb_prefix_segments sb @ parse_segments path
      in sb\<lparr>sb_routes := sb_routes sb @
           [\<lparr>rt_method = m, rt_segments = segments,
             rt_matchit_path = build_matchit_path (sb_prefix sb) path, rt_handler = handler,
             rt_pipeline_names = sb_pipeline_names sb, rt_name = None,
             rt_param_keys = extract_param_keys segments\<rparr>]\<rparr>)"

definition sb_add_named_route ::
  "http_method \<Rightarrow> string \<Rightarrow> string \<Rightarrow> ('h, 'z) handler \<Rightarrow> ('h, 'z) scope_builder \<Rightarrow> ('h, 'z) scope_builder" where
  "sb_add_named_route m path name handler sb =
     (let segments = sb_prefix_segments sb @ parse_segments path
      in sb\<lparr>sb_routes := sb_routes sb @
           [\<lparr>rt_method = m, rt_segments = segments,
             rt_matchit_path = build_matchit_path (sb_prefix sb) path, rt_handler = handler,
             rt_pipeline_names = sb_pipeline_names sb, rt_name = Some name,
             rt_param_keys = extract_param_keys segments\<rparr>]\<rparr>)"

definition sb_get where "sb_get path p = sb_add_route GET path (PlugHandler p)"
definition sb_post where "sb_post path p = sb_add_route POST path (PlugHandler p)"
definition sb_put where "sb_put path p = sb_add_route PUT path (PlugHandler p)"
definition sb_patch where "sb_patch path p = sb_add_route PATCH path (PlugHandler p)"
definition sb_delete where "sb_delete path p = sb_add_route DELETE path (PlugHandler p)"
definition sb_get_named where "sb_get_named path n p = sb_add_named_route GET path n (PlugHandler p)"
definition sb_post_named where "sb_post_named path n p = sb_add_named_route POST path n (PlugHandler p)"
definition sb_put_named where "sb_put_named path n p = sb_add_named_route PUT path n (PlugHandler p)"
definition sb_patch_named where "sb_patch_named path n p = sb_add_named_route PATCH path n (PlugHandler p)"
definition sb_delete_named where "sb_delete_named path n p = sb_add_named_route DELETE path n (PlugHandler p)"

definition sb_resources :: "string \<Rightarrow> ('h, 'z) controller \<Rightarrow> ('h, 'z) scope_builder \<Rightarrow> ('h, 'z) scope_builder" where
  "sb_resources path ctl sb =
     (let with_id = path @ ''/:id'';
          prefix = trim_start_matches (CHR ''/'') path;
          sb1 = sb_add_named_route GET path (prefix @ ''_index'') (ControllerHandler ctl ''index'') sb;
          sb2 = sb_add_named_route GET with_id (prefix @ ''_show'') (ControllerHandler ctl ''show'') sb1;
          sb3 = sb_add_named_route POST path (prefix @ ''_create'') (ControllerHandler ctl ''create'') sb2;
          sb4 = sb_add_named_route PUT with_id (prefix @ ''_update'') (ControllerHandler ctl ''update'') sb3
      in sb_add_named_route DELETE with_id (prefix @ ''_delete'') (ControllerHandler ctl ''delete'') sb4)"

subsection \<open>The router\<close>

record 'r matchit =
  mt_new :: 'r
  mt_insert :: "string \<Rightarrow> nat \<Rightarrow> 'r \<Rightarrow> ('r, string) result"
  mt_at :: "'r \<Rightarrow> string \<Rightarrow> (nat \<times> (string \<times> string) list) option"

record 'r compiled_routers =
  cr_get :: 'r
  cr_post :: 'r
  cr_put :: 'r
  cr_patch :: 'r
  cr_delete :: 'r

fun for_method :: "'r compiled_routers \<Rightarrow> http_method \<Rightarrow> 'r option" where
  "for_method cr GET = Some (cr_get cr)"
| "for_method cr HEAD = Some (cr_get cr)"
| "for_method cr POST = Some (cr_post cr)"
| "for_method cr PUT = Some (cr_put cr)"
| "for_method cr PATCH = Some (cr_patch cr)"
| "for_method cr DELETE = Some (cr_delete cr)"
| "for_method cr _ = None"

record ('h, 'z, 'r) mahalo_router =
  mr_pipelines :: "string \<rightharpoonup> ('h, 'z) pipeline"
  mr_routes :: "('h, 'z) route list"
  mr_name_index :: "(string \<times> nat) list"
  mr_compiled :: "'r compiled_routers option"

definition router_new :: "('h, 'z, 'r) mahalo_router" where
  "router_new = \<lparr>mr_pipelines = Map.empty, mr_routes = [], mr_name_index = [], mr_compiled = None\<rparr>"

definition router_pipeline :: "('h, 'z) pipeline \<Rightarrow> ('h, 'z, 'r) mahalo_router \<Rightarrow> ('h, 'z, 'r) mahalo_router" where
  "router_pipeline p r = r\<lparr>mr_pipelines := (mr_pipelines r)(pl_name p \<mapsto> p)\<rparr>"

text \<open>\<open>for i in start..routes.len()\<close>: the names of the new routes enter the index.\<close>

fun index_names :: "('h, 'z) route list \<Rightarrow> nat \<Rightarrow> (string \<times> nat) list \<Rightarrow> (string \<times> nat) list" where
  "index_names [] i ix = ix"
| "index_names (rt # rts) i ix =
     index_names rts (Suc i) (case rt_name rt of Some n \<Rightarrow> AList.update n i ix | None \<Rightarrow> ix)"

definition router_scope ::
  "string \<Rightarrow> string list \<Rightarrow> (('h, 'z) scope_builder \<Rightarrow> ('h, 'z) scope_builder)
    \<Rightarrow> ('h, 'z, 'r) mahalo_router \<Rightarrow> ('h, 'z, 'r) mahalo_router" where
  "router_scope prefix pipeline_names f r =
     (let builder = f (scope_builder_new (normalize_prefix prefix) (parse_segments prefix) pipeline_names)
      in r\<lparr>mr_routes := mr_routes r @ sb_routes builder,
           mr_name_index := index_names (sb_routes builder) (length (mr_routes r)) (mr_name_index r)\<rparr>)"

definition add_top_level_route ::
  "http_method \<Rightarrow> string \<Rightarrow> ('h, 'z) plug \<Rightarrow> string option \<Rightarrow> ('h, 'z, 'r) mahalo_router \<Rightarrow> ('h, 'z, 'r) mahalo_router" where
  "add_top_level_route m path p name r =
     (let segments = parse_segments path;
          idx = length (mr_routes r)
      in r\<lparr>mr_routes := mr_routes r @
             [\<lparr>rt_method = m, rt_segments = segments, rt_matchit_path = colon_to_brace path,
               rt_handler = PlugHandler p, rt_pipeline_names = [], rt_name = name,
               rt_param_keys = extract_param_keys segments\<rparr>],
           mr_name_index := (case name of Some n \<Rightarrow> AList.update n idx (mr_name_index r)
                             | None \<Rightarrow> mr_name_index r)\<rparr>)"

definition router_get where "router_get path p = add_top_level_route GET path p None"
definition router_post where "router_post path p = add_top_level_route POST path p None"
definition router_put where "router_put path p = add_top_level_route PUT path p None"
definition router_patch where "router_patch path p = add_top_level_route PATCH path p None"
definition router_delete where "router_delete path p = add_top_level_route DELETE path p None"
definition router_get_named where "router_get_named path n p = add_top_level_route GET path p (Some n)"
definition router_post_named where "router_post_named path n p = add_top_level_route POST path p (Some n)"
definition router_put_named where "router_put_named path n p = add_top_level_route PUT path p (Some n)"
definition router_patch_named where "router_patch_named path n p = add_top_level_route PATCH path p (Some n)"
definition router_delete_named where "router_delete_named path n p = add_top_level_route DELETE path p (Some n)"

text \<open>The ways the router can panic.\<close>

datatype router_panic = InsertUnwrap string | RouteIndexOutOfBounds

definition route_at :: "('h, 'z, 'r) mahalo_router \<Rightarrow> nat \<Rightarrow> (('h, 'z) route, router_panic) result" where
  "route_at r i = (if i < length (mr_routes r) then Ok (mr_routes r ! i) else Err RouteIndexOutOfBounds)"

fun fill_segments :: "string list \<Rightarrow> (string \<times> string) list \<Rightarrow> string list option" where
  "fill_segments [] params = Some []"
| "fill_segments (seg # segs) params =
     (case strip_prefix '':'' seg of
        Some param_name \<Rightarrow>
          (case List.find (\<lambda>(k, _). k = param_name) params of
             None \<Rightarrow> None
           | Some (_, v) \<Rightarrow> map_option (\<lambda>parts. v # parts) (fill_segments segs params))
      | None \<Rightarrow> map_option (\<lambda>parts. seg # parts) (fill_segments segs params))"

definition path_for ::
  "('h, 'z, 'r) mahalo_router \<Rightarrow> string \<Rightarrow> (string \<times> string) list \<Rightarrow> (string option, router_panic) result" where
  "path_for r name params =
     (case map_of (mr_name_index r) name of
        None \<Rightarrow> Ok None
      | Some idx \<Rightarrow> result_bind (route_at r idx) (\<lambda>rt.
          Ok (map_option (\<lambda>parts. ''/'' @ join ''/'' parts) (fill_segments (rt_segments rt) params))))"

fun collect_named ::
  "('h, 'z, 'r) mahalo_router \<Rightarrow> (string \<times> nat) list
    \<Rightarrow> ((string \<times> http_method \<times> string) list, router_panic) result" where
  "collect_named r [] = Ok []"
| "collect_named r ((name, idx) # es) =
     result_bind (route_at r idx) (\<lambda>rt.
       result_bind (collect_named r es) (\<lambda>rest.
         Ok ((name, rt_method rt, ''/'' @ join ''/'' (rt_segments rt)) # rest)))"

definition named_routes ::
  "('h, 'z, 'r) mahalo_router \<Rightarrow> ((string \<times> http_method \<times> string) list, router_panic) result" where
  "named_routes r = result_bind (collect_named r (mr_name_index r)) (\<lambda>rs. Ok (sort_key fst rs))"

subsection \<open>Compilation and resolution\<close>

fun set_for_method :: "http_method \<Rightarrow> 'r \<Rightarrow> 'r compiled_routers \<Rightarrow> 'r compiled_routers" where
  "set_for_method GET x cr = cr\<lparr>cr_get := x\<rparr>"
| "set_for_method POST x cr = cr\<lparr>cr_post := x\<rparr>"
| "set_for_method PUT x cr = cr\<lparr>cr_put := x\<rparr>"
| "set_for_method PATCH x cr = cr\<lparr>cr_patch := x\<rparr>"
| "set_for_method DELETE x cr = cr\<lparr>cr_delete := x\<rparr>"
| "set_for_method _ x cr = cr"

text \<open>The methods of the \<open>match\<close> in \<open>compile\<close>; the others \<open>continue\<close>.\<close>

fun compile_loop ::
  "'r matchit \<Rightarrow> ('h, 'z) route list \<Rightarrow> nat \<Rightarrow> 'r compiled_routers \<Rightarrow> ('r compiled_routers, router_panic) result" where
  "compile_loop M [] idx cr = Ok cr"
| "compile_loop M (rt # rts) idx cr =
     (if rt_method rt \<in> {GET, POST, PUT, PATCH, DELETE} then
        (case for_method cr (rt_method rt) of
           None \<Rightarrow> compile_loop M rts (Suc idx) cr
         | Some router \<Rightarrow>
             (case mt_insert M (rt_matchit_path rt) idx router of
                Err e \<Rightarrow> Err (InsertUnwrap e)
              | Ok router' \<Rightarrow> compile_loop M rts (Suc idx) (set_for_method (rt_method rt) router' cr)))
      else compile_loop M rts (Suc idx) cr)"

definition compile :: "'r matchit \<Rightarrow> ('h, 'z, 'r) mahalo_router \<Rightarrow> ('r compiled_routers, router_panic) result" where
  "compile M r =
     compile_loop M (mr_routes r) 0
       \<lparr>cr_get = mt_new M, cr_post = mt_new M, cr_put = mt_new M, cr_patch = mt_new M, cr_delete = mt_new M\<rparr>"

record ('h, 'z) resolved_route =
  rr_path_params :: "(string \<times> bytes) list"
  rr_pipelines :: "('h, 'z) pipeline list"
  rr_handler :: "('h, 'z) handler"

text \<open>\<open>compiled.get_or_init(|| self.compile())\<close>: the cell keeps the first compilation.\<close>

definition get_or_compile ::
  "'r matchit \<Rightarrow> ('h, 'z, 'r) mahalo_router \<Rightarrow> ('r compiled_routers, router_panic) result" where
  "get_or_compile M r = (case mr_compiled r of Some cr \<Rightarrow> Ok cr | None \<Rightarrow> compile M r)"

definition resolve_param :: "('h, 'z) route \<Rightarrow> string \<times> string \<Rightarrow> string \<times> bytes" where
  "resolve_param rt kv =
     (case List.find (\<lambda>pk. pk = fst kv) (rt_param_keys rt) of Some pk \<Rightarrow> pk | None \<Rightarrow> fst kv, as_bytes (snd kv))"

definition resolve ::
  "'r matchit \<Rightarrow> http_method \<Rightarrow> string \<Rightarrow> ('h, 'z, 'r) mahalo_router
    \<Rightarrow> (('h, 'z, 'r) mahalo_router \<times> ('h, 'z) resolved_route option, router_panic) result" where
  "resolve M m path r =
     result_bind (get_or_compile M r) (\<lambda>cr.
       let r' = r\<lparr>mr_compiled := Some cr\<rparr> in
       case for_method cr m of
         None \<Rightarrow> Ok (r', None)
       | Some router \<Rightarrow>
           (case mt_at M router path of
              None \<Rightarrow> Ok (r', None)
            | Some (route_idx, params) \<Rightarrow>
                result_bind (route_at r route_idx) (\<lambda>rt.
                  Ok (r', Some \<lparr>rr_path_params = map (resolve_param rt) params,
                        rr_pipelines = List.map_filter (mr_pipelines r) (rt_pipeline_names rt),
                        rr_handler = rt_handler rt\<rparr>))))"

text \<open>\<open>ResolvedRoute::execute\<close>.\<close>

fun run_pipelines :: "('h, 'z) pipeline list \<Rightarrow> ('h, 'z) conn_scheme \<Rightarrow> ('h, 'z) conn_scheme" where
  "run_pipelines [] c = c"
| "run_pipelines (p # ps) c = (if conn_halted c then c else run_pipelines ps (pipeline_execute p c))"

fun run_handler :: "('h, 'z) handler \<Rightarrow> ('h, 'z) conn_scheme \<Rightarrow> ('h, 'z) conn_scheme" where
  "run_handler (PlugHandler p) c = run_plug p c"
| "run_handler (ControllerHandler ctl action) c = call_action ctl action c"

definition resolved_execute :: "('h, 'z) resolved_route \<Rightarrow> ('h, 'z) conn_scheme \<Rightarrow> ('h, 'z) conn_scheme" where
  "resolved_execute rr c =
     (let c1 = run_pipelines (rr_pipelines rr) (c\<lparr>conn_path_params := rr_path_params rr\<rparr>)
      in if conn_halted c1 then c1 else run_handler (rr_handler rr) c1)"

section \<open>What the public methods build\<close>

inductive sb_steps :: "('h, 'z) scope_builder \<Rightarrow> ('h, 'z) scope_builder \<Rightarrow> bool" where
  sb_refl: "sb_steps sb sb"
| sb_route: "sb_steps sb sb' \<Longrightarrow> sb_steps sb (sb_add_route m path h sb')"
| sb_named: "sb_steps sb sb' \<Longrightarrow> sb_steps sb (sb_add_named_route m path n h sb')"

inductive mr_built :: "'r matchit \<Rightarrow> ('h, 'z, 'r) mahalo_router \<Rightarrow> bool" for M where
  built_new: "mr_built M router_new"
| built_pipeline: "mr_built M r \<Longrightarrow> mr_built M (router_pipeline p r)"
| built_scope: "mr_built M r \<Longrightarrow> (\<forall>sb. sb_steps sb (f sb)) \<Longrightarrow> mr_built M (router_scope prefix names f r)"
| built_route: "mr_built M r \<Longrightarrow> mr_built M (add_top_level_route m path p name r)"
| built_resolve: "mr_built M r \<Longrightarrow> resolve M m path r = Ok (r', x) \<Longrightarrow> mr_built M r'"

lemma sb_steps_resources: "sb_steps sb sb' \<Longrightarrow> sb_steps sb (sb_resources path ctl sb')"
  unfolding sb_resources_def Let_def by (intro sb_named)

section \<open>Patterns and segments\<close>

lemma split_on_append: "split_on c (xs @ c # ys) = split_on c xs @ split_on c ys"
proof (induction xs)
  case (Cons x xs)
  then show ?case by (cases "split_on c xs") (auto split: list.splits)
qed simp

lemma parse_segments_Nil [simp]: "parse_segments [] = []"
  by (simp add: parse_segments_def)

lemma parse_segments_append: "parse_segments (p @ CHR ''/'' # q) = parse_segments p @ parse_segments q"
  by (simp add: parse_segments_def split_on_append)

lemma parse_segments_slash [simp]: "parse_segments (CHR ''/'' # q) = parse_segments q"
  using parse_segments_append [of "[]" q] by simp

lemma parse_segments_plain: "CHR ''/'' \<notin> set p \<Longrightarrow> parse_segments p = (if p = [] then [] else [p])"
  by (simp add: parse_segments_def split_on_none)

lemma parse_segments_mem: "s \<in> set (parse_segments p) \<Longrightarrow> s \<noteq> [] \<and> CHR ''/'' \<notin> set s"
  by (auto simp: parse_segments_def dest: split_on_no_sep)

lemma brace_segment_Nil_iff [simp]: "brace_segment s = [] \<longleftrightarrow> s = []"
  by (auto simp: brace_segment_def split: option.splits)

lemma brace_segment_empty [simp]: "brace_segment [] = []"
  by simp

lemma brace_segment_no_slash: "CHR ''/'' \<notin> set s \<Longrightarrow> CHR ''/'' \<notin> set (brace_segment s)"
  by (auto simp: brace_segment_def strip_prefix_Some_iff split: option.splits)

lemma parse_segments_step:
  assumes "CHR ''/'' \<notin> set seg"
  shows "parse_segments (colon_to_brace_step path r seg)
    = parse_segments r @ (if seg = [] then [] else [brace_segment seg])"
  using parse_segments_plain [OF brace_segment_no_slash [OF assms]]
  by (simp add: colon_to_brace_step_def parse_segments_append)

lemma parse_segments_foldl:
  "\<forall>s \<in> set segs. CHR ''/'' \<notin> set s \<Longrightarrow>
     parse_segments (foldl (colon_to_brace_step path) r segs)
     = parse_segments r @ map brace_segment (filter (\<lambda>s. s \<noteq> []) segs)"
  by (induction segs arbitrary: r) (simp_all add: parse_segments_step)

lemma parse_segments_colon_to_brace:
  "parse_segments (colon_to_brace path) = map brace_segment (parse_segments path)"
proof -
  have "\<forall>s \<in> set (split_on (CHR ''/'') path). CHR ''/'' \<notin> set s"
    using split_on_no_sep by metis
  from parse_segments_foldl [OF this, of path "[]"] show ?thesis
    by (simp add: colon_to_brace_def Let_def parse_segments_def [of path])
qed

lemma colon_to_brace_slash: "starts_with (colon_to_brace path) ''/''"
  by (simp add: colon_to_brace_def Let_def starts_with_iff)

lemma parse_segments_slashes: "parse_segments (p @ replicate n (CHR ''/'')) = parse_segments p"
proof (induction n arbitrary: p)
  case (Suc n)
  from Suc.IH [of "[]"] show ?case by (simp add: parse_segments_append)
qed simp

lemma dropWhile_rev_replicate: "\<exists>n. s = rev (dropWhile (\<lambda>x. x = c) (rev s)) @ replicate n c"
proof -
  have "s = rev (dropWhile (\<lambda>x. x = c) (rev s)) @ rev (takeWhile (\<lambda>x. x = c) (rev s))"
    by (metis rev_append rev_rev_ident takeWhile_dropWhile_id)
  moreover have "takeWhile (\<lambda>x. x = c) (rev s) = replicate (length (takeWhile (\<lambda>x. x = c) (rev s))) c"
    by (rule replicate_eqI) (auto dest: set_takeWhileD)
  ultimately show ?thesis by (metis rev_replicate)
qed

lemma parse_segments_trim_end: "parse_segments (trim_end_matches (CHR ''/'') p) = parse_segments p"
  using dropWhile_rev_replicate [of p "CHR ''/''"]
  by (metis parse_segments_slashes trim_end_matches_def)

lemma parse_segments_normalize_prefix: "parse_segments (normalize_prefix p) = parse_segments p"
  by (simp add: normalize_prefix_def Let_def parse_segments_trim_end)

lemma parse_segments_build_matchit_path:
  "parse_segments (build_matchit_path prefix path) =
     map brace_segment (parse_segments prefix @ parse_segments path)"
  unfolding build_matchit_path_def parse_segments_colon_to_brace
  by (auto simp: starts_with_iff parse_segments_append)

section \<open>The invariant of registration\<close>

definition route_ok :: "('h, 'z) route \<Rightarrow> bool" where
  "route_ok rt \<longleftrightarrow>
     parse_segments (rt_matchit_path rt) = map brace_segment (rt_segments rt) \<and>
     starts_with (rt_matchit_path rt) ''/'' \<and>
     (\<forall>s \<in> set (rt_segments rt). s \<noteq> [] \<and> CHR ''/'' \<notin> set s) \<and>
     rt_param_keys rt = extract_param_keys (rt_segments rt)"

definition sb_ok :: "('h, 'z) scope_builder \<Rightarrow> bool" where
  "sb_ok sb \<longleftrightarrow> sb_prefix_segments sb = parse_segments (sb_prefix sb) \<and> (\<forall>rt \<in> set (sb_routes sb). route_ok rt)"

text \<open>The index sends a name to the last route registered under it.\<close>

definition names_ok :: "('h, 'z) route list \<Rightarrow> (string \<times> nat) list \<Rightarrow> bool" where
  "names_ok rts ix \<longleftrightarrow> distinct (map fst ix) \<and>
     (\<forall>n i. map_of ix n = Some i \<longleftrightarrow>
        i < length rts \<and> rt_name (rts ! i) = Some n \<and> (\<forall>j. i < j \<and> j < length rts \<longrightarrow> rt_name (rts ! j) \<noteq> Some n))"

lemma build_matchit_path_slash: "starts_with (build_matchit_path prefix path) ''/''"
  by (simp add: build_matchit_path_def colon_to_brace_slash)

lemma sb_ok_add_route: "sb_ok sb \<Longrightarrow> sb_ok (sb_add_route m path h sb)"
  by (auto simp: sb_ok_def sb_add_route_def Let_def route_ok_def parse_segments_build_matchit_path
      build_matchit_path_slash dest: parse_segments_mem)

lemma sb_ok_add_named_route: "sb_ok sb \<Longrightarrow> sb_ok (sb_add_named_route m path n h sb)"
  by (auto simp: sb_ok_def sb_add_named_route_def Let_def route_ok_def parse_segments_build_matchit_path
      build_matchit_path_slash dest: parse_segments_mem)

lemma sb_ok_steps: "sb_steps sb sb' \<Longrightarrow> sb_ok sb \<Longrightarrow> sb_ok sb'"
  by (induction rule: sb_steps.induct) (simp_all add: sb_ok_add_route sb_ok_add_named_route)

lemma names_ok_snoc:
  assumes "names_ok rts ix"
  shows "names_ok (rts @ [rt]) (case rt_name rt of Some n \<Rightarrow> AList.update n (length rts) ix | None \<Rightarrow> ix)"
  using assms unfolding names_ok_def
  by (auto simp: nth_append less_Suc_eq update_conv distinct_update simp del: map_of_eq_Some_iff
      split: option.splits)

lemma names_ok_index_names:
  "names_ok rts ix \<Longrightarrow> names_ok (rts @ new) (index_names new (length rts) ix)"
proof (induction new arbitrary: rts ix)
  case (Cons rt new)
  from Cons.IH [OF names_ok_snoc [OF Cons.prems, of rt]] show ?case by simp
qed simp

section \<open>The matcher's contract\<close>

text \<open>\<open>{name}\<close> segments; a plain pattern has only those and literal segments.\<close>

definition brace_name :: "string \<Rightarrow> string option" where
  "brace_name seg =
     (case strip_prefix ''{'' seg of
        Some rest \<Rightarrow> if ends_with rest ''}'' then Some (butlast rest) else None
      | None \<Rightarrow> None)"

definition literal_segment :: "string \<Rightarrow> bool" where
  "literal_segment seg \<longleftrightarrow> CHR ''{'' \<notin> set seg \<and> CHR ''}'' \<notin> set seg"

definition plain_segment :: "string \<Rightarrow> bool" where
  "plain_segment seg \<longleftrightarrow>
     (case brace_name seg of
        Some name \<Rightarrow> name \<noteq> [] \<and> literal_segment name \<and> \<not> starts_with name ''*''
      | None \<Rightarrow> literal_segment seg)"

fun match_segments :: "string list \<Rightarrow> string list \<Rightarrow> (string \<times> string) list option" where
  "match_segments [] [] = Some []"
| "match_segments (p # ps) (s # ss) =
     (case brace_name p of
        Some name \<Rightarrow> if s = [] then None else map_option ((#) (name, s)) (match_segments ps ss)
      | None \<Rightarrow> if p = s then match_segments ps ss else None)"
| "match_segments _ _ = None"

abbreviation (input) slash_split :: "string \<Rightarrow> string list" where
  "slash_split \<equiv> split_on (CHR ''/'')"

fun mt_inserts :: "'r matchit \<Rightarrow> (string \<times> nat) list \<Rightarrow> 'r \<Rightarrow> ('r, string) result" where
  "mt_inserts M [] x = Ok x"
| "mt_inserts M ((pat, v) # es) x = result_bind (mt_insert M pat v x) (mt_inserts M es)"

text \<open>What \<open>matchit\<close> documents: a match is one of the inserted routes, whose pattern matches
  the path with the reported parameters, and a route without parameters has priority.\<close>

definition matchit_laws :: "'r matchit \<Rightarrow> bool" where
  "matchit_laws M \<longleftrightarrow>
     (\<forall>es x. mt_inserts M es (mt_new M) = Ok x \<longrightarrow>
        (\<forall>path v ps. mt_at M x path = Some (v, ps) \<longrightarrow>
           (\<exists>pat. (pat, v) \<in> set es \<and>
              (list_all plain_segment (slash_split pat) \<longrightarrow>
                 match_segments (slash_split pat) (slash_split path) = Some ps))) \<and>
        (\<forall>pat v. (pat, v) \<in> set es \<and> literal_segment pat \<longrightarrow> mt_at M x pat = Some (v, [])))"

definition method_entries :: "http_method \<Rightarrow> nat \<Rightarrow> ('h, 'z) route list \<Rightarrow> (string \<times> nat) list" where
  "method_entries m idx rts =
     map (\<lambda>(i, rt). (rt_matchit_path rt, i)) (filter (\<lambda>(i, rt). rt_method rt = m) (List.enumerate idx rts))"

abbreviation (input) routed_methods :: "http_method set" where
  "routed_methods \<equiv> {GET, POST, PUT, PATCH, DELETE}"

abbreviation (input) empty_routers :: "'r matchit \<Rightarrow> 'r compiled_routers" where
  "empty_routers M \<equiv> \<lparr>cr_get = mt_new M, cr_post = mt_new M, cr_put = mt_new M, cr_patch = mt_new M, cr_delete = mt_new M\<rparr>"

lemma for_method_set:
  "m \<in> routed_methods \<Longrightarrow> m' \<in> routed_methods \<Longrightarrow>
     for_method (set_for_method m x cr) m' = (if m' = m then Some x else for_method cr m')"
  by auto

lemma method_entries_Cons:
  "method_entries m idx (rt # rts) =
     (if rt_method rt = m then [(rt_matchit_path rt, idx)] else []) @ method_entries m (Suc idx) rts"
  by (simp add: method_entries_def)

lemma for_method_routed: "m \<in> routed_methods \<Longrightarrow> \<exists>x. for_method cr m = Some x"
  by auto

text \<open>The matcher of a method holds that method's routes, in registration order.\<close>

lemma compile_loop_inserts:
  "compile_loop M rts idx cr = Ok cr' \<Longrightarrow> m \<in> routed_methods \<Longrightarrow> for_method cr m = Some x \<Longrightarrow>
     \<exists>x'. for_method cr' m = Some x' \<and> mt_inserts M (method_entries m idx rts) x = Ok x'"
proof (induction rts arbitrary: idx cr x)
  case Nil
  then show ?case by (simp add: method_entries_def)
next
  case (Cons rt rts)
  let ?rm = "rt_method rt"
  show ?case
  proof (cases "?rm \<in> routed_methods")
    case False
    then have "compile_loop M rts (Suc idx) cr = Ok cr'" using Cons.prems(1) by simp
    moreover have "?rm \<noteq> m" using False Cons.prems(2) by auto
    ultimately show ?thesis using Cons.IH Cons.prems by (simp add: method_entries_Cons)
  next
    case True
    obtain y where y: "for_method cr ?rm = Some y" using for_method_routed [OF True, of cr] by (elim exE)
    have "(case mt_insert M (rt_matchit_path rt) idx y of Err e \<Rightarrow> Err (InsertUnwrap e)
       | Ok y' \<Rightarrow> compile_loop M rts (Suc idx) (set_for_method ?rm y' cr)) = Ok cr'"
      using Cons.prems(1) by (simp only: compile_loop.simps True if_True y option.case)
    then obtain y' where y': "mt_insert M (rt_matchit_path rt) idx y = Ok y'"
      and rest: "compile_loop M rts (Suc idx) (set_for_method ?rm y' cr) = Ok cr'"
      by (cases "mt_insert M (rt_matchit_path rt) idx y") simp_all
    have "for_method (set_for_method ?rm y' cr) m = Some (if m = ?rm then y' else x)"
      using for_method_set [OF True Cons.prems(2), where x = y' and cr = cr] Cons.prems(3) by simp
    from Cons.IH [OF rest Cons.prems(2) this] y y' Cons.prems(3) show ?thesis
      by (auto simp: method_entries_Cons)
  qed
qed

lemma method_entries_mem:
  "(pat, v) \<in> set (method_entries m 0 rts) \<longleftrightarrow>
     v < length rts \<and> rt_method (rts ! v) = m \<and> pat = rt_matchit_path (rts ! v)"
  by (force simp: method_entries_def enumerate_eq_zip in_set_zip)

section \<open>Routers\<close>

definition router_ok :: "'r matchit \<Rightarrow> ('h, 'z, 'r) mahalo_router \<Rightarrow> bool" where
  "router_ok M r \<longleftrightarrow>
     (\<forall>rt \<in> set (mr_routes r). route_ok rt) \<and> names_ok (mr_routes r) (mr_name_index r) \<and>
     (\<forall>cr. mr_compiled r = Some cr \<longrightarrow>
        (\<exists>k \<le> length (mr_routes r). compile_loop M (take k (mr_routes r)) 0 (empty_routers M) = Ok cr))"

lemma router_ok_compiled:
  assumes "router_ok M r" and "get_or_compile M r = Ok cr"
  shows "\<exists>k \<le> length (mr_routes r). compile_loop M (take k (mr_routes r)) 0 (empty_routers M) = Ok cr"
  using assms unfolding router_ok_def get_or_compile_def compile_def
  by (auto split: option.splits)

lemma resolve_router:
  "resolve M m path r = Ok (r', x) \<Longrightarrow> \<exists>cr. get_or_compile M r = Ok cr \<and> r' = r\<lparr>mr_compiled := Some cr\<rparr>"
  by (auto simp: resolve_def Let_def split: option.splits prod.splits)

lemma router_ok_extend:
  assumes "router_ok M r" and "\<forall>rt \<in> set new. route_ok rt" and "names_ok (mr_routes r @ new) ix"
  shows "router_ok M (r\<lparr>mr_routes := mr_routes r @ new, mr_name_index := ix\<rparr>)"
proof -
  have "\<exists>k \<le> length (mr_routes r @ new). compile_loop M (take k (mr_routes r @ new)) 0 (empty_routers M) = Ok cr"
    if cr: "mr_compiled r = Some cr" for cr
  proof -
    obtain k where "k \<le> length (mr_routes r)" "compile_loop M (take k (mr_routes r)) 0 (empty_routers M) = Ok cr"
      using assms(1) cr by (auto simp: router_ok_def)
    then show ?thesis by (intro exI [of _ k]) simp
  qed
  with assms show ?thesis unfolding router_ok_def by auto
qed

lemma router_ok_built: "mr_built M r \<Longrightarrow> router_ok M r"
proof (induction rule: mr_built.induct)
  case built_new
  then show ?case by (simp add: router_ok_def router_new_def names_ok_def)
next
  case (built_pipeline r p)
  then show ?case by (simp add: router_ok_def router_pipeline_def)
next
  case (built_scope r f prefix names)
  define sb where "sb = f (scope_builder_new (normalize_prefix prefix) (parse_segments prefix) names)"
  have "sb_ok sb"
    unfolding sb_def using built_scope(2)
    by (intro sb_ok_steps [OF built_scope(2) [rule_format]])
      (simp add: sb_ok_def scope_builder_new_def parse_segments_normalize_prefix)
  then show ?case
    using router_ok_extend [OF built_scope(3)] names_ok_index_names [of "mr_routes r" "mr_name_index r" "sb_routes sb"]
      built_scope(3)
    by (simp add: router_scope_def Let_def sb_def [symmetric] sb_ok_def router_ok_def [of M r])
next
  case (built_route r m path p name)
  let ?rt = "\<lparr>rt_method = m, rt_segments = parse_segments path, rt_matchit_path = colon_to_brace path,
      rt_handler = PlugHandler p, rt_pipeline_names = [], rt_name = name,
      rt_param_keys = extract_param_keys (parse_segments path)\<rparr>"
  have "route_ok ?rt"
    by (auto simp: route_ok_def parse_segments_colon_to_brace colon_to_brace_slash dest: parse_segments_mem)
  then show ?case
    using router_ok_extend [OF built_route(2), of "[?rt]"] names_ok_snoc [of "mr_routes r" "mr_name_index r" ?rt]
      built_route(2)
    by (simp add: add_top_level_route_def Let_def router_ok_def [of M r])
next
  case (built_resolve r m path r' x)
  then obtain cr where cr: "get_or_compile M r = Ok cr" and r': "r' = r\<lparr>mr_compiled := Some cr\<rparr>"
    using resolve_router [OF built_resolve(2)] by (elim exE conjE)
  from router_ok_compiled [OF built_resolve(3) cr] built_resolve(3) show ?case
    by (simp add: r' router_ok_def)
qed

lemmas built_routes_ok = router_ok_built [unfolded router_ok_def, THEN conjunct1, rule_format]
  and built_names_ok = router_ok_built [unfolded router_ok_def, THEN conjunct2, THEN conjunct1]

subsection \<open>Named routes\<close>

text \<open>The specification of the index: the last route registered under the name.\<close>

definition named_route :: "('h, 'z, 'r) mahalo_router \<Rightarrow> string \<Rightarrow> ('h, 'z) route option" where
  "named_route r n = List.find (\<lambda>rt. rt_name rt = Some n) (rev (mr_routes r))"

lemma find_rev_Some_iff:
  "List.find P (rev xs) = Some x \<longleftrightarrow>
     (\<exists>i < length xs. P (xs ! i) \<and> x = xs ! i \<and> (\<forall>j. i < j \<and> j < length xs \<longrightarrow> \<not> P (xs ! j)))"
proof (induction xs rule: rev_induct)
  case (snoc y xs)
  then show ?case
    by (cases "P y") (auto simp: nth_append less_Suc_eq intro: exI [of _ "length xs"])
qed simp

lemma names_ok_named:
  assumes "names_ok (mr_routes r) (mr_name_index r)"
  shows "named_route r n = map_option (\<lambda>i. mr_routes r ! i) (map_of (mr_name_index r) n)"
proof (cases "map_of (mr_name_index r) n")
  case None
  have "named_route r n \<noteq> Some x" for x
    using assms None unfolding named_route_def find_rev_Some_iff names_ok_def
    by (metis option.distinct(1))
  then have "named_route r n = None" by (metis option.exhaust)
  with None show ?thesis by simp
next
  case (Some i)
  then have "List.find (\<lambda>rt. rt_name rt = Some n) (rev (mr_routes r)) = Some (mr_routes r ! i)"
    using assms unfolding find_rev_Some_iff names_ok_def by metis
  with Some show ?thesis by (simp add: named_route_def)
qed

lemma names_ok_bound: "names_ok rts ix \<Longrightarrow> map_of ix n = Some i \<Longrightarrow> i < length rts"
  unfolding names_ok_def by blast

lemma path_for_spec:
  assumes "names_ok (mr_routes r) (mr_name_index r)"
  shows "path_for r n params =
    Ok (Option.bind (named_route r n) (\<lambda>rt.
      map_option (\<lambda>parts. ''/'' @ join ''/'' parts) (fill_segments (rt_segments rt) params)))"
  using names_ok_bound [OF assms, of n] names_ok_named [OF assms, of n]
  by (auto simp: path_for_def route_at_def split: option.splits)

lemma collect_named_ok:
  "\<forall>(n, i) \<in> set es. i < length (mr_routes r) \<Longrightarrow>
     collect_named r es = Ok (map (\<lambda>(n, i). (n, rt_method (mr_routes r ! i),
       ''/'' @ join ''/'' (rt_segments (mr_routes r ! i)))) es)"
  by (induction es) (auto simp: route_at_def)

lemma named_routes_spec:
  assumes ok: "names_ok (mr_routes r) (mr_name_index r)"
  shows "\<exists>rs. named_routes r = Ok rs \<and> sorted (map fst rs) \<and> distinct (map fst rs) \<and>
    set rs = {(n, rt_method rt, ''/'' @ join ''/'' (rt_segments rt)) | n rt. named_route r n = Some rt}"
proof -
  let ?f = "\<lambda>(n, i). (n, rt_method (mr_routes r ! i), ''/'' @ join ''/'' (rt_segments (mr_routes r ! i)))"
  let ?rs = "sort_key fst (map ?f (mr_name_index r))"
  have dist: "distinct (map fst (mr_name_index r))" using ok by (simp add: names_ok_def)
  have mem: "(n, i) \<in> set (mr_name_index r) \<longleftrightarrow> map_of (mr_name_index r) n = Some i" for n i
    using dist by simp
  have "\<forall>(n, i) \<in> set (mr_name_index r). i < length (mr_routes r)"
    using names_ok_bound [OF ok] mem by blast
  then have "named_routes r = Ok ?rs" by (simp add: named_routes_def collect_named_ok)
  moreover have "distinct (map fst ?rs)"
  proof -
    have "mset (map fst ?rs) = mset (map fst (mr_name_index r))"
      by (simp add: image_mset.compositionality comp_def case_prod_beta)
    from mset_eq_imp_distinct_iff [OF this] dist show ?thesis by (rule iffD2)
  qed
  moreover have "set ?rs = {(n, rt_method rt, ''/'' @ join ''/'' (rt_segments rt)) | n rt. named_route r n = Some rt}"
    using mem by (force simp: names_ok_named [OF ok])
  ultimately show ?thesis by (intro exI [of _ ?rs]) simp
qed

subsection \<open>Resolution\<close>

lemma match_segments_filter:
  "match_segments ps ss = Some prm \<Longrightarrow>
     match_segments (filter (\<lambda>s. s \<noteq> []) ps) (filter (\<lambda>s. s \<noteq> []) ss) = Some prm"
proof (induction ps ss arbitrary: prm rule: match_segments.induct)
  case (2 p ps s ss)
  have "brace_name [] = None" by (simp add: brace_name_def)
  with 2 show ?case by (auto split: option.splits if_splits)
qed auto

definition plain_route_segment :: "string \<Rightarrow> bool" where
  "plain_route_segment seg \<longleftrightarrow> plain_segment (brace_segment seg) \<and>
     (strip_prefix '':'' seg = None \<longrightarrow> literal_segment seg)"

lemma brace_name_brace_segment:
  "plain_route_segment seg \<Longrightarrow> brace_name (brace_segment seg) = strip_prefix '':'' seg"
  by (auto simp: plain_route_segment_def brace_name_def brace_segment_def ends_with_iff literal_segment_def
      strip_prefix_Some_iff butlast_append split: option.splits)

lemma match_segments_keys:
  "match_segments (map brace_segment segs) ss = Some prm \<Longrightarrow> list_all plain_route_segment segs \<Longrightarrow>
     map fst prm = extract_param_keys segs"
proof (induction segs arbitrary: ss prm)
  case Nil
  then show ?case by (cases ss) (simp_all add: extract_param_keys_def List.map_filter_def)
next
  case (Cons seg segs)
  then show ?case
    by (cases ss; cases "strip_prefix '':'' seg")
      (auto simp: brace_name_brace_segment extract_param_keys_def List.map_filter_def split: if_splits)
qed

lemma match_segments_fill:
  "match_segments (map brace_segment segs) ss = Some prm \<Longrightarrow> list_all plain_route_segment segs \<Longrightarrow>
     \<forall>(k, v) \<in> set prm. List.find (\<lambda>(k', _). k' = k) params = Some (k, v) \<Longrightarrow>
     fill_segments segs params = Some ss"
proof (induction segs arbitrary: ss prm)
  case Nil
  then show ?case by (cases ss) simp_all
next
  case (Cons seg segs)
  from Cons.prems(2) have plain: "brace_name (brace_segment seg) = strip_prefix '':'' seg"
    by (simp add: brace_name_brace_segment)
  show ?case
  proof (cases "strip_prefix '':'' seg")
    case None
    with Cons plain show ?thesis by (cases ss) (auto simp: brace_segment_def split: if_splits)
  next
    case (Some name)
    with Cons plain show ?thesis by (cases ss) (fastforce split: if_splits)+
  qed
qed

lemma find_distinct_key:
  "distinct (map fst prm) \<Longrightarrow> (k, v) \<in> set prm \<Longrightarrow> List.find (\<lambda>(k', _). k' = k) prm = Some (k, v)"
  by (induction prm) (auto simp: image_iff)

text \<open>Where a match comes from: a registered route of the request's method.\<close>

lemma resolve_Some_route:
  assumes laws: "matchit_laws M" and built: "mr_built M r"
    and cr: "get_or_compile M r = Ok cr" and x: "for_method cr m = Some x"
    and hit: "mt_at M x path = Some (i, ps)"
  shows "i < length (mr_routes r) \<and> rt_method (mr_routes r ! i) = (if m = HEAD then GET else m) \<and>
    (list_all plain_segment (slash_split (rt_matchit_path (mr_routes r ! i))) \<longrightarrow>
      match_segments (slash_split (rt_matchit_path (mr_routes r ! i))) (slash_split path) = Some ps)"
proof -
  let ?m = "if m = HEAD then GET else m"
  obtain k where k: "k \<le> length (mr_routes r)"
    "compile_loop M (take k (mr_routes r)) 0 (empty_routers M) = Ok cr"
    using router_ok_compiled [OF router_ok_built [OF built] cr] by blast
  have m: "?m \<in> routed_methods" and x': "for_method cr ?m = Some x"
    using x by (cases m; simp)+
  have "for_method (empty_routers M) ?m = Some (mt_new M)" using m by auto
  from compile_loop_inserts [OF k(2) m this] x'
  have "mt_inserts M (method_entries ?m 0 (take k (mr_routes r))) (mt_new M) = Ok x" by simp
  then obtain pat where pat: "(pat, i) \<in> set (method_entries ?m 0 (take k (mr_routes r)))"
    "list_all plain_segment (slash_split pat) \<longrightarrow> match_segments (slash_split pat) (slash_split path) = Some ps"
    using laws hit unfolding matchit_laws_def by metis
  from pat(1) have i: "i < k" "rt_method (mr_routes r ! i) = ?m" "pat = rt_matchit_path (mr_routes r ! i)"
    by (auto simp: method_entries_mem)
  then show ?thesis using pat(2) k(1) by simp
qed

lemma resolve_param_id: "resolve_param rt kv = (fst kv, as_bytes (snd kv))"
  by (auto simp: resolve_param_def dest: find_Some_mem split: option.splits)

lemma plain_pattern:
  assumes "route_ok rt" and "list_all plain_route_segment (rt_segments rt)"
  shows "list_all plain_segment (slash_split (rt_matchit_path rt))"
proof -
  have "plain_segment []" by (simp add: plain_segment_def brace_name_def literal_segment_def)
  moreover have "plain_segment seg" if "seg \<in> set (slash_split (rt_matchit_path rt))" "seg \<noteq> []" for seg
  proof -
    from that have "seg \<in> set (parse_segments (rt_matchit_path rt))" by (simp add: parse_segments_def)
    then have "seg \<in> set (map brace_segment (rt_segments rt))" using assms(1) by (simp only: route_ok_def)
    with assms(2) show ?thesis by (auto simp: list_all_iff plain_route_segment_def)
  qed
  ultimately show ?thesis by (auto simp: list_all_iff)
qed

lemma route_match_fill:
  assumes ok: "route_ok rt" and plain: "list_all plain_route_segment (rt_segments rt)"
    and match: "match_segments (slash_split (rt_matchit_path rt)) (slash_split path) = Some ps"
  shows "map fst ps = rt_param_keys rt"
    and "distinct (rt_param_keys rt) \<Longrightarrow> fill_segments (rt_segments rt) ps = Some (parse_segments path)"
proof -
  have m: "match_segments (map brace_segment (rt_segments rt)) (parse_segments path) = Some ps"
    using match_segments_filter [OF match] ok by (simp add: route_ok_def parse_segments_def)
  then show keys: "map fst ps = rt_param_keys rt"
    using match_segments_keys [OF m plain] ok by (simp add: route_ok_def)
  assume "distinct (rt_param_keys rt)"
  then have "\<forall>(k, v) \<in> set ps. List.find (\<lambda>(k', _). k' = k) ps = Some (k, v)"
    using find_distinct_key [of ps] keys by auto
  with match_segments_fill [OF m plain] show "fill_segments (rt_segments rt) ps = Some (parse_segments path)"
    by blast
qed

text \<open>The values of the path parameters as strings again.\<close>

definition param_strings :: "(string \<times> bytes) list \<Rightarrow> (string \<times> string) list" where
  "param_strings ps = map (\<lambda>(k, v). (k, map char_of_u8 v)) ps"

lemma param_strings_resolve [simp]: "param_strings (map (resolve_param rt) ps) = ps"
  by (induction ps) (auto simp: param_strings_def resolve_param_id)

lemma resolve_cases:
  assumes "resolve M m path r = Ok (r', Some rr)"
  obtains cr x i ps where "get_or_compile M r = Ok cr" "for_method cr m = Some x" "mt_at M x path = Some (i, ps)"
    "i < length (mr_routes r)" "r' = r\<lparr>mr_compiled := Some cr\<rparr>"
    "rr = \<lparr>rr_path_params = map (resolve_param (mr_routes r ! i)) ps,
           rr_pipelines = List.map_filter (mr_pipelines r) (rt_pipeline_names (mr_routes r ! i)),
           rr_handler = rt_handler (mr_routes r ! i)\<rparr>"
proof -
  from assms obtain cr where cr: "get_or_compile M r = Ok cr"
    by (cases "get_or_compile M r") (simp_all add: resolve_def)
  with assms obtain x where x: "for_method cr m = Some x"
    by (cases "for_method cr m") (simp_all add: resolve_def Let_def)
  with assms cr obtain i ps where hit: "mt_at M x path = Some (i, ps)"
    by (cases "mt_at M x path") (auto simp: resolve_def Let_def)
  have "i < length (mr_routes r)"
    using assms cr x hit by (simp add: resolve_def Let_def route_at_def split: if_splits)
  with assms cr x hit show thesis
    by (intro that [OF cr x hit]) (simp_all add: resolve_def Let_def route_at_def)
qed

lemma resolve_matched:
  assumes "matchit_laws M" and "mr_built M r" and "resolve M m path r = Ok (r', Some rr)"
  obtains rt ps where "rt \<in> set (mr_routes r)" "rt_method rt = (if m = HEAD then GET else m)"
    "rr = \<lparr>rr_path_params = map (resolve_param rt) ps,
           rr_pipelines = List.map_filter (mr_pipelines r) (rt_pipeline_names rt), rr_handler = rt_handler rt\<rparr>"
    "rt_param_keys rt = extract_param_keys (rt_segments rt)"
    "list_all plain_route_segment (rt_segments rt) \<Longrightarrow> map fst ps = rt_param_keys rt"
    "list_all plain_route_segment (rt_segments rt) \<Longrightarrow> distinct (rt_param_keys rt) \<Longrightarrow>
       fill_segments (rt_segments rt) ps = Some (parse_segments path)"
proof -
  obtain cr x i ps where res: "get_or_compile M r = Ok cr" "for_method cr m = Some x"
    "mt_at M x path = Some (i, ps)" "i < length (mr_routes r)" "r' = r\<lparr>mr_compiled := Some cr\<rparr>"
    "rr = \<lparr>rr_path_params = map (resolve_param (mr_routes r ! i)) ps,
           rr_pipelines = List.map_filter (mr_pipelines r) (rt_pipeline_names (mr_routes r ! i)),
           rr_handler = rt_handler (mr_routes r ! i)\<rparr>"
    by (rule resolve_cases [OF assms(3)])
  let ?rt = "mr_routes r ! i"
  note hit = resolve_Some_route [OF assms(1,2) res(1-3)]
  have ok: "route_ok ?rt" using built_routes_ok [OF assms(2)] res(4) by simp
  have match: "match_segments (slash_split (rt_matchit_path ?rt)) (slash_split path) = Some ps"
    if "list_all plain_route_segment (rt_segments ?rt)"
    using hit plain_pattern [OF ok that] by blast
  show thesis
    by (rule that [of ?rt ps])
      (use hit res(4,6) ok route_match_fill [OF ok _ match] in \<open>simp_all add: route_ok_def\<close>)
qed

section \<open>A list implementation of the matcher\<close>

definition list_at :: "(string \<times> nat) list \<Rightarrow> string \<Rightarrow> (nat \<times> (string \<times> string) list) option" where
  "list_at es path =
     (case List.find (\<lambda>(pat, _). literal_segment pat \<and> pat = path) es of
        Some (_, v) \<Rightarrow> Some (v, [])
      | None \<Rightarrow>
          (case List.find (\<lambda>(pat, _). match_segments (slash_split pat) (slash_split path) \<noteq> None) es of
             Some (pat, v) \<Rightarrow>
               map_option (\<lambda>ps. (v, ps)) (match_segments (slash_split pat) (slash_split path))
           | None \<Rightarrow> None))"

definition list_matchit :: "(string \<times> nat) list matchit" where
  "list_matchit =
     \<lparr>mt_new = [],
      mt_insert = (\<lambda>pat v es. if pat \<in> fst ` set es then Err ''conflict'' else Ok (es @ [(pat, v)])),
      mt_at = list_at\<rparr>"

lemma list_inserts:
  "mt_inserts list_matchit es x = Ok y \<Longrightarrow> distinct (map fst x) \<Longrightarrow> y = x @ es \<and> distinct (map fst y)"
proof (induction es arbitrary: x)
  case (Cons e es)
  obtain pat v where e: "e = (pat, v)" by (cases e)
  with Cons.prems have "pat \<notin> fst ` set x" "mt_inserts list_matchit es (x @ [(pat, v)]) = Ok y"
    by (auto simp: list_matchit_def split: if_splits)
  then have "y = (x @ [(pat, v)]) @ es \<and> distinct (map fst y)"
    using Cons.prems(2) by (intro Cons.IH) simp_all
  then show ?case unfolding e append_assoc append.simps .
qed simp

lemma match_segments_literal:
  "\<forall>p \<in> set ps. CHR ''{'' \<notin> set p \<Longrightarrow> match_segments ps ps = Some []"
  by (induction ps) (auto simp: brace_name_def strip_prefix_Some_iff split: option.splits)

lemma split_on_mem: "p \<in> set (split_on c xs) \<Longrightarrow> set p \<subseteq> set xs"
proof (induction xs arbitrary: p)
  case (Cons x xs)
  then show ?case by (cases "split_on c xs") (force split: if_splits)+
qed simp

lemma list_at_sound:
  assumes "list_at es path = Some (v, ps)"
  shows "\<exists>pat. (pat, v) \<in> set es \<and> match_segments (slash_split pat) (slash_split path) = Some ps"
proof (cases "List.find (\<lambda>(pat, _). literal_segment pat \<and> pat = path) es")
  case None
  with assms show ?thesis
    by (auto simp: list_at_def dest: find_Some_mem split: option.splits prod.splits)
next
  case (Some e)
  then have "e \<in> set es \<and> literal_segment (fst e) \<and> fst e = path" by (auto dest: find_Some_mem)
  moreover have "match_segments (slash_split path) (slash_split path) = Some []" if "literal_segment path"
    using that split_on_mem [of _ "CHR ''/''" path]
    by (intro match_segments_literal) (auto simp: literal_segment_def)
  ultimately show ?thesis using Some assms by (cases e) (auto simp: list_at_def)
qed

lemma list_at_literal:
  assumes "distinct (map fst es)" and "(pat, v) \<in> set es" and "literal_segment pat"
  shows "list_at es pat = Some (v, [])"
proof -
  have "List.find (\<lambda>(p, _). literal_segment p \<and> p = pat) es = Some (pat, v)"
    using assms by (induction es) (auto simp: image_iff)
  then show ?thesis by (simp add: list_at_def)
qed

lemma matchit_laws_list: "matchit_laws list_matchit"
proof -
  have "mt_at list_matchit = list_at" "mt_new list_matchit = []" by (simp_all add: list_matchit_def)
  then show ?thesis
    unfolding matchit_laws_def using list_inserts [of _ "[]"] list_at_sound list_at_literal by fastforce
qed

lemma run_pipelines_flat: "run_pipelines ps c = run_plugs (concat (map pl_plugs ps)) c"
  by (induction ps arbitrary: c) (auto simp: run_plugs_append pipeline_execute_def plugs_stage.halted_fixed)

section \<open>Properties\<close>

text \<open>Reverse routing never panics, and builds the path of the route registered last under the name:
  its segments with every parameter segment replaced by the first value given for that parameter,
  or nothing when the name is unknown or a parameter has no value.\<close>

theorem path_for_last_named:
  assumes "mr_built M r"
  shows "path_for r n params =
    Ok (Option.bind (named_route r n) (\<lambda>rt.
      map_option (\<lambda>parts. ''/'' @ join ''/'' parts) (fill_segments (rt_segments rt) params)))"
  by (rule path_for_spec [OF built_names_ok [OF assms]])

definition demo_router :: "((string \<times> bytes) list, unit, (string \<times> nat) list) mahalo_router" where
  "demo_router = router_get_named ''/rooms/:id'' ''room'' (plug_fn (put_status 200))
     (router_get ''/health'' (plug_fn (put_status 204)) router_new)"

lemma demo_router_built: "mr_built list_matchit demo_router"
  unfolding demo_router_def router_get_named_def router_get_def by (intro built_route built_new)

theorem path_for_last_named_witness:
  "path_for demo_router ''room'' [(''id'', ''42'')] = Ok (Some ''/rooms/42'')"
  unfolding path_for_last_named [OF demo_router_built] by code_simp

text \<open>The list of named routes never panics; it is sorted by name without repetition, and holds
  exactly the names of the index, each with the method and pattern of its route, whatever the
  iteration order of the index.\<close>

theorem named_routes_complete:
  assumes "mr_built M r"
  shows "\<exists>rs. named_routes r = Ok rs \<and> sorted (map fst rs) \<and> distinct (map fst rs) \<and>
    set rs = {(n, rt_method rt, ''/'' @ join ''/'' (rt_segments rt)) | n rt. named_route r n = Some rt}"
  by (rule named_routes_spec [OF built_names_ok [OF assms]])

theorem named_routes_complete_witness:
  "\<exists>rs. named_routes demo_router = Ok rs \<and> sorted (map fst rs)"
  using named_routes_complete [OF demo_router_built] by blast

text \<open>C17: A resolved request goes to a registered route of its method (GET for HEAD) and carries that
  route's handler, the registered pipelines it names, in order, and, for a route whose parameter
  names are plain, exactly its parameters.\<close>

theorem resolve_sound:
  assumes "matchit_laws M" and "mr_built M r" and "resolve M m path r = Ok (r', Some rr)"
  shows "\<exists>rt \<in> set (mr_routes r). rt_method rt = (if m = HEAD then GET else m) \<and>
     rr_handler rr = rt_handler rt \<and>
     rr_pipelines rr = List.map_filter (mr_pipelines r) (rt_pipeline_names rt) \<and>
     (list_all plain_route_segment (rt_segments rt) \<longrightarrow>
        map fst (rr_path_params rr) = extract_param_keys (rt_segments rt))"
proof -
  obtain rt ps where "rt \<in> set (mr_routes r)" "rt_method rt = (if m = HEAD then GET else m)"
    "rr = \<lparr>rr_path_params = map (resolve_param rt) ps,
           rr_pipelines = List.map_filter (mr_pipelines r) (rt_pipeline_names rt), rr_handler = rt_handler rt\<rparr>"
    "rt_param_keys rt = extract_param_keys (rt_segments rt)"
    "list_all plain_route_segment (rt_segments rt) \<Longrightarrow> map fst ps = rt_param_keys rt"
    by (rule resolve_matched [OF assms]) blast
  moreover have "map (fst \<circ> resolve_param rt) ps = map fst ps" by (simp add: resolve_param_id)
  ultimately show ?thesis by (intro bexI [of _ rt]) (simp_all del: map_eq_conv)
qed

definition demo_resolved :: "((string \<times> bytes) list, unit) resolved_route" where
  "demo_resolved = \<lparr>rr_path_params = [(''id'', as_bytes ''42'')], rr_pipelines = [],
     rr_handler = PlugHandler (plug_fn (put_status 200))\<rparr>"

lemma demo_resolve:
  "resolve list_matchit HEAD ''/rooms/42'' demo_router =
     Ok (demo_router\<lparr>mr_compiled := Some \<lparr>cr_get = [(''/health'', 0), (''/rooms/{id}'', 1)],
       cr_post = [], cr_put = [], cr_patch = [], cr_delete = []\<rparr>\<rparr>, Some demo_resolved)"
  by (simp add: resolve_def get_or_compile_def compile_def demo_router_def demo_resolved_def
      router_get_named_def router_get_def add_top_level_route_def router_new_def list_matchit_def list_at_def
      colon_to_brace_def colon_to_brace_step_def brace_segment_def starts_with_def literal_segment_def
      brace_name_def ends_with_def route_at_def resolve_param_def List.map_filter_def Let_def
      parse_segments_def extract_param_keys_def)

theorem resolve_sound_witness:
  "\<exists>rt \<in> set (mr_routes demo_router). rt_method rt = GET \<and> rr_handler demo_resolved = rt_handler rt"
  using resolve_sound [OF matchit_laws_list demo_router_built demo_resolve] by auto


text \<open>C16: Reverse routing inverts resolution: when the request path was resolved to the route that a
  name stands for, building the path of that name with the extracted parameters gives the request
  path again (up to repeated and trailing slashes).\<close>

theorem path_for_inverts_resolve:
  assumes "matchit_laws M" and "mr_built M r" and "resolve M m path r = Ok (r', Some rr)"
  shows "\<exists>rt \<in> set (mr_routes r). rt_method rt = (if m = HEAD then GET else m) \<and>
     rr_handler rr = rt_handler rt \<and>
     (\<forall>n. named_route r n = Some rt \<and> list_all plain_route_segment (rt_segments rt) \<and> distinct (rt_param_keys rt)
        \<longrightarrow> path_for r n (param_strings (rr_path_params rr)) = Ok (Some (''/'' @ join ''/'' (parse_segments path))))"
proof -
  obtain rt ps where "rt \<in> set (mr_routes r)" "rt_method rt = (if m = HEAD then GET else m)"
    and rr: "rr = \<lparr>rr_path_params = map (resolve_param rt) ps,
           rr_pipelines = List.map_filter (mr_pipelines r) (rt_pipeline_names rt), rr_handler = rt_handler rt\<rparr>"
    and fill: "list_all plain_route_segment (rt_segments rt) \<Longrightarrow> distinct (rt_param_keys rt) \<Longrightarrow>
       fill_segments (rt_segments rt) ps = Some (parse_segments path)"
    by (rule resolve_matched [OF assms]) blast
  then show ?thesis
    by (intro bexI [of _ rt]) (auto simp: rr path_for_spec [OF built_names_ok [OF assms(2)]])
qed

theorem path_for_inverts_resolve_witness:
  "path_for demo_router ''room'' (param_strings (rr_path_params demo_resolved)) = Ok (Some ''/rooms/42'')"
proof -
  obtain rt where rt: "rt \<in> set (mr_routes demo_router)" "rr_handler demo_resolved = rt_handler rt"
    and inv: "named_route demo_router ''room'' = Some rt \<and> list_all plain_route_segment (rt_segments rt)
      \<and> distinct (rt_param_keys rt) \<longrightarrow>
      path_for demo_router ''room'' (param_strings (rr_path_params demo_resolved)) =
        Ok (Some (''/'' @ join ''/'' (parse_segments ''/rooms/42'')))"
    using path_for_inverts_resolve [OF matchit_laws_list demo_router_built demo_resolve] by blast
  let ?room = "mr_routes demo_router ! 1"
  have set: "mr_routes demo_router = [mr_routes demo_router ! 0, ?room]"
    by (simp add: demo_router_def router_get_named_def router_get_def add_top_level_route_def router_new_def Let_def)
  have "conn_status (put_status 204 (conn_test list_http)) \<noteq> conn_status (put_status 200 (conn_test list_http))"
    by (simp add: put_status_def)
  then have "plug_fn (put_status 200) \<noteq> (plug_fn (put_status 204) :: ((string \<times> bytes) list, unit) plug)"
    by (metis run_plug_fn)
  then have "rr_handler demo_resolved \<noteq> rt_handler (mr_routes demo_router ! 0)"
    by (simp add: demo_resolved_def demo_router_def router_get_named_def router_get_def
        add_top_level_route_def router_new_def Let_def)
  with rt set have "rt = ?room" by (metis empty_iff empty_set set_ConsD)
  moreover have "named_route demo_router ''room'' = Some ?room"
    by (simp add: named_route_def demo_router_def router_get_named_def router_get_def
        add_top_level_route_def router_new_def Let_def)
  moreover have "rt_segments ?room = [''rooms'', '':id''] \<and> rt_param_keys ?room = [''id'']" by code_simp
  moreover have "list_all plain_route_segment [''rooms'', '':id'']" by code_simp
  moreover have "''/'' @ join ''/'' (parse_segments ''/rooms/42'') = ''/rooms/42''" by code_simp
  ultimately show ?thesis using inv by simp
qed

text \<open>C34: Resolution panics only when compiling the routes does, that is when the matcher rejects a
  pattern on the first request; an index that came out of a matcher is always in range, also after
  more routes were registered.\<close>

theorem resolve_panics_only_on_conflict:
  assumes "matchit_laws M" and "mr_built M r" and "resolve M m path r = Err e"
  shows "mr_compiled r = None \<and> compile M r = Err e"
proof (cases "get_or_compile M r")
  case (Err e')
  with assms(3) show ?thesis by (auto simp: resolve_def get_or_compile_def split: option.splits)
next
  case (Ok cr)
  have "i < length (mr_routes r)" if "for_method cr m = Some x" "mt_at M x path = Some (i, ps)" for x i ps
    using resolve_Some_route [OF assms(1,2) Ok that] by simp
  with assms(3) Ok show ?thesis
    by (cases "for_method cr m"; cases "mt_at M (the (for_method cr m)) path")
      (auto simp: resolve_def Let_def route_at_def)
qed

definition conflict_router :: "((string \<times> bytes) list, unit, (string \<times> nat) list) mahalo_router" where
  "conflict_router = router_get ''/a'' (plug_fn halt) (router_get ''/a'' (plug_fn halt) router_new)"

theorem resolve_panics_only_on_conflict_witness:
  "mr_compiled conflict_router = None \<and> compile list_matchit conflict_router = Err (InsertUnwrap ''conflict'')"
proof (rule resolve_panics_only_on_conflict [OF matchit_laws_list, of conflict_router GET "''/a''"])
  show "mr_built list_matchit conflict_router"
    unfolding conflict_router_def router_get_def by (intro built_route built_new)
  show "resolve list_matchit GET ''/a'' conflict_router = Err (InsertUnwrap ''conflict'')"
    by (simp add: resolve_def get_or_compile_def compile_def conflict_router_def router_get_def
      add_top_level_route_def router_new_def list_matchit_def colon_to_brace_def colon_to_brace_step_def
      brace_segment_def starts_with_def Let_def)
qed

text \<open>The compiled matchers are kept from the first resolution: a route registered afterwards is
  never found, and resolution gives what it gave before.\<close>

theorem routes_after_resolve_ignored:
  assumes "resolve M m0 path0 r = Ok (r', res0)" and "mr_built M r" and "matchit_laws M"
    and "resolve M m path r' = Ok (r'', res)"
  shows "\<exists>r3. resolve M m path (add_top_level_route m1 path1 p name r') = Ok (r3, res)"
proof -
  obtain cr where cr: "get_or_compile M r = Ok cr" and r': "r' = r\<lparr>mr_compiled := Some cr\<rparr>"
    using resolve_router [OF assms(1)] by (elim exE conjE)
  have g: "get_or_compile M r' = Ok cr" by (simp add: r' get_or_compile_def)
  have built: "mr_built M r'" by (rule built_resolve [OF assms(2,1)])
  have "i < length (mr_routes r')" if "for_method cr m = Some x" "mt_at M x path = Some (i, ps)" for x i ps
    using resolve_Some_route [OF assms(3) built g that] by simp
  then have bound: "pred_option (\<lambda>x. pred_option (\<lambda>(i, _). i < length (mr_routes r)) (mt_at M x path)) (for_method cr m)"
    by (auto simp: option.pred_set r')
  with assms(4) g show ?thesis
    by (cases "for_method cr m"; cases "mt_at M (the (for_method cr m)) path")
      (auto simp: resolve_def Let_def route_at_def r' get_or_compile_def add_top_level_route_def nth_append)
qed

theorem routes_after_resolve_ignored_witness:
  "\<exists>r0 r1 r3. resolve list_matchit GET ''/new'' r0 = Ok (r1, None) \<and>
     resolve list_matchit GET ''/new'' (router_get ''/new'' (plug_fn halt) r1) =
       Ok (r3, None :: ((string \<times> bytes) list, unit) resolved_route option)"
proof -
  let ?r0 = "router_new :: ((string \<times> bytes) list, unit, (string \<times> nat) list) mahalo_router"
  let ?r1 = "?r0\<lparr>mr_compiled := Some (empty_routers list_matchit)\<rparr>"
  have first: "resolve list_matchit GET ''/new'' ?r0 = Ok (?r1, None)"
    by (simp add: resolve_def get_or_compile_def compile_def router_new_def list_matchit_def list_at_def)
  moreover have "resolve list_matchit GET ''/new'' ?r1 = Ok (?r1, None)"
    by (simp add: resolve_def get_or_compile_def router_new_def list_matchit_def list_at_def)
  ultimately show ?thesis
    using routes_after_resolve_ignored [OF first built_new matchit_laws_list]
    unfolding router_get_def by blast
qed

text \<open>On the first request a route without parameters is found under its own path, whatever
  parameter routes match it too.\<close>

theorem resolve_literal_route:
  assumes "matchit_laws M" and "mr_compiled r = None" and "resolve M m path r = Ok (r', res)"
    and "rt \<in> set (mr_routes r)" and "rt_matchit_path rt = path" and "literal_segment path"
    and "rt_method rt = m" and "m \<in> {GET, POST, PUT, PATCH, DELETE}"
  shows "\<exists>rt' \<in> set (mr_routes r). rt_method rt' = m \<and> rt_matchit_path rt' = path \<and>
     res = Some \<lparr>rr_path_params = [],
       rr_pipelines = List.map_filter (mr_pipelines r) (rt_pipeline_names rt'), rr_handler = rt_handler rt'\<rparr>"
proof -
  obtain cr where cr: "compile M r = Ok cr"
    using resolve_router [OF assms(3)] assms(2) by (auto simp: get_or_compile_def)
  have "for_method (empty_routers M) m = Some (mt_new M)" using assms(8) by auto
  from compile_loop_inserts [OF cr [unfolded compile_def] assms(8) this]
  obtain x where x: "for_method cr m = Some x"
    "mt_inserts M (method_entries m 0 (mr_routes r)) (mt_new M) = Ok x" by blast
  obtain i where i: "i < length (mr_routes r)" "mr_routes r ! i = rt" using assms(4) by (meson in_set_conv_nth)
  then have "(path, i) \<in> set (method_entries m 0 (mr_routes r))"
    using assms(5,7) by (simp add: method_entries_mem)
  then have "mt_at M x path = Some (i, [])"
    using assms(1,6) x(2) unfolding matchit_laws_def by blast
  with assms(2,3) cr x(1) i assms(4,5,7) show ?thesis
    by (auto simp: resolve_def get_or_compile_def Let_def route_at_def)
qed

definition demo_health :: "((string \<times> bytes) list, unit) resolved_route" where
  "demo_health = \<lparr>rr_path_params = [], rr_pipelines = [], rr_handler = PlugHandler (plug_fn (put_status 204))\<rparr>"

lemma demo_resolve_health:
  "resolve list_matchit GET ''/health'' demo_router =
     Ok (demo_router\<lparr>mr_compiled := Some \<lparr>cr_get = [(''/health'', 0), (''/rooms/{id}'', 1)],
       cr_post = [], cr_put = [], cr_patch = [], cr_delete = []\<rparr>\<rparr>, Some demo_health)"
  by (simp add: resolve_def get_or_compile_def compile_def demo_router_def demo_health_def
      router_get_named_def router_get_def add_top_level_route_def router_new_def list_matchit_def list_at_def
      colon_to_brace_def colon_to_brace_step_def brace_segment_def starts_with_def literal_segment_def
      brace_name_def ends_with_def route_at_def resolve_param_def List.map_filter_def Let_def
      parse_segments_def extract_param_keys_def)

theorem resolve_literal_route_witness:
  "\<exists>rt' \<in> set (mr_routes demo_router). rt_method rt' = GET \<and> rt_matchit_path rt' = ''/health'' \<and>
     demo_health = \<lparr>rr_path_params = [],
       rr_pipelines = List.map_filter (mr_pipelines demo_router) (rt_pipeline_names rt'), rr_handler = rt_handler rt'\<rparr>"
proof -
  have "mr_compiled demo_router = None"
    and "\<exists>rt \<in> set (mr_routes demo_router). rt_matchit_path rt = ''/health'' \<and> rt_method rt = GET"
    by (simp_all add: demo_router_def router_get_named_def router_get_def add_top_level_route_def router_new_def
        colon_to_brace_def colon_to_brace_step_def brace_segment_def starts_with_def Let_def)
  moreover have "literal_segment ''/health''" by code_simp
  ultimately show ?thesis
    using resolve_literal_route [OF matchit_laws_list _ demo_resolve_health] by blast
qed

text \<open>Executing a resolved route is one run of plugs: all plugs of the route's pipelines in order,
  then the handler, stopping where the connection is halted; the plugs see the route's path
  parameters.\<close>

theorem resolved_execute_flat:
  "resolved_execute rr c =
     run_plugs (concat (map pl_plugs (rr_pipelines rr)) @ [plug_fn (run_handler (rr_handler rr))])
       (c\<lparr>conn_path_params := rr_path_params rr\<rparr>)"
  by (simp add: resolved_execute_def run_pipelines_flat run_plugs_append Let_def)

text \<open>\<open>resources\<close> adds exactly five named routes, in this order, under the scope's prefix; running
  the handler of each runs the controller's method of that name.\<close>

theorem resources_five_routes:
  "\<exists>rts. sb_routes (sb_resources path ctl sb) = sb_routes sb @ rts \<and>
     map (\<lambda>rt. (rt_method rt, rt_segments rt, the (rt_name rt))) rts =
       (let base = sb_prefix_segments sb @ parse_segments path;
            n = trim_start_matches (CHR ''/'') path
        in [(GET, base, n @ ''_index''), (GET, base @ ['':id''], n @ ''_show''),
            (POST, base, n @ ''_create''), (PUT, base @ ['':id''], n @ ''_update''),
            (DELETE, base @ ['':id''], n @ ''_delete'')]) \<and>
     map (\<lambda>rt. run_handler (rt_handler rt)) rts =
       [ctl_index ctl, ctl_show ctl, ctl_create ctl, ctl_update ctl, ctl_delete ctl]"
proof -
  have "parse_segments (path @ ''/:id'') = parse_segments path @ ['':id'']"
    using parse_segments_append [of path "'':id''"] parse_segments_plain [of "'':id''"] by simp
  then show ?thesis
    by (simp add: sb_resources_def sb_add_named_route_def Let_def fun_eq_iff call_action_def)
qed

end
