(* ===== verification/Mahalo_Endpoint.thy ===== *)
theory Mahalo_Endpoint
  imports Mahalo_Router
begin

text \<open>
  Request dispatch (\<open>mahalo-endpoint/src/handler.rs\<close>), the endpoint and application builders
  (\<open>endpoint.rs\<close>, \<open>application.rs\<close>) and what a worker thread creates from the
  factories (\<open>worker.rs\<close>). Binding a socket, spawning threads and the supervision
  runtime are outside: the result of a bind is an argument. The type \<open>'w\<close> is the WebSocket
  configuration.
\<close>

section \<open>Definitions\<close>

type_synonym ('h, 'z) error_handler = "u16 \<Rightarrow> ('h, 'z) conn_scheme \<Rightarrow> ('h, 'z) conn_scheme"

definition execute_request ::
  "'r matchit \<Rightarrow> ('h, 'z) error_handler option \<Rightarrow> ('h, 'z) plug list \<Rightarrow> ('h, 'z) conn_scheme \<Rightarrow> ('h, 'z, 'r) mahalo_router
    \<Rightarrow> (('h, 'z, 'r) mahalo_router \<times> ('h, 'z) conn_scheme, router_panic) result" where
  "execute_request M error_handler after_plugs c router =
     result_bind (resolve M (conn_method c) (uri_path (conn_uri c)) router) (\<lambda>(router', resolved).
       let c' = (case resolved of
                   Some rr \<Rightarrow> resolved_execute rr c
                 | None \<Rightarrow>
                     (case error_handler of
                        Some handler \<Rightarrow> handler 404 (put_status 404 c)
                      | None \<Rightarrow> put_resp_body (as_bytes ''Not Found'') (put_status 404 c)))
       in Ok (router', run_plugs after_plugs c'))"

definition json_error_handler :: "'h http_api \<Rightarrow> ('h, 'z) error_handler" where
  "json_error_handler H status c =
     (let reason = (case canonical_reason H status of Some r \<Rightarrow> r | None \<Rightarrow> ''Unknown'');
          body = [CHR ''{'', CHR 0x22] @ ''error'' @ [CHR 0x22, CHR '':'', CHR 0x22] @ reason
            @ [CHR 0x22, CHR '','', CHR 0x22] @ ''status'' @ [CHR 0x22, CHR '':'']
            @ nat_to_string (unat status) @ ''}''
      in put_resp_body (as_bytes body) (put_resp_header H ''content-type'' ''application/json'' c))"

definition text_error_handler :: "'h http_api \<Rightarrow> ('h, 'z) error_handler" where
  "text_error_handler H status c =
     (let reason = (case canonical_reason H status of Some r \<Rightarrow> r | None \<Rightarrow> ''Unknown'')
      in put_resp_body (as_bytes (nat_to_string (unat status) @ '' '' @ reason)) c)"

definition DEFAULT_BODY_LIMIT :: nat where "DEFAULT_BODY_LIMIT = 2 * 1024 * 1024"

subsection \<open>The endpoint builder\<close>

record ('h, 'z, 'r, 'w) endpoint =
  ep_router_factory :: "unit \<Rightarrow> ('h, 'z, 'r) mahalo_router"
  ep_addr :: string
  ep_error_handler_factory :: "(unit \<Rightarrow> ('h, 'z) error_handler) option"
  ep_after_plug_factories :: "(unit \<Rightarrow> ('h, 'z) plug) list"
  ep_ws_config_factory :: "(unit \<Rightarrow> 'w) option"
  ep_tls_config :: "nat option"

definition endpoint_new :: "(unit \<Rightarrow> ('h, 'z, 'r) mahalo_router) \<Rightarrow> string \<Rightarrow> ('h, 'z, 'r, 'w) endpoint" where
  "endpoint_new router_factory addr =
     \<lparr>ep_router_factory = router_factory, ep_addr = addr, ep_error_handler_factory = None,
      ep_after_plug_factories = [], ep_ws_config_factory = None, ep_tls_config = None\<rparr>"

definition endpoint_error_handler ::
  "('h, 'z) error_handler \<Rightarrow> ('h, 'z, 'r, 'w) endpoint \<Rightarrow> ('h, 'z, 'r, 'w) endpoint" where
  "endpoint_error_handler handler ep =
     ep\<lparr>ep_error_handler_factory := Some (\<lambda>_ status c. handler status c)\<rparr>"

definition endpoint_channels :: "(unit \<Rightarrow> 'w) \<Rightarrow> ('h, 'z, 'r, 'w) endpoint \<Rightarrow> ('h, 'z, 'r, 'w) endpoint" where
  "endpoint_channels factory ep = ep\<lparr>ep_ws_config_factory := Some factory\<rparr>"

definition endpoint_after :: "(unit \<Rightarrow> ('h, 'z) plug) \<Rightarrow> ('h, 'z, 'r, 'w) endpoint \<Rightarrow> ('h, 'z, 'r, 'w) endpoint" where
  "endpoint_after factory ep = ep\<lparr>ep_after_plug_factories := ep_after_plug_factories ep @ [factory]\<rparr>"

definition endpoint_tls :: "nat \<Rightarrow> ('h, 'z, 'r, 'w) endpoint \<Rightarrow> ('h, 'z, 'r, 'w) endpoint" where
  "endpoint_tls config ep = ep\<lparr>ep_tls_config := Some config\<rparr>"

subsection \<open>Workers\<close>

record ('h, 'z, 'r, 'w) worker =
  wk_id :: nat
  wk_runtime :: nat
  wk_router :: "('h, 'z, 'r) mahalo_router"
  wk_error_handler :: "('h, 'z) error_handler option"
  wk_after_plugs :: "('h, 'z) plug list"
  wk_body_limit :: nat
  wk_ws_config :: "'w option"
  wk_tls :: "nat option"

text \<open>The environment a worker hands to its accept loop; nothing when its bind fails.\<close>

definition run_worker_arc ::
  "(nat \<Rightarrow> string \<Rightarrow> bool) \<Rightarrow> nat \<Rightarrow> string \<Rightarrow> (unit \<Rightarrow> ('h, 'z, 'r) mahalo_router)
    \<Rightarrow> (unit \<Rightarrow> ('h, 'z) error_handler) option \<Rightarrow> (unit \<Rightarrow> ('h, 'z) plug) list \<Rightarrow> nat \<Rightarrow> (unit \<Rightarrow> 'w) option
    \<Rightarrow> nat option \<Rightarrow> ('h, 'z, 'r, 'w) worker option" where
  "run_worker_arc bind_ok worker_id addr router_factory error_handler_factory after_plug_factories
       body_limit ws_config_factory tls_config =
     (if \<not> bind_ok worker_id addr then None
      else Some \<lparr>wk_id = worker_id, wk_runtime = worker_id + 1, wk_router = router_factory (),
        wk_error_handler = map_option (\<lambda>f. f ()) error_handler_factory,
        wk_after_plugs = map (\<lambda>f. f ()) after_plug_factories, wk_body_limit = body_limit,
        wk_ws_config = map_option (\<lambda>f. f ()) ws_config_factory, wk_tls = tls_config\<rparr>)"

text \<open>One worker per core (one when the parallelism is unknown). A thread that cannot be created ends
  the loop with its error; the threads created before keep running.\<close>

fun spawn_loop ::
  "(nat \<Rightarrow> string option) \<Rightarrow> (nat \<Rightarrow> 'k) \<Rightarrow> nat list \<Rightarrow> 'k list \<times> (unit, string) result" where
  "spawn_loop spawn_error run [] = ([], Ok ())"
| "spawn_loop spawn_error run (i # is) =
     (case spawn_error i of
        Some e \<Rightarrow> ([], Err e)
      | None \<Rightarrow> (case spawn_loop spawn_error run is of (ws, res) \<Rightarrow> (run i # ws, res)))"

definition num_workers :: "nat option \<Rightarrow> nat" where
  "num_workers parallelism = (case parallelism of Some n \<Rightarrow> n | None \<Rightarrow> 1)"

text \<open>The core that a worker is pinned to, best effort: \<open>set_ok\<close> is whether the mask takes that number.\<close>

definition setup_cpu_affinity :: "nat option \<Rightarrow> (nat \<Rightarrow> bool) \<Rightarrow> nat \<Rightarrow> nat option" where
  "setup_cpu_affinity parallelism set_ok worker_id =
     (let cpu = worker_id mod num_workers parallelism in if set_ok cpu then Some cpu else None)"

lemma workers_pinned_apart:
  assumes "i < num_workers par" and "j < num_workers par"
    and "setup_cpu_affinity par ok i = Some cpu" and "setup_cpu_affinity par ok j = Some cpu"
  shows "i = j"
  using assms by (auto simp: setup_cpu_affinity_def Let_def split: if_splits)

definition spawn_workers ::
  "(nat \<Rightarrow> string option) \<Rightarrow> (nat \<Rightarrow> string \<Rightarrow> bool) \<Rightarrow> nat option \<Rightarrow> string
    \<Rightarrow> (unit \<Rightarrow> ('h, 'z, 'r) mahalo_router) \<Rightarrow> (unit \<Rightarrow> ('h, 'z) error_handler) option \<Rightarrow> (unit \<Rightarrow> ('h, 'z) plug) list
    \<Rightarrow> nat \<Rightarrow> (unit \<Rightarrow> 'w) option \<Rightarrow> nat option
    \<Rightarrow> ('h, 'z, 'r, 'w) worker option list \<times> (unit, string) result" where
  "spawn_workers spawn_error bind_ok parallelism addr rf ehf apf body_limit wcf tls =
     spawn_loop spawn_error (\<lambda>i. run_worker_arc bind_ok i addr rf ehf apf body_limit wcf tls)
       [0..<num_workers parallelism]"

text \<open>The blocking variant also joins the threads, in order; \<open>panicked i\<close> is what a join of
  thread \<open>i\<close> reports.\<close>

definition start_server ::
  "(nat \<Rightarrow> string option) \<Rightarrow> (nat \<Rightarrow> string option) \<Rightarrow> (nat \<Rightarrow> string \<Rightarrow> bool) \<Rightarrow> nat option \<Rightarrow> string
    \<Rightarrow> (unit \<Rightarrow> ('h, 'z, 'r) mahalo_router) \<Rightarrow> (unit \<Rightarrow> ('h, 'z) error_handler) option \<Rightarrow> (unit \<Rightarrow> ('h, 'z) plug) list
    \<Rightarrow> nat \<Rightarrow> (unit \<Rightarrow> 'w) option \<Rightarrow> nat option
    \<Rightarrow> ('h, 'z, 'r, 'w) worker option list \<times> (unit, string) result" where
  "start_server spawn_error panicked bind_ok parallelism addr rf ehf apf body_limit wcf tls =
     (case spawn_loop spawn_error (\<lambda>i. run_worker_arc bind_ok i addr rf ehf apf body_limit wcf tls)
             [0..<num_workers parallelism] of
        (ws, Err e) \<Rightarrow> (ws, Err e)
      | (ws, Ok _) \<Rightarrow>
          (ws, case List.map_filter panicked [0..<num_workers parallelism] of
                 [] \<Rightarrow> Ok ()
               | e # _ \<Rightarrow> Err (''worker thread panicked: '' @ e)))"

definition endpoint_start ::
  "(nat \<Rightarrow> string option) \<Rightarrow> (nat \<Rightarrow> string option) \<Rightarrow> (nat \<Rightarrow> string \<Rightarrow> bool) \<Rightarrow> nat option
    \<Rightarrow> ('h, 'z, 'r, 'w) endpoint \<Rightarrow> ('h, 'z, 'r, 'w) worker option list \<times> (unit, string) result" where
  "endpoint_start spawn_error panicked bind_ok parallelism ep =
     start_server spawn_error panicked bind_ok parallelism (ep_addr ep) (ep_router_factory ep)
       (ep_error_handler_factory ep) (ep_after_plug_factories ep) DEFAULT_BODY_LIMIT
       (ep_ws_config_factory ep) (ep_tls_config ep)"

text \<open>The supervised child: it parks forever once its workers run.\<close>

datatype child_state = Parked | Abnormal string

definition endpoint_child ::
  "(nat \<Rightarrow> string option) \<Rightarrow> (nat \<Rightarrow> string \<Rightarrow> bool) \<Rightarrow> nat option \<Rightarrow> ('h, 'z, 'r, 'w) endpoint
    \<Rightarrow> ('h, 'z, 'r, 'w) worker option list \<times> child_state" where
  "endpoint_child spawn_error bind_ok parallelism ep =
     (case spawn_workers spawn_error bind_ok parallelism (ep_addr ep) (ep_router_factory ep)
             (ep_error_handler_factory ep) (ep_after_plug_factories ep) DEFAULT_BODY_LIMIT
             (ep_ws_config_factory ep) (ep_tls_config ep) of
        (ws, Ok _) \<Rightarrow> (ws, Parked)
      | (ws, Err e) \<Rightarrow> (ws, Abnormal (''endpoint error: '' @ e)))"

subsection \<open>The application builder\<close>

record ('h, 'z, 'r, 'c) app_builder =
  ab_addr :: "string option"
  ab_router_factory :: "(unit \<Rightarrow> ('h, 'z, 'r) mahalo_router) option"
  ab_channel_router_factory :: "(unit \<Rightarrow> 'c) option"

record ('h, 'z, 'r, 'c) application =
  ap_addr :: string
  ap_router_factory :: "unit \<Rightarrow> ('h, 'z, 'r) mahalo_router"
  ap_channel_router_factory :: "(unit \<Rightarrow> 'c) option"

definition app_builder_default :: "('h, 'z, 'r, 'c) app_builder" where
  "app_builder_default = \<lparr>ab_addr = None, ab_router_factory = None, ab_channel_router_factory = None\<rparr>"

definition app_bind :: "string \<Rightarrow> ('h, 'z, 'r, 'c) app_builder \<Rightarrow> ('h, 'z, 'r, 'c) app_builder" where
  "app_bind addr ab = ab\<lparr>ab_addr := Some addr\<rparr>"

definition app_router ::
  "(unit \<Rightarrow> ('h, 'z, 'r) mahalo_router) \<Rightarrow> ('h, 'z, 'r, 'c) app_builder \<Rightarrow> ('h, 'z, 'r, 'c) app_builder" where
  "app_router factory ab = ab\<lparr>ab_router_factory := Some factory\<rparr>"

definition app_channel_router :: "(unit \<Rightarrow> 'c) \<Rightarrow> ('h, 'z, 'r, 'c) app_builder \<Rightarrow> ('h, 'z, 'r, 'c) app_builder" where
  "app_channel_router factory ab = ab\<lparr>ab_channel_router_factory := Some factory\<rparr>"

text \<open>\<open>build\<close> panics without an address.\<close>

definition app_build :: "('h, 'z, 'r, 'c) app_builder \<Rightarrow> ('h, 'z, 'r, 'c) application option" where
  "app_build ab =
     (case ab_addr ab of
        None \<Rightarrow> None
      | Some addr \<Rightarrow> Some \<lparr>ap_addr = addr,
          ap_router_factory = (case ab_router_factory ab of Some f \<Rightarrow> f | None \<Rightarrow> (\<lambda>_. router_new)),
          ap_channel_router_factory = ab_channel_router_factory ab\<rparr>)"

text \<open>The children of the top-level supervisor, in start order, and the endpoint it wires up. A
  WebSocket configuration is a channel router and the shared PubSub handle.\<close>

definition app_children :: "('h, 'z, 'r, 'c) application \<Rightarrow> string list" where
  "app_children ap =
     [''mahalo_pubsub'']
     @ (case ap_channel_router_factory ap of Some _ \<Rightarrow> [''mahalo_channel_supervisor''] | None \<Rightarrow> [])
     @ [''mahalo_endpoint'']"

definition app_endpoint :: "'p \<Rightarrow> ('h, 'z, 'r, 'c) application \<Rightarrow> ('h, 'z, 'r, 'c \<times> 'p) endpoint" where
  "app_endpoint pubsub ap =
     (let ep = endpoint_new (\<lambda>_. ap_router_factory ap ()) (ap_addr ap)
      in case ap_channel_router_factory ap of
           Some cr_factory \<Rightarrow> endpoint_channels (\<lambda>_. (cr_factory (), pubsub)) ep
         | None \<Rightarrow> ep)"

section \<open>Invariants of a request\<close>

text \<open>What every plug, every handler and the answer to an unknown path keep holds when the after-plugs
  start.\<close>

lemma run_plugs_keep: "(\<And>p c. p \<in> set ps \<Longrightarrow> P c \<Longrightarrow> P (run_plug p c)) \<Longrightarrow> P c \<Longrightarrow> P (run_plugs ps c)"
  by (induction ps arbitrary: c) auto

lemma execute_request_keeps:
  assumes "matchit_laws M" and "mr_built M r" and "execute_request M eh after c r = Ok (r', c')" and "P c"
    and params: "\<And>c ps. P c \<Longrightarrow> P (c\<lparr>conn_path_params := ps\<rparr>)"
    and plugs: "\<And>name pl p c. mr_pipelines r name = Some pl \<Longrightarrow> p \<in> set (pl_plugs pl) \<Longrightarrow> P c \<Longrightarrow> P (run_plug p c)"
    and handlers: "\<And>rt c. rt \<in> set (mr_routes r) \<Longrightarrow> P c \<Longrightarrow> P (run_handler (rt_handler rt) c)"
    and missing: "P (case eh of Some h \<Rightarrow> h 404 (put_status 404 c) | None \<Rightarrow> put_resp_body (as_bytes ''Not Found'') (put_status 404 c))"
  obtains c1 where "P c1" and "c' = run_plugs after c1"
proof -
  obtain resolved where res: "resolve M (conn_method c) (uri_path (conn_uri c)) r = Ok (r', resolved)"
    and c': "c' = run_plugs after (case resolved of Some rr \<Rightarrow> resolved_execute rr c
        | None \<Rightarrow> (case eh of Some h \<Rightarrow> h 404 (put_status 404 c)
            | None \<Rightarrow> put_resp_body (as_bytes ''Not Found'') (put_status 404 c)))"
    using assms(3) by (auto simp: execute_request_def Let_def simp del: run_plugs.simps cong: option.case_cong)
  have "P (resolved_execute rr c)" if rr: "resolved = Some rr" for rr
  proof -
    obtain rt where rt: "rt \<in> set (mr_routes r)" "rr_handler rr = rt_handler rt"
      "rr_pipelines rr = List.map_filter (mr_pipelines r) (rt_pipeline_names rt)"
      by (rule resolve_matched [OF assms(1,2) res [unfolded rr]]) auto
    have "P (run_pipelines (rr_pipelines rr) (c\<lparr>conn_path_params := rr_path_params rr\<rparr>))"
      unfolding run_pipelines_flat rt(3)
      by (rule run_plugs_keep) (auto simp: List.map_filter_def intro: plugs params \<open>P c\<close>)
    then show ?thesis by (simp add: resolved_execute_def Let_def rt(2) handlers [OF rt(1)])
  qed
  with c' missing show ?thesis by (intro that) (auto split: option.splits)
qed

section \<open>Properties\<close>

text \<open>C19: A request that matches a route runs one halting sequence of plugs: those of the route's
  pipelines, the handler, then the endpoint's after-plugs; a request that matches none becomes a
  404 through the error handler (or the default body) and then runs the after-plugs.\<close>

theorem execute_request_flat:
  "execute_request M eh after c router =
     result_bind (resolve M (conn_method c) (uri_path (conn_uri c)) router) (\<lambda>(router', resolved).
       Ok (router',
         case resolved of
           Some rr \<Rightarrow>
             run_plugs (concat (map pl_plugs (rr_pipelines rr)) @ [plug_fn (run_handler (rr_handler rr))] @ after)
               (c\<lparr>conn_path_params := rr_path_params rr\<rparr>)
         | None \<Rightarrow>
             run_plugs after
               (case eh of Some h \<Rightarrow> h 404 (c\<lparr>conn_status := 404\<rparr>)
                | None \<Rightarrow> c\<lparr>conn_status := 404, conn_resp_body := as_bytes ''Not Found''\<rparr>)))"
proof -
  have "resolved_execute rr c =
      run_plugs (concat (map pl_plugs (rr_pipelines rr)) @ [plug_fn (run_handler (rr_handler rr))])
        (c\<lparr>conn_path_params := rr_path_params rr\<rparr>)" for rr
    by (simp add: resolved_execute_def run_pipelines_flat run_plugs_append Let_def)
  then show ?thesis
    by (cases "resolve M (conn_method c) (uri_path (conn_uri c)) router")
      (auto simp: execute_request_def put_status_def put_resp_body_def run_plugs_append plugs_stage.halted_fixed Let_def
        split: option.splits)
qed

lemma spawn_loop_spec:
  "\<exists>n \<le> length is. fst (spawn_loop spawn_error run is) = map run (take n is) \<and>
     (n < length is \<longrightarrow> spawn_error (is ! n) \<noteq> None) \<and> (\<forall>j < n. spawn_error (is ! j) = None) \<and>
     (snd (spawn_loop spawn_error run is) = Ok () \<longleftrightarrow> n = length is)"
proof (induction "is")
  case (Cons i "is")
  show ?case
  proof (cases "spawn_error i")
    case (Some e)
    then show ?thesis by (intro exI [of _ 0]) simp
  next
    case None
    obtain n where n: "n \<le> length is" "fst (spawn_loop spawn_error run is) = map run (take n is)"
      "n < length is \<longrightarrow> spawn_error (is ! n) \<noteq> None" "\<forall>j < n. spawn_error (is ! j) = None"
      "snd (spawn_loop spawn_error run is) = Ok () \<longleftrightarrow> n = length is"
      using Cons.IH by blast
    with None show ?thesis
      by (intro exI [of _ "Suc n"]) (auto simp: nth_Cons split: prod.splits nat.splits)
  qed
qed simp

text \<open>An application that was given an address builds; in its supervised endpoint every worker
  whose bind succeeds serves a router of its own factory call, with no error handler, and has the
  WebSocket configuration (with the shared PubSub) exactly when a channel router was configured.\<close>

theorem app_workers_configured:
  assumes "app_build ab = Some ap"
    and "Some w \<in> set (fst (endpoint_child spawn_error bind_ok par (app_endpoint pubsub ap)))"
  shows "ab_addr ab = Some (ap_addr ap) \<and> wk_id w < num_workers par \<and> bind_ok (wk_id w) (ap_addr ap) \<and>
     wk_router w = (case ab_router_factory ab of Some f \<Rightarrow> f () | None \<Rightarrow> router_new) \<and>
     wk_error_handler w = None \<and> wk_body_limit w = 2097152 \<and>
     wk_ws_config w = map_option (\<lambda>f. (f (), pubsub)) (ab_channel_router_factory ab) \<and>
     (''mahalo_channel_supervisor'' \<in> set (app_children ap) \<longleftrightarrow> wk_ws_config w \<noteq> None)"
proof -
  let ?ep = "app_endpoint pubsub ap"
  let ?run = "\<lambda>i. run_worker_arc bind_ok i (ep_addr ?ep) (ep_router_factory ?ep) (ep_error_handler_factory ?ep)
    (ep_after_plug_factories ?ep) DEFAULT_BODY_LIMIT (ep_ws_config_factory ?ep) (ep_tls_config ?ep)"
  have "fst (endpoint_child spawn_error bind_ok par ?ep) = fst (spawn_loop spawn_error ?run [0..<num_workers par])"
    by (simp add: endpoint_child_def spawn_workers_def split: prod.splits result.splits)
  then obtain n where "fst (endpoint_child spawn_error bind_ok par ?ep) = map ?run (take n [0..<num_workers par])"
    using spawn_loop_spec by metis
  with assms(2) obtain i where "i < num_workers par" "?run i = Some w"
    by (auto dest: in_set_takeD)
  with assms(1) show ?thesis
    by (auto simp: app_build_def app_endpoint_def run_worker_arc_def endpoint_new_def endpoint_channels_def
        app_children_def DEFAULT_BODY_LIMIT_def Let_def split: option.splits if_splits)
qed

theorem app_workers_configured_witness:
  "\<exists>ap w. app_build (app_channel_router (\<lambda>_. True) (app_bind ''127.0.0.1:4000'' app_builder_default))
       = Some (ap :: ((string \<times> bytes) list, unit, (string \<times> nat) list, bool) application) \<and>
     endpoint_child (\<lambda>_. None) (\<lambda>_ _. True) None (app_endpoint (5 :: nat) ap) = ([Some w], Parked) \<and>
     wk_ws_config w = Some (True, 5)"
proof -
  let ?ab = "app_channel_router (\<lambda>_. True) (app_bind ''127.0.0.1:4000'' app_builder_default)
    :: ((string \<times> bytes) list, unit, (string \<times> nat) list, bool) app_builder"
  obtain ap where ap: "app_build ?ab = Some ap"
    by (simp add: app_build_def app_channel_router_def app_bind_def app_builder_default_def)
  obtain w where w: "endpoint_child (\<lambda>_. None) (\<lambda>_ _. True) None (app_endpoint (5 :: nat) ap) = ([Some w], Parked)"
    by (simp add: endpoint_child_def spawn_workers_def num_workers_def run_worker_arc_def)
  from app_workers_configured [OF ap, of w "\<lambda>_. None" "\<lambda>_ _. True" None 5] w
  have "wk_ws_config w = Some (True, 5)"
    by (simp add: app_channel_router_def)
  with ap w show ?thesis by blast
qed

end
