(* ===== verification/Ws_Parse.thy ===== *)
theory Ws_Parse
  imports Rust_Std
begin

text \<open>
  The RFC 6455 frame codec of \<open>mahalo-endpoint/src/ws_parse.rs\<close>: the parser of masked
  client frames, the serializers of server frames and close frames, and the masked-frame builder
  of the crate's tests, which serves here as the client side of the wire format.

  The lemmas show that a frame written by a client is read back whatever follows it in the buffer,
  that the parser's verdict never changes when more bytes arrive and never comes before the last
  byte of the frame, that what it accepts obeys the protocol, and that what the server writes is
  self-delimiting.
\<close>

unbundle bit_operations_syntax

section \<open>Definitions\<close>

definition OPCODE_CONTINUATION :: u8 where "OPCODE_CONTINUATION = 0"
definition OPCODE_TEXT :: u8 where "OPCODE_TEXT = 1"
definition OPCODE_BINARY :: u8 where "OPCODE_BINARY = 2"
definition OPCODE_CLOSE :: u8 where "OPCODE_CLOSE = 8"
definition OPCODE_PING :: u8 where "OPCODE_PING = 9"
definition OPCODE_PONG :: u8 where "OPCODE_PONG = 10"

lemmas opcode_defs =
  OPCODE_CONTINUATION_def OPCODE_TEXT_def OPCODE_BINARY_def
  OPCODE_CLOSE_def OPCODE_PING_def OPCODE_PONG_def

record ws_frame =
  ws_opcode :: u8
  ws_payload :: bytes

datatype ws_error = Incomplete | ProtocolError string

fun ws_error_fmt :: "ws_error \<Rightarrow> string" where
  "ws_error_fmt Incomplete = ''incomplete frame''"
| "ws_error_fmt (ProtocolError msg) = ''protocol error: '' @ msg"

text \<open>The checks on the first two bytes: reserved bits, fragmented control frames, the mask bit and
  reserved opcodes, in the order of the source.\<close>

definition ws_header_check :: "u8 \<Rightarrow> u8 \<Rightarrow> ws_error option" where
  "ws_header_check b0 b1 =
     (let fin = (b0 AND 0x80 \<noteq> 0); opc = b0 AND 0x0F; masked = (b1 AND 0x80 \<noteq> 0) in
      if b0 AND 0x70 \<noteq> 0 then Some (ProtocolError ''reserved bits set'')
      else if 8 \<le> opc \<and> \<not> fin then Some (ProtocolError ''fragmented control frame'')
      else if \<not> masked then Some (ProtocolError ''client frame not masked'')
      else if (3 \<le> opc \<and> opc \<le> 7) \<or> (11 \<le> opc \<and> opc \<le> 15)
        then Some (ProtocolError (''reserved opcode '' @ nat_to_string (unat opc)))
      else None)"

text \<open>The payload length and the offset of the mask key. The last branch is length code 127: the
  code is a 7-bit value (\<open>and_7F_le\<close> below), so the source's \<open>unreachable!()\<close> is not
  reached.\<close>

definition ws_payload_len :: "bytes \<Rightarrow> ((nat \<times> nat) option, ws_error) result" where
  "ws_payload_len buf =
     (let code = buf ! 1 AND 0x7F in
      if code \<le> 125 then Ok (Some (unat code, 2))
      else if code = 126 then
        (if length buf < 4 then Ok None
         else Ok (Some (from_be_bytes (slice buf 2 4), 4)))
      else
        (if length buf < 10 then Ok None
         else let len = from_be_bytes (slice buf 2 10) in
           if drop_bit 63 len \<noteq> 0 then Err (ProtocolError ''payload length MSB set'')
           else Ok (Some (len, 10))))"

text \<open>\<open>*byte ^= mask_key[i & 3]\<close> over the payload.\<close>

definition unmask :: "bytes \<Rightarrow> bytes \<Rightarrow> bytes" where
  "unmask key p = map2 (\<lambda>i b. b XOR key ! (i AND 3)) [0..<length p] p"

definition try_parse_frame :: "bytes \<Rightarrow> ((ws_frame \<times> nat) option, ws_error) result" where
  "try_parse_frame buf =
     (if length buf < 2 then Ok None
      else case ws_header_check (buf ! 0) (buf ! 1) of
        Some e \<Rightarrow> Err e
      | None \<Rightarrow>
          (case ws_payload_len buf of
             Err e \<Rightarrow> Err e
           | Ok None \<Rightarrow> Ok None
           | Ok (Some (payload_len, header_offset)) \<Rightarrow>
               let opc = buf ! 0 AND 0x0F;
                   mask_offset = header_offset;
                   data_offset = mask_offset + 4;
                   total = data_offset + payload_len
               in if 8 \<le> opc \<and> 125 < payload_len
                  then Err (ProtocolError ''control frame payload too large'')
                  else if length buf < total then Ok None
                  else let mask_key = slice buf mask_offset (mask_offset + 4)
                       in Ok (Some (\<lparr>ws_opcode = opc, ws_payload = unmask mask_key (slice buf data_offset total)\<rparr>,
                            total))))"

definition ws_len_bytes :: "nat \<Rightarrow> u8 \<Rightarrow> bytes" where
  "ws_len_bytes len mask_bit =
     (if len \<le> 125 then [mask_bit OR word_of_nat len]
      else if len \<le> 65535 then (mask_bit OR 126) # to_be_bytes 2 len
      else (mask_bit OR 127) # to_be_bytes 8 len)"

definition serialize_frame :: "u8 \<Rightarrow> bytes \<Rightarrow> bytes \<Rightarrow> bytes" where
  "serialize_frame opc p buf =
     buf @ [0x80 OR opc] @ ws_len_bytes (length p) 0 @ p"

definition serialize_close_frame :: "u16 \<Rightarrow> bytes \<Rightarrow> bytes \<Rightarrow> bytes" where
  "serialize_close_frame code reason buf =
     serialize_frame OPCODE_CLOSE (to_be_bytes 2 (unat code) @ reason) buf"

text \<open>The client side, as the crate's tests build it: the payload is masked with the same
  exclusive-or that unmasks it.\<close>

definition build_masked_frame :: "u8 \<Rightarrow> bytes \<Rightarrow> bytes \<Rightarrow> bytes" where
  "build_masked_frame opc p mask_key =
     [0x80 OR opc] @ ws_len_bytes (length p) 0x80 @ mask_key @ unmask mask_key p"


section \<open>Bits and masks\<close>

lemma and_7F_le: "(b :: u8) AND 0x7F \<le> 127"
  by (rule word_and_le1)

lemma nat_and_3: "(i :: nat) AND 3 = i mod 4"
  using take_bit_eq_mask [of 2 i] by (simp add: take_bit_eq_mod mask_eq_exp_minus_1)

lemma length_unmask [simp]: "length (unmask key p) = length p"
  by (simp add: unmask_def)

lemma nth_unmask: "i < length p \<Longrightarrow> unmask key p ! i = p ! i XOR key ! (i AND 3)"
  by (simp add: unmask_def)

lemma unmask_unmask [simp]: "unmask key (unmask key p) = p"
  by (rule nth_equalityI) (simp_all add: nth_unmask ac_simps)

lemma take_bit_u8_small: "n < 128 \<Longrightarrow> take_bit 7 (word_of_nat n :: u8) = word_of_nat n"
  by (simp add: take_bit_eq_mod word_unat_eq_iff unat_mod)

lemma len_code_small:
  assumes "n \<le> 125"
  shows "(0x80 OR word_of_nat n :: u8) AND 0x7F = word_of_nat n"
proof -
  have "(0x80 OR word_of_nat n :: u8) AND 0x7F = (0x80 AND 0x7F) OR (word_of_nat n AND 0x7F)"
    by (rule bit.conj_disj_distrib2)
  also have "\<dots> = take_bit 7 (word_of_nat n)"
    by (simp add: take_bit_eq_mask mask_eq_exp_minus_1)
  also have "\<dots> = word_of_nat n"
    using assms by (simp add: take_bit_u8_small)
  finally show ?thesis .
qed

lemma mask_bit_set: "(0x80 OR x :: u8) AND 0x80 \<noteq> 0"
  by (simp add: bit.conj_disj_distrib2)

section \<open>What the parser reads\<close>

text \<open>One equation says when a frame comes out, and which.\<close>

lemma try_parse_frame_Some_iff:
  "try_parse_frame buf = Ok (Some (f, n)) \<longleftrightarrow>
     2 \<le> length buf \<and> ws_header_check (buf ! 0) (buf ! 1) = None \<and>
     (\<exists>len off. ws_payload_len buf = Ok (Some (len, off)) \<and>
        \<not> (8 \<le> buf ! 0 AND 0x0F \<and> 125 < len) \<and> n = off + 4 + len \<and> n \<le> length buf \<and>
        f = \<lparr>ws_opcode = buf ! 0 AND 0x0F,
             ws_payload = unmask (slice buf off (off + 4)) (slice buf (off + 4) n)\<rparr>)"
  by (auto simp: try_parse_frame_def Let_def split: option.splits result.splits prod.splits)

lemma ws_payload_len_bounds [ws_intros]:
  "ws_payload_len buf = Ok (Some (len, off)) \<Longrightarrow> 2 \<le> length buf \<Longrightarrow>
     2 \<le> off \<and> off \<le> 10 \<and> off \<le> length buf \<and> len < 2 ^ 63"
proof -
  assume h: "ws_payload_len buf = Ok (Some (len, off))" "2 \<le> length buf"
  have small: "from_be_bytes (slice buf 2 4) < 2 ^ 63" if "4 \<le> length buf"
    using that from_be_bytes_bound [of "slice buf 2 4"] by simp
  have "unat (buf ! 1 AND 127) < 2 ^ 63"
    using u8_less_256 by (rule less_trans) simp
  with h small show ?thesis
    by (auto simp: ws_payload_len_def Let_def drop_bit_eq_div div_eq_0_iff split: if_splits)
qed

lemma ws_payload_len_append:
  assumes "2 \<le> length buf" and "ws_payload_len buf \<noteq> Ok None"
  shows "ws_payload_len (buf @ rest) = ws_payload_len buf"
  using assms by (auto simp: ws_payload_len_def Let_def nth_append slice_append_le split: if_splits)

text \<open>More input never changes a verdict.\<close>

lemma try_parse_frame_append:
  assumes "try_parse_frame buf \<noteq> Ok None"
  shows "try_parse_frame (buf @ rest) = try_parse_frame buf"
proof -
  from assms have len: "2 \<le> length buf" by (auto simp: try_parse_frame_def split: if_splits)
  then have nth: "(buf @ rest) ! 0 = buf ! 0" "(buf @ rest) ! Suc 0 = buf ! Suc 0"
    by (auto simp: nth_append)
  show ?thesis
  proof (cases "ws_header_check (buf ! 0) (buf ! 1)")
    case (Some e)
    with len nth show ?thesis by (simp add: try_parse_frame_def)
  next
    case None
    with assms len have p: "ws_payload_len buf \<noteq> Ok None"
      by (auto simp: try_parse_frame_def)
    with len have app: "ws_payload_len (buf @ rest) = ws_payload_len buf"
      by (metis ws_payload_len_append)
    from assms None len show ?thesis
      by (auto simp: try_parse_frame_def Let_def app nth slice_append_le
          split: option.splits result.splits prod.splits if_splits
          dest: ws_payload_len_bounds)
  qed
qed

lemma ws_payload_len_take:
  assumes "2 \<le> m" and "m \<le> length buf" and "ws_payload_len buf = Ok (Some (len, off))"
  shows "ws_payload_len (take m buf) = Ok (Some (len, off)) \<or> ws_payload_len (take m buf) = Ok None"
  using assms
  by (auto simp: ws_payload_len_def Let_def slice_take not_less split: if_splits)

text \<open>No verdict before the last byte of the frame.\<close>

lemma try_parse_frame_take:
  assumes "try_parse_frame buf = Ok (Some (f, n))" and "m < n"
  shows "try_parse_frame (take m buf) = Ok None"
proof (cases "m < 2")
  case True
  then show ?thesis by (auto simp: try_parse_frame_def)
next
  case False
  from assms obtain len off where h: "2 \<le> length buf" "ws_header_check (buf ! 0) (buf ! 1) = None"
      "ws_payload_len buf = Ok (Some (len, off))" "\<not> (8 \<le> buf ! 0 AND 0x0F \<and> 125 < len)"
      "n = off + 4 + len" "n \<le> length buf"
    unfolding try_parse_frame_Some_iff by blast
  with False assms(2) have "ws_payload_len (take m buf) = Ok (Some (len, off)) \<or>
      ws_payload_len (take m buf) = Ok None"
    by (intro ws_payload_len_take) auto
  with h False assms(2) show ?thesis
    by (auto simp: try_parse_frame_def Let_def)
qed


section \<open>What the client writes\<close>

definition ws_opcode_ok :: "u8 \<Rightarrow> bool" where
  "ws_opcode_ok opc \<longleftrightarrow> opc \<in> {0, 1, 2, 8, 9, 10}"

lemma ws_header_check_built:
  assumes "ws_opcode_ok opc"
  shows "ws_header_check (0x80 OR opc) (0x80 OR x) = None"
    and "(0x80 OR opc) AND 0x0F = opc"
  using assms by (auto simp: ws_opcode_ok_def ws_header_check_def mask_bit_set word_le_nat_alt)

lemma length_ws_len_bytes:
  "length (ws_len_bytes len m) = (if len \<le> 125 then 1 else if len \<le> 65535 then 3 else 9)"
  by (simp add: ws_len_bytes_def)

lemma ws_len_bytes_hd: "\<exists>x r. ws_len_bytes len 0x80 = (0x80 OR x) # r"
  by (auto simp: ws_len_bytes_def intro: exI [of _ "126 :: u8"] exI [of _ "127 :: u8"])

lemma ws_payload_len_built:
  assumes "len < 2 ^ 63"
  shows "ws_payload_len (b0 # ws_len_bytes len 0x80 @ rest)
       = Ok (Some (len, 1 + length (ws_len_bytes len 0x80)))"
proof -
  consider "len \<le> 125" | "125 < len" "len \<le> 65535" | "65535 < len" by linarith
  then show ?thesis
  proof cases
    case 1
    then have "(word_of_nat len :: u8) \<le> 125" by (simp add: word_le_nat_alt)
    with 1 show ?thesis by (simp add: ws_payload_len_def ws_len_bytes_def len_code_small)
  next
    case 2
    then have "from_be_bytes (to_be_bytes 2 len) = len" by (intro from_be_to_be) simp
    with 2 show ?thesis
      by (simp add: ws_payload_len_def ws_len_bytes_def slice_def)
  next
    case 3
    with assms have "from_be_bytes (to_be_bytes 8 len) = len" by (intro from_be_to_be) simp
    with 3 assms show ?thesis
      by (simp add: ws_payload_len_def ws_len_bytes_def slice_def drop_bit_eq_div)
  qed
qed

lemma build_masked_frame_split:
  "build_masked_frame opc p key @ rest =
     ((0x80 OR opc) # ws_len_bytes (length p) 0x80) @ key @ unmask key p @ rest"
  by (simp add: build_masked_frame_def)

lemma try_parse_frame_built:
  assumes "ws_opcode_ok opc" and "length key = 4" and "length p < 2 ^ 63"
    and "8 \<le> opc \<longrightarrow> length p \<le> 125"
  shows "try_parse_frame (build_masked_frame opc p key @ rest)
       = Ok (Some (\<lparr>ws_opcode = opc, ws_payload = p\<rparr>, length (build_masked_frame opc p key)))"
proof -
  define h where "h = (0x80 OR opc) # ws_len_bytes (length p) 0x80"
  define buf where "buf = h @ key @ unmask key p @ rest"
  have buf: "build_masked_frame opc p key @ rest = buf"
    by (simp add: build_masked_frame_split buf_def h_def)
  have n: "length (build_masked_frame opc p key) = length h + 4 + length p"
    using assms(2) by (simp add: build_masked_frame_def h_def)
  have pl: "ws_payload_len buf = Ok (Some (length p, length h))"
    using ws_payload_len_built [OF assms(3), of "0x80 OR opc"] by (simp add: buf_def h_def)
  have key: "slice buf (length h) (length h + 4) = key"
    using slice_middle [of h key] assms(2) by (simp add: buf_def)
  have data: "slice buf (length h + 4) (length h + 4 + length p) = unmask key p"
    using slice_middle [of "h @ key" "unmask key p" rest] assms(2) by (simp add: buf_def add.assoc)
  have b0: "buf ! 0 = 0x80 OR opc" by (simp add: buf_def h_def)
  obtain x r where "ws_len_bytes (length p) 0x80 = (0x80 OR x) # r" using ws_len_bytes_hd by blast
  then have b1: "buf ! 1 = 0x80 OR x" by (simp add: buf_def h_def)
  have len: "length h + 4 + length p \<le> length buf" "2 \<le> length buf"
    using assms(2) by (simp_all add: buf_def h_def)
  show ?thesis
    unfolding buf n try_parse_frame_Some_iff
    using assms len pl b0 b1
    by (auto simp: ws_header_check_built key data not_less)
qed

section \<open>What the server writes\<close>

text \<open>The client's view of an unmasked frame, written down independently of the serializer: opcode,
  payload and the bytes after the frame.\<close>

definition decode_server_frame :: "bytes \<Rightarrow> (u8 \<times> bytes \<times> bytes) option" where
  "decode_server_frame bs =
     (case bs of
        b0 # b1 # r \<Rightarrow>
          (let (n, k) = (if b1 \<le> 125 then (unat b1, 0)
                         else if b1 = 126 then (from_be_bytes (take 2 r), 2)
                         else (from_be_bytes (take 8 r), 8))
           in if b0 AND 0xF0 = 0x80 \<and> k + n \<le> length r
              then Some (b0 AND 0x0F, take n (drop k r), drop (k + n) r) else None)
      | _ \<Rightarrow> None)"

lemma decode_serialize_frame:
  assumes "opc < 16" and "length p < usize_card"
  shows "decode_server_frame (serialize_frame opc p [] @ rest) = Some (opc, p, rest)"
proof -
  have opc: "(0x80 OR opc) AND 0xF0 = 0x80" "(0x80 OR opc) AND 0x0F = opc"
  proof -
    have "opc AND 0xF = take_bit 4 opc" by (simp add: take_bit_eq_mask mask_eq_exp_minus_1)
    also have "\<dots> = opc" using assms(1)
      by (simp add: take_bit_eq_mod word_unat_eq_iff unat_mod word_less_nat_alt)
    finally have low: "opc AND 0xF = opc" .
    then show "(0x80 OR opc) AND 0x0F = opc" by (simp add: bit.conj_disj_distrib2)
    have "opc AND 0xF0 = (opc AND 0xF) AND 0xF0" by (simp add: low)
    also have "\<dots> = 0" by (simp add: and.assoc)
    finally show "(0x80 OR opc) AND 0xF0 = 0x80" by (simp add: bit.conj_disj_distrib2)
  qed
  consider "length p \<le> 125" | "125 < length p" "length p \<le> 65535" | "65535 < length p" by linarith
  then show ?thesis
  proof cases
    case 1
    then have "(word_of_nat (length p) :: u8) \<le> 125" by (simp add: word_le_nat_alt)
    with 1 opc show ?thesis
      by (simp add: decode_server_frame_def serialize_frame_def ws_len_bytes_def)
  next
    case 2
    then have "from_be_bytes (to_be_bytes 2 (length p)) = length p" by (intro from_be_to_be) simp
    with 2 opc show ?thesis
      by (simp add: decode_server_frame_def serialize_frame_def ws_len_bytes_def)
  next
    case 3
    with assms have "from_be_bytes (to_be_bytes 8 (length p)) = length p"
      by (intro from_be_to_be) simp
    with 3 opc show ?thesis
      by (simp add: decode_server_frame_def serialize_frame_def ws_len_bytes_def)
  qed
qed

lemma length_serialize_frame:
  "length (serialize_frame opc p buf) =
     length buf + 1 + length (ws_len_bytes (length p) 0) + length p"
  by (simp add: serialize_frame_def)


section \<open>Properties\<close>

lemma ws_header_check_NoneD:
  assumes "ws_header_check b0 b1 = None"
  shows "b0 AND 0x70 = 0" and "b1 AND 0x80 \<noteq> 0" and "8 \<le> b0 AND 0x0F \<longrightarrow> b0 AND 0x80 \<noteq> 0"
    and "\<not> (3 \<le> b0 AND 0x0F \<and> b0 AND 0x0F \<le> 7)" and "\<not> 11 \<le> b0 AND 0x0F"
  using assms word_and_le1 [of b0 "0x0F"]
  by (auto simp: ws_header_check_def Let_def split: if_splits)

lemma ws_opcode_ok_nibble:
  assumes "\<not> (3 \<le> b AND 0x0F \<and> b AND 0x0F \<le> (7 :: u8))" and "\<not> 11 \<le> b AND 0x0F"
  shows "ws_opcode_ok (b AND 0x0F)"
proof -
  have "unat (b AND 0x0F) \<in> {0, 1, 2, 8, 9, 10}"
    using assms unfolding word_le_nat_alt by simp linarith
  then have "word_of_nat (unat (b AND 0x0F)) \<in> (word_of_nat ` {0, 1, 2, 8, 9, 10} :: u8 set)"
    by (rule imageI)
  then show ?thesis by (simp add: ws_opcode_ok_def)
qed

lemma try_parse_frame_built_take:
  assumes "ws_opcode_ok opc" and "length key = 4" and "length p < 2 ^ 63"
    and "8 \<le> opc \<longrightarrow> length p \<le> 125" and "m < length (build_masked_frame opc p key)"
  shows "try_parse_frame (take m (build_masked_frame opc p key)) = Ok None"
  using try_parse_frame_take [OF try_parse_frame_built [OF assms(1-4), of "[]"] assms(5)] by simp

text \<open>C4: A frame a client builds is read back with its opcode and payload, whatever bytes follow it,
  the reported length is exactly the frame's, and every proper prefix of it is reported as
  incomplete.\<close>

theorem ws_client_frame_roundtrip:
  assumes "ws_opcode_ok opc" and "length key = 4" and "length p < 2 ^ 63"
    and "8 \<le> opc \<longrightarrow> length p \<le> 125"
  shows "try_parse_frame (build_masked_frame opc p key @ rest)
           = Ok (Some (\<lparr>ws_opcode = opc, ws_payload = p\<rparr>, length (build_masked_frame opc p key)))
         \<and> (\<forall>m < length (build_masked_frame opc p key).
              try_parse_frame (take m (build_masked_frame opc p key)) = Ok None)"
  using assms by (auto simp: try_parse_frame_built try_parse_frame_built_take)

theorem ws_client_frame_roundtrip_witness:
  "try_parse_frame (build_masked_frame OPCODE_TEXT [104, 105] [1, 2, 3, 4] @ [129])
     = Ok (Some (\<lparr>ws_opcode = OPCODE_TEXT, ws_payload = [104, 105]\<rparr>, 8))"
proof -
  have "length (build_masked_frame OPCODE_TEXT [104, 105] [1, 2, 3, 4]) = 8"
    by (simp add: build_masked_frame_def ws_len_bytes_def)
  then show ?thesis
    using ws_client_frame_roundtrip [of OPCODE_TEXT "[1, 2, 3, 4]" "[104, 105]" "[129]"]
    by (simp add: ws_opcode_ok_def OPCODE_TEXT_def)
qed

text \<open>C18: The parser is incremental: once it reports a frame or an error, later bytes do not change
  the report, and it reports a frame only when its last byte is there.\<close>

theorem ws_parse_incremental:
  "(try_parse_frame buf \<noteq> Ok None \<longrightarrow> try_parse_frame (buf @ rest) = try_parse_frame buf) \<and>
   (\<forall>f n m. try_parse_frame buf = Ok (Some (f, n)) \<and> m < n \<longrightarrow>
      try_parse_frame (take m buf) = Ok None)"
  by (auto simp: try_parse_frame_append intro: try_parse_frame_take)

theorem ws_parse_incremental_witness:
  "try_parse_frame ([0x89, 0x80, 1, 2, 3, 4] @ [7]) = try_parse_frame [0x89, 0x80, 1, 2, 3, 4] \<and>
   try_parse_frame (take 5 [0x89, 0x80, 1, 2, 3, 4]) = Ok None"
proof -
  let ?buf = "[0x89, 0x80, 1, 2, 3, 4] :: bytes"
  have h: "try_parse_frame ?buf = Ok (Some (\<lparr>ws_opcode = 9, ws_payload = []\<rparr>, 6))"
    by code_simp
  have "(5 :: nat) < 6" by simp
  with h ws_parse_incremental [of ?buf "[7]"] have "try_parse_frame (take 5 ?buf) = Ok None"
    by blast
  with h ws_parse_incremental [of ?buf "[7]"] show ?thesis by simp
qed

text \<open>C33: An accepted frame has no reserved bits, is masked, has one of the six defined opcodes, is
  not a fragmented or oversized control frame, lies within the buffer (so no slice of the parser
  is out of range), and its length fits a 64-bit \<open>usize\<close>.\<close>

theorem ws_accepted_frame_conforms:
  assumes "try_parse_frame buf = Ok (Some (f, n))"
  shows "buf ! 0 AND 0x70 = 0 \<and> buf ! 1 AND 0x80 \<noteq> 0 \<and> ws_opcode_ok (ws_opcode f)
       \<and> (8 \<le> ws_opcode f \<longrightarrow> buf ! 0 AND 0x80 \<noteq> 0 \<and> length (ws_payload f) \<le> 125)
       \<and> 6 \<le> n \<and> n \<le> length buf \<and> length (ws_payload f) + 6 \<le> n
       \<and> n \<le> length (ws_payload f) + 14 \<and> n < usize_card"
proof -
  from assms obtain len off where h: "2 \<le> length buf" "ws_header_check (buf ! 0) (buf ! 1) = None"
      "ws_payload_len buf = Ok (Some (len, off))" "\<not> (8 \<le> buf ! 0 AND 0x0F \<and> 125 < len)"
      "n = off + 4 + len" "n \<le> length buf" "ws_opcode f = buf ! 0 AND 0x0F"
      "length (ws_payload f) = n - (off + 4)"
    unfolding try_parse_frame_Some_iff by auto
  note d = ws_header_check_NoneD [OF h(2)]
  from h(1,3) have "2 \<le> off" "off \<le> 10" "len < 2 ^ 63" by (auto dest: ws_intros)
  with h d ws_opcode_ok_nibble [OF d(4,5)] show ?thesis by (auto simp: not_less)
qed

theorem ws_accepted_frame_conforms_witness:
  "try_parse_frame [0x89, 0x80, 1, 2, 3, 4, 5] = Ok (Some (\<lparr>ws_opcode = 9, ws_payload = []\<rparr>, 6)) \<and>
   ws_opcode_ok 9"
proof -
  have h: "try_parse_frame [0x89, 0x80, 1, 2, 3, 4, 5]
      = Ok (Some (\<lparr>ws_opcode = 9, ws_payload = []\<rparr>, 6))"
    by code_simp
  from h ws_accepted_frame_conforms [OF h] show ?thesis by simp
qed

text \<open>What the server writes is self-delimiting: a client that reads the frame header gets back
  the opcode and the payload and stops at the first byte after the frame, for every opcode nibble
  and every payload length a \<open>usize\<close> can hold.\<close>

theorem ws_server_frame_roundtrip:
  assumes "opc < 16" and "length p < usize_card"
  shows "serialize_frame opc p buf = buf @ serialize_frame opc p [] \<and>
         decode_server_frame (serialize_frame opc p [] @ rest) = Some (opc, p, rest)"
  using decode_serialize_frame [OF assms] by (simp add: serialize_frame_def)

theorem ws_server_frame_roundtrip_witness:
  "decode_server_frame (serialize_frame OPCODE_PONG [1, 2] [] @ [0x81]) = Some (10, [1, 2], [0x81])"
  using ws_server_frame_roundtrip [of OPCODE_PONG "[1, 2]" "[]" "[0x81]"]
  by (simp add: OPCODE_PONG_def)

text \<open>The FIN bit of a data frame is not looked at: the same bytes with FIN cleared (a first
  fragment) and with FIN set (a whole message) give the same result.\<close>

theorem ws_data_fin_ignored:
  assumes "b0 AND 0x0F < 8"
  shows "try_parse_frame ((b0 AND 0x7F) # r) = try_parse_frame ((b0 OR 0x80) # r)"
proof -
  have nibble: "(b0 AND 0x7F) AND 0x0F = b0 AND 0x0F" "(b0 OR 0x80) AND 0x0F = b0 AND 0x0F"
    and rsv: "(b0 AND 0x7F) AND 0x70 = b0 AND 0x70" "(b0 OR 0x80) AND 0x70 = b0 AND 0x70"
    by (simp_all add: and.assoc bit.conj_disj_distrib2)
  from assms have "\<not> 8 \<le> b0 AND 0x0F" by simp
  with nibble rsv have "ws_header_check (b0 AND 0x7F) b1 = ws_header_check (b0 OR 0x80) b1" for b1
    by (simp add: ws_header_check_def Let_def)
  moreover have "ws_payload_len ((b0 AND 0x7F) # r) = ws_payload_len ((b0 OR 0x80) # r)"
    by (simp add: ws_payload_len_def slice_def Let_def)
  moreover have "slice ((b0 AND 0x7F) # r) (Suc k) m = slice ((b0 OR 0x80) # r) (Suc k) m" for k m
    by (simp add: slice_def)
  ultimately show ?thesis using nibble
    by (auto simp: try_parse_frame_def Let_def ws_payload_len_def slice_def
        split: option.splits result.splits)
qed

theorem ws_data_fin_ignored_witness:
  "try_parse_frame [0x01, 0x81, 0, 0, 0, 0, 65] = try_parse_frame [0x81, 0x81, 0, 0, 0, 0, 65]"
  using ws_data_fin_ignored [of "0x81" "[0x81, 0, 0, 0, 0, 65]"] by simp

end
