(* ===== verification/Stream_Parsing.thy ===== *)
theory Stream_Parsing
  imports Rust_Std
begin

text \<open>
  Reading a byte stream through an incremental parser. The HTTP and the WebSocket connection
  loops both read into a buffer, parse as often as possible, and shift the rest to the front.
  The locale \<open>incremental_parser\<close> states what such a loop needs of its parser; \<open>consume\<close>
  is the specification of the loop on the whole input, and the locale shows that the way the input
  is cut into reads does not matter.

  \<open>io\<close> is the connection as the loops see it: the writes made so far with their results, and
  which writes fail (\<open>MahaloStream\<close> in \<open>mahalo-endpoint/src/server.rs\<close>). Reads are a list
  of events, its end being the end of the stream.
\<close>

section \<open>The connection\<close>

datatype read_event = ReadOk bytes | ReadErr

record io =
  io_out :: "(bytes \<times> bool) list"
  io_fails :: "nat \<Rightarrow> bool"

text \<open>\<open>write_all\<close>: whether it succeeded, and the connection afterwards. For TLS a failed flush
  is a failed write.\<close>

definition stream_write_all :: "bytes \<Rightarrow> io \<Rightarrow> bool \<times> io" where
  "stream_write_all b w =
     (let ok = \<not> io_fails w (length (io_out w))
      in (ok, w\<lparr>io_out := io_out w @ [(b, ok)]\<rparr>))"

section \<open>Incremental parsing\<close>

datatype ('f, 'e) verdict = NeedMore | Item 'f nat | Bad 'e

function consume ::
  "('b list \<Rightarrow> ('f, 'e) verdict) \<Rightarrow> ('f \<Rightarrow> 's \<Rightarrow> 's \<times> bool) \<Rightarrow> ('e \<Rightarrow> 's \<Rightarrow> 's)
    \<Rightarrow> 'b list \<Rightarrow> 's \<Rightarrow> 's \<times> 'b list option" where
  "consume parse item bad buf s =
     (case parse buf of
        NeedMore \<Rightarrow> (s, Some buf)
      | Bad e \<Rightarrow> (bad e s, None)
      | Item f n \<Rightarrow>
          if n = 0 \<or> length buf < n then (s, Some buf)
          else (case item f s of
                  (s', True) \<Rightarrow> consume parse item bad (drop n buf) s'
                | (s', False) \<Rightarrow> (s', None)))"
  by pat_completeness auto
termination
  by (relation "measure (\<lambda>(_, _, _, buf, _). length buf)") auto

declare consume.simps [simp del]

lemma consume_rest_le: "consume parse item bad buf s = (s', Some r) \<Longrightarrow> length r \<le> length buf"
proof (induction "length buf" arbitrary: buf s rule: less_induct)
  case less
  have rec: "length r \<le> length buf" if "0 < n" "n \<le> length buf"
    "consume parse item bad (drop n buf) s1 = (s', Some r)" for n s1
  proof -
    from that have "length (drop n buf) < length buf" by simp
    from less.hyps [OF this that(3)] show ?thesis by simp
  qed
  from less.prems show ?case
    by (subst (asm) consume.simps)
      (auto dest: rec [rotated 2] split: verdict.splits if_splits prod.splits bool.splits)
qed

fun feed ::
  "('b list \<Rightarrow> ('f, 'e) verdict) \<Rightarrow> ('f \<Rightarrow> 's \<Rightarrow> 's \<times> bool) \<Rightarrow> ('e \<Rightarrow> 's \<Rightarrow> 's)
    \<Rightarrow> 'b list list \<Rightarrow> 'b list \<Rightarrow> 's \<Rightarrow> 's \<times> 'b list option" where
  "feed parse item bad [] buf s = (s, Some buf)"
| "feed parse item bad (c # cs) buf s =
     (case consume parse item bad (buf @ c) s of
        (s', Some r) \<Rightarrow> feed parse item bad cs r s'
      | (s', None) \<Rightarrow> (s', None))"

locale incremental_parser =
  fixes parse :: "'b list \<Rightarrow> ('f, 'e) verdict"
  assumes stable: "parse buf \<noteq> NeedMore \<Longrightarrow> parse (buf @ rest) = parse buf"
    and in_buffer: "parse buf = Item f n \<Longrightarrow> 0 < n \<and> n \<le> length buf"
begin

lemma consume_simp:
  "consume parse item bad buf s =
     (case parse buf of
        NeedMore \<Rightarrow> (s, Some buf)
      | Bad e \<Rightarrow> (bad e s, None)
      | Item f n \<Rightarrow> (case item f s of
          (s', True) \<Rightarrow> consume parse item bad (drop n buf) s' | (s', False) \<Rightarrow> (s', None)))"
  using in_buffer [of buf] by (subst consume.simps) (auto split: verdict.splits)

lemma consume_append:
  "consume parse item bad (buf @ rest) s =
     (case consume parse item bad buf s of
        (s', Some r) \<Rightarrow> consume parse item bad (r @ rest) s'
      | (s', None) \<Rightarrow> (s', None))"
proof (induction "length buf" arbitrary: buf s rule: less_induct)
  case less
  show ?case
  proof (cases "parse buf")
    case NeedMore
    then show ?thesis by (simp add: consume_simp [of _ _ buf])
  next
    case (Bad e)
    then have "parse (buf @ rest) = Bad e" using stable by simp
    with Bad show ?thesis by (simp add: consume_simp [of _ _ buf] consume_simp [of _ _ "buf @ rest"])
  next
    case (Item f n)
    then have p: "parse (buf @ rest) = Item f n" using stable by simp
    have n: "0 < n" "n \<le> length buf" using in_buffer [OF Item] by simp_all
    have "consume parse item bad (drop n buf @ rest) s' =
        (case consume parse item bad (drop n buf) s' of
           (s'', Some r) \<Rightarrow> consume parse item bad (r @ rest) s'' | (s'', None) \<Rightarrow> (s'', None))" for s'
      using n by (intro less) simp
    with Item p n show ?thesis
      by (simp add: consume_simp [of _ _ buf] consume_simp [of _ _ "buf @ rest"] split: prod.splits bool.splits)
  qed
qed

text \<open>What remains is a prefix of no further item: consuming it again changes nothing.\<close>

lemma consume_rest: "consume parse item bad buf s = (s', Some r) \<Longrightarrow> parse r = NeedMore"
proof (induction "length buf" arbitrary: buf s rule: less_induct)
  case less
  show ?case
  proof (cases "parse buf")
    case (Item f n)
    then have "length (drop n buf) < length buf" using in_buffer [OF Item] by auto
    with less.hyps [OF this] less.prems Item show ?thesis
      by (auto simp: consume_simp [of _ _ buf] split: prod.splits bool.splits)
  qed (use less.prems in \<open>auto simp: consume_simp [of _ _ buf]\<close>)
qed

lemma feed_concat:
  "parse buf = NeedMore \<Longrightarrow> feed parse item bad cs buf s = consume parse item bad (buf @ concat cs) s"
proof (induction cs arbitrary: buf s)
  case Nil
  then show ?case by (simp add: consume_simp [of _ _ buf])
next
  case (Cons c cs)
  show ?case
  proof (cases "consume parse item bad (buf @ c) s")
    case (Pair s' r)
    show ?thesis
    proof (cases r)
      case None
      with Pair consume_append [of item bad "buf @ c" "concat cs" s] show ?thesis by simp
    next
      case (Some r')
      with Pair have "parse r' = NeedMore" using consume_rest [of item bad "buf @ c" s s' r'] by simp
      from Cons.IH [OF this] Pair Some consume_append [of item bad "buf @ c" "concat cs" s] show ?thesis by simp
    qed
  qed
qed

end

end
