(* ===== verification/Ws_Session.thy ===== *)
theory Ws_Session
  imports Ws_Parse Stream_Parsing
begin

text \<open>
  The WebSocket connection, \<open>ws_streaming_loop\<close> of \<open>mahalo-endpoint/src/server.rs\<close>: the
  reader, which turns frames into messages for the channel server, answers pings and closes, and
  the writer, which sends the channel server's messages as text frames.

  \<open>ws_buf\<close> and \<open>ws_filled\<close> are the read buffer and the number of valid bytes in it;
  \<open>ws_sent\<close> are the messages handed to the channel server, whose end of the queue is open for
  the \<open>n\<close>-th message when \<open>rx_open n\<close>.
\<close>

section \<open>Definitions\<close>

definition DEFAULT_BUF_SIZE :: nat where "DEFAULT_BUF_SIZE = 8192"
definition WS_MAX_FRAME_SIZE :: nat where "WS_MAX_FRAME_SIZE = 2 ^ 20"

record ws_peer =
  wp_io :: io
  wp_sent :: "string list"

record ws_reader =
  wr_peer :: ws_peer
  wr_buf :: bytes
  wr_filled :: nat

definition ws_close :: "u16 \<Rightarrow> string \<Rightarrow> ws_peer \<Rightarrow> ws_peer" where
  "ws_close code reason p =
     p\<lparr>wp_io := snd (stream_write_all (serialize_close_frame code (as_bytes reason) []) (wp_io p))\<rparr>"

text \<open>The \<open>match frame.opcode\<close>; the flag says whether the loop goes on.\<close>

definition ws_handle_frame :: "(nat \<Rightarrow> bool) \<Rightarrow> ws_frame \<Rightarrow> ws_peer \<Rightarrow> ws_peer \<times> bool" where
  "ws_handle_frame rx_open frame p =
     (if ws_opcode frame = OPCODE_TEXT then
        (let text = from_utf8_lossy (ws_payload frame)
         in if rx_open (length (wp_sent p)) then (p\<lparr>wp_sent := wp_sent p @ [text]\<rparr>, True) else (p, False))
      else if ws_opcode frame = OPCODE_BINARY then (p, True)
      else if ws_opcode frame = OPCODE_PING then
        (case stream_write_all (serialize_frame OPCODE_PONG (ws_payload frame) []) (wp_io p) of
           (ok, w) \<Rightarrow> (p\<lparr>wp_io := w\<rparr>, ok))
      else if ws_opcode frame = OPCODE_PONG then (p, True)
      else if ws_opcode frame = OPCODE_CLOSE then
        (let close_buf =
               (if 2 \<le> length (ws_payload frame)
                then serialize_close_frame (word_of_nat (from_be_bytes (take 2 (ws_payload frame))))
                       (drop 2 (ws_payload frame)) []
                else serialize_close_frame 1000 [] [])
         in (p\<lparr>wp_io := snd (stream_write_all close_buf (wp_io p))\<rparr>, False))
      else (ws_close 1002 [] p, False))"

text \<open>The inner loop: parse as many frames as possible, shifting the rest to the front.\<close>

lemma try_parse_frame_consumed: "try_parse_frame buf = Ok (Some (f, n)) \<Longrightarrow> 0 < n \<and> n \<le> length buf"
  by (auto simp: try_parse_frame_Some_iff)

function ws_parse_loop :: "(nat \<Rightarrow> bool) \<Rightarrow> ws_reader \<Rightarrow> ws_reader \<times> bool" where
  "ws_parse_loop rx_open r =
     (case try_parse_frame (take (wr_filled r) (wr_buf r)) of
        Ok (Some (frame, consumed)) \<Rightarrow>
          (case ws_handle_frame rx_open frame (wr_peer r) of
             (p, False) \<Rightarrow> (r\<lparr>wr_peer := p\<rparr>, False)
           | (p, True) \<Rightarrow>
               ws_parse_loop rx_open
                 (r\<lparr>wr_peer := p,
                    wr_buf := splice 0 (slice (wr_buf r) consumed (wr_filled r)) (wr_buf r),
                    wr_filled := wr_filled r - consumed\<rparr>))
      | Ok None \<Rightarrow> (r, True)
      | Err _ \<Rightarrow> (r\<lparr>wr_peer := ws_close 1002 ''protocol error'' (wr_peer r)\<rparr>, False))"
  by pat_completeness auto
termination
  by (relation "measure (wr_filled \<circ> snd)") (auto dest!: try_parse_frame_consumed)

declare ws_parse_loop.simps [simp del]

text \<open>Before a read: room in the buffer, or a 1009 close.\<close>

definition ws_reserve :: "ws_reader \<Rightarrow> ws_reader \<times> bool" where
  "ws_reserve r =
     (if wr_filled r = length (wr_buf r) then
        (if WS_MAX_FRAME_SIZE \<le> length (wr_buf r)
         then (r\<lparr>wr_peer := ws_close 1009 ''message too big'' (wr_peer r)\<rparr>, False)
         else (r\<lparr>wr_buf := wr_buf r @ replicate (length (wr_buf r)) 0\<rparr>, True))
      else (r, True))"

text \<open>After a read of \<open>bs\<close>: \<open>split_off\<close> left the valid bytes, the read ones follow.\<close>

definition ws_extend :: "bytes \<Rightarrow> ws_reader \<Rightarrow> ws_reader" where
  "ws_extend bs r =
     r\<lparr>wr_buf := take (wr_filled r) (wr_buf r) @ bs, wr_filled := wr_filled r + length bs\<rparr>"

fun ws_read_loop :: "(nat \<Rightarrow> bool) \<Rightarrow> read_event list \<Rightarrow> ws_reader \<Rightarrow> ws_reader" where
  "ws_read_loop rx_open [] r = fst (ws_reserve r)"
| "ws_read_loop rx_open (e # es) r =
     (case ws_reserve r of
        (r1, False) \<Rightarrow> r1
      | (r1, True) \<Rightarrow>
          (case e of
             ReadErr \<Rightarrow> r1
           | ReadOk bs \<Rightarrow>
               if bs = [] then r1
               else (case ws_parse_loop rx_open (ws_extend bs r1) of
                       (r2, True) \<Rightarrow> ws_read_loop rx_open es r2
                     | (r2, False) \<Rightarrow> r2)))"

definition ws_streaming_loop :: "(nat \<Rightarrow> bool) \<Rightarrow> read_event list \<Rightarrow> io \<Rightarrow> ws_reader" where
  "ws_streaming_loop rx_open reads w =
     ws_read_loop rx_open reads
       \<lparr>wr_peer = \<lparr>wp_io = w, wp_sent = []\<rparr>, wr_buf = replicate DEFAULT_BUF_SIZE 0, wr_filled = 0\<rparr>"

text \<open>The writer task: one text frame per message, until a write fails.\<close>

fun ws_writer :: "string list \<Rightarrow> io \<Rightarrow> io" where
  "ws_writer [] w = w"
| "ws_writer (msg # msgs) w =
     (case stream_write_all (serialize_frame OPCODE_TEXT (as_bytes msg) []) w of
        (True, w') \<Rightarrow> ws_writer msgs w'
      | (False, w') \<Rightarrow> w')"

section \<open>The reader as a stream of frames\<close>

definition frame_verdict :: "bytes \<Rightarrow> (ws_frame, ws_error) verdict" where
  "frame_verdict buf =
     (case try_parse_frame buf of
        Ok None \<Rightarrow> NeedMore | Ok (Some (f, n)) \<Rightarrow> Item f n | Err e \<Rightarrow> Bad e)"

interpretation frames: incremental_parser frame_verdict
proof
  fix buf rest assume "frame_verdict buf \<noteq> NeedMore"
  then have "try_parse_frame buf \<noteq> Ok None" by (auto simp: frame_verdict_def)
  then show "frame_verdict (buf @ rest) = frame_verdict buf"
    by (simp add: frame_verdict_def try_parse_frame_append)
next
  fix buf f n assume "frame_verdict buf = Item f n"
  then show "0 < n \<and> n \<le> length buf"
    using try_parse_frame_consumed by (fastforce simp: frame_verdict_def split: result.splits option.splits)
qed

text \<open>What the reader does with the whole input.\<close>

definition ws_spec :: "(nat \<Rightarrow> bool) \<Rightarrow> bytes \<Rightarrow> ws_peer \<Rightarrow> ws_peer \<times> bytes option" where
  "ws_spec rx_open = consume frame_verdict (ws_handle_frame rx_open) (\<lambda>_. ws_close 1002 ''protocol error'')"

definition wr_ok :: "ws_reader \<Rightarrow> bool" where
  "wr_ok r \<longleftrightarrow> wr_filled r \<le> length (wr_buf r)"

lemma shift_buffer:
  "n \<le> m \<Longrightarrow> m \<le> length buf \<Longrightarrow>
     take (m - n) (splice 0 (slice buf n m) buf) = drop n (take m buf)"
  by (simp add: splice_def slice_def drop_take)

lemma ws_parse_loop_spec:
  assumes "wr_ok r"
  shows "\<exists>r' go. ws_parse_loop rx r = (r', go) \<and> wr_ok r' \<and> length (wr_buf r') = length (wr_buf r) \<and>
    ws_spec rx (take (wr_filled r) (wr_buf r)) (wr_peer r) =
      (wr_peer r', if go then Some (take (wr_filled r') (wr_buf r')) else None)"
  using assms
proof (induction rx r rule: ws_parse_loop.induct)
  case (1 rx r)
  let ?b = "take (wr_filled r) (wr_buf r)"
  show ?case
  proof (cases "try_parse_frame ?b")
    case (Err e)
    then show ?thesis
      using 1(2) by (subst ws_parse_loop.simps)
        (auto simp: ws_spec_def frames.consume_simp [of _ _ ?b] frame_verdict_def wr_ok_def)
  next
    case (Ok x)
    show ?thesis
    proof (cases x)
      case None
      with Ok 1(2) show ?thesis
        by (subst ws_parse_loop.simps)
          (auto simp: ws_spec_def frames.consume_simp [of _ _ ?b] frame_verdict_def)
    next
      case (Some fn)
      obtain f n where fn: "fn = (f, n)" by (cases fn)
      obtain p go where h: "ws_handle_frame rx f (wr_peer r) = (p, go)" by (cases "ws_handle_frame rx f (wr_peer r)")
      let ?r = "r\<lparr>wr_peer := p, wr_buf := splice 0 (slice (wr_buf r) n (wr_filled r)) (wr_buf r),
                  wr_filled := wr_filled r - n\<rparr>"
      have parsed: "try_parse_frame ?b = Ok (Some (f, n))" using Ok Some fn by simp
      have n: "n \<le> wr_filled r" "wr_filled r \<le> length (wr_buf r)"
        using try_parse_frame_consumed [OF parsed] 1(2) by (simp_all add: wr_ok_def)
      have spec: "ws_spec rx ?b (wr_peer r) = (if go then ws_spec rx (drop n ?b) p else (p, None))"
        using parsed h by (simp add: ws_spec_def frames.consume_simp [of _ _ ?b] frame_verdict_def)
      show ?thesis
      proof (cases go)
        case False
        with parsed h spec 1(2) show ?thesis by (subst ws_parse_loop.simps) (auto simp: wr_ok_def)
      next
        case True
        have "wr_ok ?r" using n by (simp add: wr_ok_def splice_def slice_def)
        from 1(1) [OF Ok Some fn [symmetric] h [symmetric] eqTrueI [OF True] this] True parsed h spec n show ?thesis
          by (subst ws_parse_loop.simps) (simp add: drop_take splice_def slice_def)
      qed
    qed
  qed
qed

text \<open>The reader's remainder after a part of the input.\<close>

definition ws_pending :: "(nat \<Rightarrow> bool) \<Rightarrow> bytes \<Rightarrow> ws_peer \<Rightarrow> nat" where
  "ws_pending rx_open input p = (case ws_spec rx_open input p of (_, Some rest) \<Rightarrow> length rest | (_, None) \<Rightarrow> 0)"

lemma ws_spec_append:
  "ws_spec rx (a @ b) p = (case ws_spec rx a p of (p', Some r) \<Rightarrow> ws_spec rx (r @ b) p' | (p', None) \<Rightarrow> (p', None))"
  unfolding ws_spec_def by (rule frames.consume_append)

lemma ws_spec_rest:
  assumes "ws_spec rx a p = (p', Some r)"
  shows "ws_spec rx r p'' = (p'', Some r)"
  using frames.consume_rest [OF assms [unfolded ws_spec_def]]
  by (simp add: ws_spec_def frames.consume_simp [of _ _ r])

lemma ws_reserve_room:
  assumes "wr_ok r" and "wr_filled r = length (wr_buf r) \<Longrightarrow> length (wr_buf r) < WS_MAX_FRAME_SIZE"
  shows "\<exists>r1. ws_reserve r = (r1, True) \<and> wr_peer r1 = wr_peer r \<and> wr_filled r1 = wr_filled r \<and>
    take (wr_filled r) (wr_buf r1) = take (wr_filled r) (wr_buf r) \<and> wr_ok r1"
  using assms by (cases "wr_filled r = length (wr_buf r)") (auto simp: ws_reserve_def wr_ok_def)

text \<open>While the unparsed remainder stays under the limit, the reader follows the specification.\<close>

lemma ws_read_loop_spec:
  assumes "wr_ok r" and "wr_buf r \<noteq> []" and "\<forall>c \<in> set cs. c \<noteq> []"
    and "ws_spec rx (take (wr_filled r) (wr_buf r)) (wr_peer r) = (wr_peer r, Some (take (wr_filled r) (wr_buf r)))"
    and "\<forall>k \<le> length cs. ws_pending rx (take (wr_filled r) (wr_buf r) @ concat (take k cs)) (wr_peer r) < WS_MAX_FRAME_SIZE"
  shows "wr_peer (ws_read_loop rx (map ReadOk cs) r) =
    fst (ws_spec rx (take (wr_filled r) (wr_buf r) @ concat cs) (wr_peer r))"
  using assms
proof (induction cs arbitrary: r)
  case Nil
  have "wr_filled r = length (wr_buf r) \<Longrightarrow> length (wr_buf r) < WS_MAX_FRAME_SIZE"
    using Nil(4,5) by (simp add: ws_pending_def)
  with Nil(4) show ?case by (auto simp: ws_reserve_def)
next
  case (Cons c cs)
  let ?b = "take (wr_filled r) (wr_buf r)"
  have "wr_filled r = length (wr_buf r) \<Longrightarrow> length (wr_buf r) < WS_MAX_FRAME_SIZE"
    using Cons.prems(4) Cons.prems(5) [rule_format, of 0] by (simp add: ws_pending_def)
  then obtain r1 where r1: "ws_reserve r = (r1, True)" "wr_peer r1 = wr_peer r" "wr_filled r1 = wr_filled r"
    "take (wr_filled r) (wr_buf r1) = ?b" "wr_ok r1"
    using ws_reserve_room [OF Cons.prems(1)] by blast
  let ?r2 = "ws_extend c r1"
  have r2: "wr_ok ?r2" "take (wr_filled ?r2) (wr_buf ?r2) = ?b @ c" "wr_peer ?r2 = wr_peer r" "wr_buf ?r2 \<noteq> []"
    using r1 Cons.prems(1,3) by (simp_all add: ws_extend_def wr_ok_def)
  obtain r3 go where loop: "ws_parse_loop rx ?r2 = (r3, go)" "wr_ok r3" "length (wr_buf r3) = length (wr_buf ?r2)"
    "ws_spec rx (?b @ c) (wr_peer r) = (wr_peer r3, if go then Some (take (wr_filled r3) (wr_buf r3)) else None)"
    using ws_parse_loop_spec [OF r2(1), of rx] r2(2,3) by auto
  have step: "ws_read_loop rx (map ReadOk (c # cs)) r = (if go then ws_read_loop rx (map ReadOk cs) r3 else r3)"
    using r1(1) loop(1) Cons.prems(3) by simp
  have whole: "ws_spec rx (?b @ c @ x) (wr_peer r) =
      (if go then ws_spec rx (take (wr_filled r3) (wr_buf r3) @ x) (wr_peer r3) else (wr_peer r3, None))" for x
    using ws_spec_append [of rx "?b @ c" x "wr_peer r"] loop(4) by simp
  show ?case
  proof (cases go)
    case False
    with step whole [of "concat cs"] show ?thesis by simp
  next
    case True
    have "wr_peer (ws_read_loop rx (map ReadOk cs) r3) =
        fst (ws_spec rx (take (wr_filled r3) (wr_buf r3) @ concat cs) (wr_peer r3))"
    proof (rule Cons.IH)
      show "\<forall>k \<le> length cs. ws_pending rx (take (wr_filled r3) (wr_buf r3) @ concat (take k cs)) (wr_peer r3)
          < WS_MAX_FRAME_SIZE"
      proof (intro allI impI)
        fix k assume "k \<le> length cs"
        then show "ws_pending rx (take (wr_filled r3) (wr_buf r3) @ concat (take k cs)) (wr_peer r3) < WS_MAX_FRAME_SIZE"
          using Cons.prems(5) [rule_format, of "Suc k"] whole [of "concat (take k cs)"] True
          by (simp add: ws_pending_def)
      qed
      show "ws_spec rx (take (wr_filled r3) (wr_buf r3)) (wr_peer r3) =
          (wr_peer r3, Some (take (wr_filled r3) (wr_buf r3)))"
        using ws_spec_rest loop(4) True by simp
    qed (use loop(2,3) r2(4) Cons.prems(3) in auto)
    with step whole [of "concat cs"] True show ?thesis by simp
  qed
qed

text \<open>Reads that fit: none returns more bytes than the room it was offered.\<close>

fun ws_reads_fit :: "(nat \<Rightarrow> bool) \<Rightarrow> read_event list \<Rightarrow> ws_reader \<Rightarrow> bool" where
  "ws_reads_fit rx_open [] r = True"
| "ws_reads_fit rx_open (e # es) r =
     (case ws_reserve r of
        (r1, False) \<Rightarrow> True
      | (r1, True) \<Rightarrow>
          (case e of
             ReadErr \<Rightarrow> True
           | ReadOk bs \<Rightarrow> length bs \<le> length (wr_buf r1) - wr_filled r1 \<and>
               (bs \<noteq> [] \<longrightarrow> (case ws_parse_loop rx_open (ws_extend bs r1) of
                  (r2, True) \<Rightarrow> ws_reads_fit rx_open es r2 | (r2, False) \<Rightarrow> True))))"

definition wr_bounded :: "ws_reader \<Rightarrow> bool" where
  "wr_bounded r \<longleftrightarrow> wr_ok r \<and> length (wr_buf r) < 2 * WS_MAX_FRAME_SIZE"

lemma ws_reserve_bounded: "wr_bounded r \<Longrightarrow> wr_bounded (fst (ws_reserve r))"
  by (auto simp: wr_bounded_def ws_reserve_def wr_ok_def)

lemma ws_read_loop_bounded:
  "wr_bounded r \<Longrightarrow> ws_reads_fit rx es r \<Longrightarrow> wr_bounded (ws_read_loop rx es r)"
proof (induction es arbitrary: r)
  case Nil
  then show ?case by (simp add: ws_reserve_bounded)
next
  case (Cons e es)
  obtain r1 room where r1: "ws_reserve r = (r1, room)" by (cases "ws_reserve r")
  have b1: "wr_bounded r1" using ws_reserve_bounded [OF Cons.prems(1)] r1 by simp
  show ?case
  proof (cases "room \<and> e \<noteq> ReadErr \<and> e \<noteq> ReadOk []")
    case False
    with r1 b1 show ?thesis by (cases e) (auto split: bool.splits)
  next
    case True
    then obtain bs where e: "e = ReadOk bs" "bs \<noteq> []" by (cases e) auto
    have fit: "length bs \<le> length (wr_buf r1) - wr_filled r1" using Cons.prems(2) r1 True e by simp
    then have b2: "wr_bounded (ws_extend bs r1)"
      using b1 by (auto simp: wr_bounded_def wr_ok_def ws_extend_def)
    obtain r2 go where r2: "ws_parse_loop rx (ws_extend bs r1) = (r2, go)" "wr_bounded r2"
      using ws_parse_loop_spec [of "ws_extend bs r1" rx] b2 by (auto simp: wr_bounded_def)
    with Cons.IH [of r2] Cons.prems(2) r1 True e show ?thesis by (auto split: bool.splits)
  qed
qed

lemma ws_streaming_spec:
  assumes "\<forall>c \<in> set chunks. c \<noteq> []"
    and "\<forall>k \<le> length chunks. ws_pending rx_open (concat (take k chunks)) \<lparr>wp_io = w, wp_sent = []\<rparr> < WS_MAX_FRAME_SIZE"
  shows "wr_peer (ws_streaming_loop rx_open (map ReadOk chunks) w) =
    fst (ws_spec rx_open (concat chunks) \<lparr>wp_io = w, wp_sent = []\<rparr>)"
proof -
  have "try_parse_frame [] = Ok None" by (simp add: try_parse_frame_def)
  then have "ws_spec rx_open [] p = (p, Some [])" for p
    by (simp add: ws_spec_def frames.consume_simp [of _ _ "[]"] frame_verdict_def)
  with assms show ?thesis
    unfolding ws_streaming_loop_def
    by (subst ws_read_loop_spec) (simp_all add: wr_ok_def DEFAULT_BUF_SIZE_def)
qed

section \<open>Properties\<close>

text \<open>C5: The WebSocket reader does not depend on how the input is cut into reads: as long as the
  unparsed remainder stays under the frame limit, the messages delivered to the channel server and
  the frames written back are those of parsing the whole input at once.\<close>

theorem ws_reader_chunking:
  assumes "\<forall>c \<in> set chunks. c \<noteq> []"
    and "\<forall>k \<le> length chunks. ws_pending rx_open (concat (take k chunks)) \<lparr>wp_io = w, wp_sent = []\<rparr> < WS_MAX_FRAME_SIZE"
  shows "wr_peer (ws_streaming_loop rx_open (map ReadOk chunks) w) =
    fst (ws_spec rx_open (concat chunks) \<lparr>wp_io = w, wp_sent = []\<rparr>)"
  using assms by (rule ws_streaming_spec)

abbreviation (input) demo_io :: io where "demo_io \<equiv> \<lparr>io_out = [], io_fails = (\<lambda>_. False)\<rparr>"

lemma ws_spec_built:
  assumes "ws_opcode_ok opc" and "length key = 4" and "length p < 2 ^ 63" and "8 \<le> opc \<longrightarrow> length p \<le> 125"
  shows "ws_spec rx (build_masked_frame opc p key @ rest) s =
    (case ws_handle_frame rx \<lparr>ws_opcode = opc, ws_payload = p\<rparr> s of
       (s', True) \<Rightarrow> ws_spec rx rest s' | (s', False) \<Rightarrow> (s', None))"
  using try_parse_frame_built [OF assms, of rest]
  by (simp add: ws_spec_def frames.consume_simp [of _ _ "build_masked_frame opc p key @ rest"] frame_verdict_def
      split: prod.splits bool.splits)

theorem ws_reader_chunking_witness:
  "wp_sent (wr_peer (ws_streaming_loop (\<lambda>_. True) [ReadOk [0x81, 0x82, 1, 2], ReadOk [3, 4, 0x69, 0x6B]] demo_io))
     = [''hi'']"
proof -
  let ?cs = "[[0x81, 0x82, 1, 2], [3, 4, 0x69, 0x6B]] :: bytes list"
  let ?p = "\<lparr>wp_io = demo_io, wp_sent = []\<rparr>"
  have 0: "ws_spec (\<lambda>_. True) [] p = (p, Some [])" for p
    by (simp add: ws_spec_def consume.simps frame_verdict_def try_parse_frame_def)
  have 1: "ws_spec (\<lambda>_. True) [0x81, 0x82, 1, 2] ?p = (?p, Some [0x81, 0x82, 1, 2])"
  proof -
    have "try_parse_frame [0x81, 0x82, 1, 2] = Ok None" by code_simp
    then show ?thesis by (simp add: ws_spec_def consume.simps frame_verdict_def)
  qed
  have frame: "concat ?cs = build_masked_frame OPCODE_TEXT [104, 105] [1, 2, 3, 4]" by code_simp
  have hi: "from_utf8_lossy [104, 105] = ''hi''" by code_simp
  have 2: "ws_spec (\<lambda>_. True) (concat ?cs) ?p = (?p\<lparr>wp_sent := [''hi'']\<rparr>, Some [])"
    unfolding frame
    using ws_spec_built [of OPCODE_TEXT "[1, 2, 3, 4]" "[104, 105]" "\<lambda>_. True" "[]" ?p]
    by (simp add: ws_opcode_ok_def OPCODE_TEXT_def ws_handle_frame_def 0 hi)
  have "ws_pending (\<lambda>_. True) (concat (take k ?cs)) ?p < WS_MAX_FRAME_SIZE" if "k \<le> length ?cs" for k
  proof -
    from that have "k = 0 \<or> k = 1 \<or> k = 2" by auto
    then show ?thesis using 0 1 2 by (auto simp: ws_pending_def WS_MAX_FRAME_SIZE_def)
  qed
  then have "wr_peer (ws_streaming_loop (\<lambda>_. True) (map ReadOk ?cs) demo_io) =
      fst (ws_spec (\<lambda>_. True) (concat ?cs) ?p)"
    by (intro ws_reader_chunking) auto
  with 2 show ?thesis by simp
qed

text \<open>The texts of a sequence of well-formed text frames reach the channel server in order, whatever
  masking keys the client used, as long as the server's queue is open.\<close>

theorem ws_texts_delivered_in_order:
  assumes "\<forall>(m, key) \<in> set msgs. length key = 4 \<and> length m < 2 ^ 63 \<and> from_utf8 (as_bytes m) = Some m"
  shows "ws_spec (\<lambda>_. True) (concat (map (\<lambda>(m, key). build_masked_frame OPCODE_TEXT (as_bytes m) key) msgs)) p =
    (p\<lparr>wp_sent := wp_sent p @ map fst msgs\<rparr>, Some [])"
  using assms
proof (induction msgs arbitrary: p)
  case Nil
  then show ?case by (simp add: ws_spec_def consume.simps frame_verdict_def try_parse_frame_def)
next
  case (Cons mk msgs)
  obtain m key where mk: "mk = (m, key)" by (cases mk)
  let ?p = "p\<lparr>wp_sent := wp_sent p @ [m]\<rparr>"
  have "ws_handle_frame (\<lambda>_. True) \<lparr>ws_opcode = OPCODE_TEXT, ws_payload = as_bytes m\<rparr> p = (?p, True)"
    using Cons.prems mk by (simp add: ws_handle_frame_def from_utf8_lossy_valid)
  moreover have "ws_opcode_ok OPCODE_TEXT" "8 \<le> OPCODE_TEXT \<longrightarrow> length (as_bytes m) \<le> 125"
    by (simp_all add: ws_opcode_ok_def OPCODE_TEXT_def word_le_nat_alt)
  ultimately show ?case
    using Cons.IH [of ?p] Cons.prems mk by (simp add: ws_spec_built)
qed

theorem ws_texts_delivered_in_order_witness:
  "wp_sent (fst (ws_spec (\<lambda>_. True)
     (concat (map (\<lambda>(m, key). build_masked_frame OPCODE_TEXT (as_bytes m) key) [(''a'', [1, 2, 3, 4]), (''b'', [5, 6, 7, 8])]))
     \<lparr>wp_io = demo_io, wp_sent = []\<rparr>)) = [''a'', ''b'']"
proof -
  have "from_utf8 (as_bytes ''a'') = Some ''a''" "from_utf8 (as_bytes ''b'') = Some ''b''" by code_simp+
  then show ?thesis
    by (subst ws_texts_delivered_in_order) simp_all
qed

text \<open>C35: The read buffer of a WebSocket connection stays under twice the frame limit, whatever the
  peer sends, and its valid part stays inside it.\<close>

theorem ws_read_buffer_bounded:
  assumes "ws_reads_fit rx_open reads
     \<lparr>wr_peer = \<lparr>wp_io = w, wp_sent = []\<rparr>, wr_buf = replicate DEFAULT_BUF_SIZE 0, wr_filled = 0\<rparr>"
  shows "length (wr_buf (ws_streaming_loop rx_open reads w)) < 2 * WS_MAX_FRAME_SIZE \<and>
     wr_filled (ws_streaming_loop rx_open reads w) \<le> length (wr_buf (ws_streaming_loop rx_open reads w))"
proof -
  have "wr_bounded (ws_streaming_loop rx_open reads w)"
    unfolding ws_streaming_loop_def using assms
    by (intro ws_read_loop_bounded)
      (simp_all add: wr_bounded_def wr_ok_def DEFAULT_BUF_SIZE_def WS_MAX_FRAME_SIZE_def)
  then show ?thesis by (simp add: wr_bounded_def wr_ok_def)
qed

theorem ws_read_buffer_bounded_witness:
  "length (wr_buf (ws_streaming_loop (\<lambda>_. True) [ReadOk [0x81], ReadErr] demo_io)) < 2 * WS_MAX_FRAME_SIZE"
proof -
  have "ws_reads_fit (\<lambda>_. True) [ReadOk [0x81], ReadErr]
     \<lparr>wr_peer = \<lparr>wp_io = demo_io, wp_sent = []\<rparr>, wr_buf = replicate DEFAULT_BUF_SIZE 0, wr_filled = 0\<rparr>"
    by (simp add: ws_reserve_def DEFAULT_BUF_SIZE_def split: prod.splits bool.splits)
  then show ?thesis by (rule ws_read_buffer_bounded [THEN conjunct1])
qed

end
