(* ===== verification/Http_Session.thy ===== *)
theory Http_Session
  imports Http_Parse Mahalo_Endpoint Ws_Session
begin

text \<open>
  An HTTP connection, \<open>mahalo-endpoint/src/server.rs\<close>: one request executed and answered
  (\<open>execute_and_respond\<close>, with the WebSocket upgrade and Server-Sent Events), the
  accumulating read loop, the leased-buffer fast path and the whole connection.

  The state \<open>srv\<close> is what requests share: the router with its compiled cell, the thread's date
  cache, the response allocation, the writes made, the number of date lines asked for, and the
  application's own state \<open>sv_app\<close>, which is put into the connection record for a request and
  taken back after it. The
  environment \<open>srv_env\<close> holds what does not change during a connection and the outside world:
  clock, allocator, hash functions, Server-Sent Events, and whether a buffer lease is available. A
  panic or a write outside an allocation is an \<open>Err\<close>.
\<close>

section \<open>Definitions\<close>

text \<open>A stream is a plain connection or a TLS session over it; the number stands for the socket. Leased
  reads are for plain connections only.\<close>

datatype mahalo_stream = PlainStream nat | TlsStream nat

primrec is_tls :: "mahalo_stream \<Rightarrow> bool" where
  "is_tls (PlainStream s) = False"
| "is_tls (TlsStream s) = True"

primrec read_lease :: "mahalo_stream \<Rightarrow> read_event \<Rightarrow> read_event option" where
  "read_lease (PlainStream s) e = Some e"
| "read_lease (TlsStream s) e = None"

lemma read_lease_plain [simp]: "\<not> is_tls s \<Longrightarrow> read_lease s e = Some e"
  by (cases s) simp_all

datatype request_outcome = KeepAlive | Close | WebSocketUpgrade

datatype srv_fault = RouterPanicked router_panic | SerializeFault | OutOfFuel

datatype sse_event = SseData string | SseElapsed

record ('h, 'z, 'r) srv_env =
  se_http :: "'h http_api"
  se_httparse :: httparse
  se_matchit :: "'r matchit"
  se_error_handler :: "('h, 'z) error_handler option"
  se_after_plugs :: "('h, 'z) plug list"
  se_body_limit :: nat
  se_ws_config :: bool
  se_runtime :: nat
  se_peer_addr :: string
  se_stream :: mahalo_stream
  se_fmt :: "nat \<Rightarrow> string"
  se_sys :: "nat \<Rightarrow> nat"
  se_clock :: "nat \<Rightarrow> nat"
  se_reserve :: "bytes \<Rightarrow> nat \<Rightarrow> bytes"
  se_sha1 :: "bytes \<Rightarrow> bytes"
  se_base64 :: "bytes \<Rightarrow> string"
  se_sse_events :: "nat \<Rightarrow> sse_event list"
  se_lease :: "nat \<Rightarrow> bool"

record ('h, 'z, 'r) srv =
  sv_router :: "('h, 'z, 'r) mahalo_router"
  sv_date :: cached_date_line
  sv_dates :: nat
  sv_mem :: bytes
  sv_io :: io
  sv_app :: 'z

subsection \<open>One request\<close>

text \<open>The comment goes out when the channel was idle for the interval; without a keep-alive
  configuration the receiver just waits.\<close>

fun sse_streaming_loop :: "keep_alive option \<Rightarrow> sse_event list \<Rightarrow> io \<Rightarrow> io" where
  "sse_streaming_loop ka [] w = w"
| "sse_streaming_loop ka (SseData d # es) w =
     (case stream_write_all (as_bytes d) w of
        (True, w') \<Rightarrow> sse_streaming_loop ka es w' | (False, w') \<Rightarrow> w')"
| "sse_streaming_loop (Some ka) (SseElapsed # es) w =
     (case stream_write_all (as_bytes ('': '' @ ka_text ka @ [CHR 10, CHR 10])) w of
        (True, w') \<Rightarrow> sse_streaming_loop (Some ka) es w' | (False, w') \<Rightarrow> w')"
| "sse_streaming_loop None (SseElapsed # es) w = sse_streaming_loop None es w"

text \<open>Serialize with the date cache, then write.\<close>

definition write_response ::
  "(cached_date_line \<times> bytes) option \<Rightarrow> ('h, 'z, 'r) srv \<Rightarrow> (bool \<times> ('h, 'z, 'r) srv, srv_fault) result" where
  "write_response serialized st =
     (case serialized of
        None \<Rightarrow> Err SerializeFault
      | Some (cdl, resp) \<Rightarrow>
          (case stream_write_all resp (sv_io st) of
             (ok, w) \<Rightarrow> Ok (ok, st\<lparr>sv_date := cdl, sv_dates := Suc (sv_dates st), sv_mem := resp, sv_io := w\<rparr>)))"

definition respond_sse ::
  "('h, 'z, 'r) srv_env \<Rightarrow> nat \<Rightarrow> keep_alive option \<Rightarrow> ('h, 'z) conn_scheme \<Rightarrow> ('h, 'z, 'r) srv
    \<Rightarrow> (('h, 'z, 'r) srv \<times> request_outcome, srv_fault) result" where
  "respond_sse E rx ka c st =
     result_bind
       (write_response (serialize_sse_headers_into (se_http E) (se_fmt E) (se_sys E) (se_clock E (sv_dates st)) c (sv_date st)) st)
       (\<lambda>(ok, st1). Ok (if ok then st1\<lparr>sv_io := sse_streaming_loop ka (se_sse_events E rx) (sv_io st1)\<rparr> else st1, Close))"

definition respond_http ::
  "('h, 'z, 'r) srv_env \<Rightarrow> bool \<Rightarrow> ('h, 'z) conn_scheme \<Rightarrow> ('h, 'z, 'r) srv
    \<Rightarrow> (('h, 'z, 'r) srv \<times> request_outcome, srv_fault) result" where
  "respond_http E keep_alive c st =
     result_bind
       (write_response (serialize_response_into (se_http E) (se_fmt E) (se_sys E) (se_clock E (sv_dates st))
          (se_reserve E) c keep_alive (sv_date st) (sv_mem st)) st)
       (\<lambda>(ok, st1). Ok (st1, if ok \<and> keep_alive then KeepAlive else Close))"

definition execute_and_respond ::
  "('h, 'z, 'r) srv_env \<Rightarrow> 'h parsed_request \<Rightarrow> ('h, 'z, 'r) srv
    \<Rightarrow> (('h, 'z, 'r) srv \<times> request_outcome, srv_fault) result" where
  "execute_and_respond E parsed st =
     (if pr_ws_key parsed \<noteq> None \<and> se_ws_config E then
        (let resp = serialize_ws_accept_response (se_sha1 E) (se_base64 E) (the (pr_ws_key parsed)) []
         in case stream_write_all resp (sv_io st) of
              (ok, w) \<Rightarrow> Ok (st\<lparr>sv_mem := resp, sv_io := w\<rparr>, if ok then WebSocketUpgrade else Close))
      else
        (let c0 = (if se_ws_config E then with_runtime (se_runtime E) (pr_conn parsed) else pr_conn parsed)
         in case execute_request (se_matchit E) (se_error_handler E) (se_after_plugs E) (conn.extend c0 (sv_app st))
                   (sv_router st) of
              Err p \<Rightarrow> Err (RouterPanicked p)
            | Ok (router', c) \<Rightarrow>
                (let st' = st\<lparr>sv_router := router', sv_app := conn.more c\<rparr>
                 in case take_assign SseStreamKey c of
                      (Some (SseStreamVal rx), c1) \<Rightarrow>
                        (case take_assign SseKeepAliveKey c1 of
                           (ka, c2) \<Rightarrow>
                             respond_sse E rx (case ka of Some (KeepAliveVal k) \<Rightarrow> Some k | _ \<Rightarrow> None) c2 st')
                    | (_, c1) \<Rightarrow> respond_http E (pr_keep_alive parsed) c1 st')))"

subsection \<open>The accumulating loop\<close>

datatype loop_outcome = LoopContinue | LoopClose | LoopUpgrade

definition write_ignored :: "bytes \<Rightarrow> ('h, 'z, 'r) srv \<Rightarrow> ('h, 'z, 'r) srv" where
  "write_ignored b st = st\<lparr>sv_io := snd (stream_write_all b (sv_io st))\<rparr>"

definition reject :: "parse_error \<Rightarrow> ('h, 'z, 'r) srv \<Rightarrow> ('h, 'z, 'r) srv" where
  "reject e st =
     (case e of BodyTooLarge \<Rightarrow> write_ignored RESPONSE_413 st | InvalidRequest \<Rightarrow> write_ignored RESPONSE_400 st)"

text \<open>\<open>(buf, filled)\<close>; growing it fails with a 413 when it is full at the limit.\<close>

definition vec_reserve :: "('h, 'z, 'r) srv_env \<Rightarrow> bytes \<times> nat \<Rightarrow> (bytes \<times> nat) option" where
  "vec_reserve E a =
     (case a of (buf, filled) \<Rightarrow>
        if filled = length buf then
          (if se_body_limit E + DEFAULT_BUF_SIZE \<le> length buf then None
           else Some (buf @ replicate (length buf) 0, filled))
        else Some (buf, filled))"

fun vec_parse_loop ::
  "nat \<Rightarrow> ('h, 'z, 'r) srv_env \<Rightarrow> bytes \<times> nat \<Rightarrow> ('h, 'z, 'r) srv
    \<Rightarrow> ((bytes \<times> nat) \<times> ('h, 'z, 'r) srv \<times> loop_outcome, srv_fault) result" where
  "vec_parse_loop 0 E a st = Err OutOfFuel"
| "vec_parse_loop (Suc fuel) E (buf, filled) st =
     (case try_parse_request (se_http E) (se_httparse E) (take filled buf) (se_body_limit E) (se_peer_addr E) of
        Ok (Some parsed) \<Rightarrow>
          (let bytes_consumed = pr_bytes_consumed parsed
           in case execute_and_respond E parsed st of
                Err f \<Rightarrow> Err f
              | Ok (st', Close) \<Rightarrow> Ok ((buf, filled), st', LoopClose)
              | Ok (st', WebSocketUpgrade) \<Rightarrow> Ok ((buf, filled), st', LoopUpgrade)
              | Ok (st', KeepAlive) \<Rightarrow>
                  (let buf' = splice 0 (slice buf bytes_consumed filled) buf;
                       filled' = filled - bytes_consumed
                   in if filled' = 0 then Ok ((buf', filled'), st', LoopContinue)
                      else vec_parse_loop fuel E (buf', filled') st'))
      | Ok None \<Rightarrow>
          (case vec_reserve E (buf, filled) of
             None \<Rightarrow> Ok ((buf, filled), write_ignored RESPONSE_413 st, LoopClose)
           | Some a \<Rightarrow> Ok (a, st, LoopContinue))
      | Err e \<Rightarrow> Ok ((buf, filled), reject e st, LoopClose))"

text \<open>Every turn of the parse loop consumes at least a byte, so one more turn than there are bytes is
  enough.\<close>

definition vec_read_loop ::
  "('h, 'z, 'r) srv_env \<Rightarrow> read_event \<Rightarrow> bytes \<times> nat \<Rightarrow> ('h, 'z, 'r) srv
    \<Rightarrow> ((bytes \<times> nat) \<times> ('h, 'z, 'r) srv \<times> loop_outcome, srv_fault) result" where
  "vec_read_loop E e a st =
     (case vec_reserve E a of
        None \<Rightarrow> Ok (a, write_ignored RESPONSE_413 st, LoopClose)
      | Some (buf, filled) \<Rightarrow>
          (case e of
             ReadErr \<Rightarrow> Ok ((buf, filled), st, LoopClose)
           | ReadOk bs \<Rightarrow>
               if bs = [] then Ok ((buf, filled), st, LoopClose)
               else let filled' = filled + length bs
                    in vec_parse_loop (Suc filled') E (take filled buf @ bs, filled') st))"

subsection \<open>The connection\<close>

definition fresh_accum :: "bytes \<times> nat" where
  "fresh_accum = (replicate DEFAULT_BUF_SIZE 0, 0)"

text \<open>The rest of a leased read becomes the accumulation buffer.\<close>

definition leftover_accum :: "bytes \<Rightarrow> (bytes \<times> nat) option" where
  "leftover_accum bs =
     (if bs = [] then None else Some (bs @ replicate (DEFAULT_BUF_SIZE - length bs) 0, length bs))"

definition lease_step ::
  "('h, 'z, 'r) srv_env \<Rightarrow> read_event \<Rightarrow> ('h, 'z, 'r) srv
    \<Rightarrow> ((bytes \<times> nat) option \<times> ('h, 'z, 'r) srv \<times> loop_outcome, srv_fault) result" where
  "lease_step E e st =
     (case e of
        ReadErr \<Rightarrow> Ok (None, st, LoopClose)
      | ReadOk bs \<Rightarrow>
          if bs = [] then Ok (None, st, LoopClose)
          else
            (case try_parse_request (se_http E) (se_httparse E) bs (se_body_limit E) (se_peer_addr E) of
               Ok (Some parsed) \<Rightarrow>
                 (case execute_and_respond E parsed st of
                    Err f \<Rightarrow> Err f
                  | Ok (st', Close) \<Rightarrow> Ok (None, st', LoopClose)
                  | Ok (st', WebSocketUpgrade) \<Rightarrow> Ok (None, st', LoopUpgrade)
                  | Ok (st', KeepAlive) \<Rightarrow> Ok (leftover_accum (drop (pr_bytes_consumed parsed) bs), st', LoopContinue))
             | Ok None \<Rightarrow>
                 Ok (Some (bs @ replicate (max DEFAULT_BUF_SIZE (length bs * 2) - length bs) 0, length bs), st, LoopContinue)
             | Err e \<Rightarrow> Ok (None, reject e st, LoopClose)))"

text \<open>One read of the main loop: through the accumulation buffer if there is one, if the stream is
  TLS or if no lease is to be had; through a lease otherwise.\<close>

definition http_step ::
  "('h, 'z, 'r) srv_env \<Rightarrow> bool \<Rightarrow> read_event \<Rightarrow> (bytes \<times> nat) option \<Rightarrow> ('h, 'z, 'r) srv
    \<Rightarrow> ((bytes \<times> nat) option \<times> ('h, 'z, 'r) srv \<times> loop_outcome, srv_fault) result" where
  "http_step E lease e accum st =
     (case (if accum = None \<and> \<not> is_tls (se_stream E) \<and> lease then read_lease (se_stream E) e else None) of
        Some read \<Rightarrow> lease_step E read st
      | None \<Rightarrow> result_bind (vec_read_loop E e (case accum of Some a \<Rightarrow> a | None \<Rightarrow> fresh_accum) st)
                  (\<lambda>(a, st', out). Ok (if snd a = 0 then None else Some a, st', out)))"

text \<open>The reads left over for the WebSocket loop, if there was an upgrade.\<close>

fun http_loop ::
  "('h, 'z, 'r) srv_env \<Rightarrow> read_event list \<Rightarrow> (bytes \<times> nat) option \<Rightarrow> ('h, 'z, 'r) srv
    \<Rightarrow> (('h, 'z, 'r) srv \<times> read_event list option, srv_fault) result" where
  "http_loop E [] accum st =
     (case http_step E (se_lease E 0) (ReadOk []) accum st of
        Err f \<Rightarrow> Err f
      | Ok (_, st', _) \<Rightarrow> Ok (st', None))"
| "http_loop E (e # es) accum st =
     (case http_step E (se_lease E (Suc (length es))) e accum st of
        Err f \<Rightarrow> Err f
      | Ok (accum', st', LoopContinue) \<Rightarrow> http_loop E es accum' st'
      | Ok (_, st', LoopClose) \<Rightarrow> Ok (st', None)
      | Ok (_, st', LoopUpgrade) \<Rightarrow> Ok (st', Some es))"

definition handle_connection ::
  "('h, 'z, 'r) srv_env \<Rightarrow> (nat \<Rightarrow> bool) \<Rightarrow> read_event list \<Rightarrow> ('h, 'z, 'r) srv
    \<Rightarrow> (('h, 'z, 'r) srv \<times> string list, srv_fault) result" where
  "handle_connection E rx_open reads st =
     result_bind (http_loop E reads None (st\<lparr>sv_mem := replicate 256 0\<rparr>))
       (\<lambda>(st', ws). case ws of
          None \<Rightarrow> Ok (st', [])
        | Some es \<Rightarrow>
            (let r = ws_streaming_loop rx_open es (sv_io st')
             in Ok (st'\<lparr>sv_io := wp_io (wr_peer r)\<rparr>, wp_sent (wr_peer r))))"

subsection \<open>The accept loop\<close>

text \<open>The streams that are handled: an accept error is logged, a failed handshake ends only its own task.\<close>

fun run_accept_loop :: "(nat \<Rightarrow> bool) option \<Rightarrow> nat option list \<Rightarrow> mahalo_stream list" where
  "run_accept_loop tls_acceptor [] = []"
| "run_accept_loop tls_acceptor (None # es) = run_accept_loop tls_acceptor es"
| "run_accept_loop tls_acceptor (Some stream # es) =
     (case tls_acceptor of
        None \<Rightarrow> [PlainStream stream]
      | Some handshake_ok \<Rightarrow> if handshake_ok stream then [TlsStream stream] else [])
     @ run_accept_loop tls_acceptor es"

text \<open>An endpoint with TLS never handles a connection in the clear, and one without TLS loses none.\<close>

lemma run_accept_loop_streams:
  "run_accept_loop None es = map PlainStream (List.map_filter id es)"
  "list_all is_tls (run_accept_loop (Some handshake_ok) es)"
proof -
  show "run_accept_loop None es = map PlainStream (List.map_filter id es)"
    by (induction "None :: (nat \<Rightarrow> bool) option" es rule: run_accept_loop.induct) (simp_all add: List.map_filter_def)
  show "list_all is_tls (run_accept_loop (Some handshake_ok) es)"
    by (induction "Some handshake_ok" es rule: run_accept_loop.induct) simp_all
qed

section \<open>The connection as a stream of requests\<close>

text \<open>What \<open>httparse\<close> documents of incremental use: no verdict on the empty buffer, and a verdict
  does not change when more input follows.\<close>

definition httparse_stream_laws :: "httparse \<Rightarrow> bool" where
  "httparse_stream_laws P \<longleftrightarrow> httparse_laws P \<and> fst (P []) = Ok Partial \<and>
     (\<forall>buf rest. fst (P buf) \<noteq> Ok Partial \<longrightarrow> P (buf @ rest) = P buf)"

lemma httparse_stream_laws_demo: "httparse_stream_laws (demo_httparse m hs)"
  by (auto simp: httparse_stream_laws_def httparse_laws_demo demo_httparse_def)

lemma parse_raw_append:
  assumes "httparse_stream_laws P" and "parse_raw H P buf \<noteq> Ok None"
  shows "parse_raw H P (buf @ rest) = parse_raw H P buf"
proof -
  have "fst (P buf) \<noteq> Ok Partial" using assms(2) by (auto simp: parse_raw_def split: prod.splits)
  with assms(1) have "P (buf @ rest) = P buf" unfolding httparse_stream_laws_def by blast
  then show ?thesis by (simp add: parse_raw_def)
qed

lemma finalize_append:
  "finalize_body_and_keepalive raw buf l \<noteq> Ok None \<Longrightarrow>
     finalize_body_and_keepalive raw (buf @ rest) l = finalize_body_and_keepalive raw buf l"
  by (auto simp: finalize_body_and_keepalive_def Let_def slice_append_le split: if_splits)

lemma try_parse_request_append:
  assumes "httparse_stream_laws P" and "try_parse_request H P buf l peer \<noteq> Ok None"
  shows "try_parse_request H P (buf @ rest) l peer = try_parse_request H P buf l peer"
proof -
  have "parse_raw H P buf \<noteq> Ok None" using assms(2) by (auto simp: try_parse_request_def)
  note raw = parse_raw_append [OF assms(1) this, of rest]
  show ?thesis
  proof (cases "parse_raw H P buf")
    case (Err e)
    with raw show ?thesis by (simp add: try_parse_request_def)
  next
    case (Ok x)
    then obtain r where r: "parse_raw H P buf = Ok (Some r)" using assms(2) by (cases x) (auto simp: try_parse_request_def)
    then have "finalize_body_and_keepalive r buf l \<noteq> Ok None" using assms(2) by (auto simp: try_parse_request_def)
    with raw r finalize_append [of r buf l rest] show ?thesis by (simp add: try_parse_request_def)
  qed
qed

definition http_verdict :: "('h, 'z, 'r) srv_env \<Rightarrow> bytes \<Rightarrow> ('h parsed_request, parse_error) verdict" where
  "http_verdict E buf =
     (case try_parse_request (se_http E) (se_httparse E) buf (se_body_limit E) (se_peer_addr E) of
        Ok None \<Rightarrow> NeedMore | Ok (Some pr) \<Rightarrow> Item pr (pr_bytes_consumed pr) | Err e \<Rightarrow> Bad e)"

lemma try_parse_request_consumed:
  assumes "httparse_laws P" and "try_parse_request H P buf l peer = Ok (Some pr)"
  shows "0 < pr_bytes_consumed pr \<and> pr_bytes_consumed pr \<le> length buf"
  using assms parse_raw_header_len [OF assms(1)]
  by (fastforce simp: try_parse_request_Some_iff finalize_Some_iff)

lemma http_incremental:
  assumes "httparse_stream_laws (se_httparse E)"
  shows "incremental_parser (http_verdict E)"
proof
  fix buf rest assume "http_verdict E buf \<noteq> NeedMore"
  then have "try_parse_request (se_http E) (se_httparse E) buf (se_body_limit E) (se_peer_addr E) \<noteq> Ok None"
    by (auto simp: http_verdict_def)
  then show "http_verdict E (buf @ rest) = http_verdict E buf"
    by (simp add: http_verdict_def try_parse_request_append [OF assms])
next
  fix buf f n assume "http_verdict E buf = Item f n"
  then have "try_parse_request (se_http E) (se_httparse E) buf (se_body_limit E) (se_peer_addr E) = Ok (Some f)"
    "n = pr_bytes_consumed f"
    by (auto simp: http_verdict_def split: result.splits option.splits)
  then show "0 < n \<and> n \<le> length buf"
    using try_parse_request_consumed assms unfolding httparse_stream_laws_def by blast
qed

datatype session_end = Running | Closed | Upgraded | Faulted srv_fault

type_synonym ('h, 'z, 'r) session = "('h, 'z, 'r) srv \<times> session_end"

definition http_item :: "('h, 'z, 'r) srv_env \<Rightarrow> 'h parsed_request \<Rightarrow> ('h, 'z, 'r) session \<Rightarrow> ('h, 'z, 'r) session \<times> bool" where
  "http_item E pr s =
     (case execute_and_respond E pr (fst s) of
        Err f \<Rightarrow> ((fst s, Faulted f), False)
      | Ok (st, KeepAlive) \<Rightarrow> ((st, Running), True)
      | Ok (st, Close) \<Rightarrow> ((st, Closed), False)
      | Ok (st, WebSocketUpgrade) \<Rightarrow> ((st, Upgraded), False))"

definition http_bad :: "parse_error \<Rightarrow> ('h, 'z, 'r) session \<Rightarrow> ('h, 'z, 'r) session" where
  "http_bad e s = (reject e (fst s), Closed)"

text \<open>The requests of the whole input, executed in order until one ends the connection.\<close>

definition http_spec :: "('h, 'z, 'r) srv_env \<Rightarrow> bytes \<Rightarrow> ('h, 'z, 'r) srv \<Rightarrow> ('h, 'z, 'r) session \<times> bytes option" where
  "http_spec E input st = consume (http_verdict E) (http_item E) http_bad input (st, Running)"

lemma http_spec_simp:
  assumes "httparse_stream_laws (se_httparse E)"
  shows "http_spec E buf st =
     (case try_parse_request (se_http E) (se_httparse E) buf (se_body_limit E) (se_peer_addr E) of
        Ok None \<Rightarrow> ((st, Running), Some buf)
      | Err e \<Rightarrow> ((reject e st, Closed), None)
      | Ok (Some pr) \<Rightarrow>
          (case execute_and_respond E pr st of
             Err f \<Rightarrow> ((st, Faulted f), None)
           | Ok (st', KeepAlive) \<Rightarrow> http_spec E (drop (pr_bytes_consumed pr) buf) st'
           | Ok (st', Close) \<Rightarrow> ((st', Closed), None)
           | Ok (st', WebSocketUpgrade) \<Rightarrow> ((st', Upgraded), None)))"
  unfolding http_spec_def
  by (subst incremental_parser.consume_simp [OF http_incremental [OF assms]])
    (simp add: http_verdict_def http_item_def http_bad_def
      split: result.splits option.splits prod.splits request_outcome.splits)

lemma http_spec_state: "http_spec E buf st = ((st', e), Some r) \<Longrightarrow> e = Running"
proof -
  have "consume (http_verdict E) (http_item E) http_bad buf (s :: ('a, 'b, 'c) session) = ((st', e), Some r) \<Longrightarrow>
    snd s = Running \<Longrightarrow> e = Running" for s
  proof (induction "length buf" arbitrary: buf s rule: less_induct)
    case less
    have rec: "e = Running" if "0 < n" "n \<le> length buf"
      "consume (http_verdict E) (http_item E) http_bad (drop n buf) (st1, Running) = ((st', e), Some r)" for n st1
      using that less.hyps [of "drop n buf" "(st1, Running)"] by simp
    from less.prems show ?case
      by (subst (asm) consume.simps)
        (auto simp: http_item_def dest: rec [rotated 2] split: verdict.splits if_splits prod.splits bool.splits
          result.splits request_outcome.splits)
  qed
  from this [of "(st, Running)"] show "http_spec E buf st = ((st', e), Some r) \<Longrightarrow> e = Running"
    by (simp add: http_spec_def)
qed

text \<open>The loop and the specification end in the same way, with the same state and remainder.\<close>

definition loop_agrees ::
  "((bytes \<times> nat) \<times> ('h, 'z, 'r) srv \<times> loop_outcome, srv_fault) result \<Rightarrow> ('h, 'z, 'r) session \<times> bytes option \<Rightarrow> bool" where
  "loop_agrees res sp \<longleftrightarrow>
     (case sp of
        ((st, e), Some r) \<Rightarrow>
          \<exists>buf filled. res = Ok ((buf, filled), st, LoopContinue) \<and> filled \<le> length buf \<and> take filled buf = r
      | ((st, Running), None) \<Rightarrow> False
      | ((st, Closed), None) \<Rightarrow> \<exists>a. res = Ok (a, st, LoopClose)
      | ((st, Upgraded), None) \<Rightarrow> \<exists>a. res = Ok (a, st, LoopUpgrade)
      | ((st, Faulted f), None) \<Rightarrow> res = Err f)"

definition under_limit :: "('h, 'z, 'r) srv_env \<Rightarrow> ('h, 'z, 'r) session \<times> bytes option \<Rightarrow> bool" where
  "under_limit E sp \<longleftrightarrow>
     (case snd sp of Some r \<Rightarrow> length r < se_body_limit E + DEFAULT_BUF_SIZE | None \<Rightarrow> True)"

lemma vec_reserve_room:
  assumes "filled \<le> length buf" and "filled < se_body_limit E + DEFAULT_BUF_SIZE"
  shows "\<exists>buf'. vec_reserve E (buf, filled) = Some (buf', filled) \<and> filled \<le> length buf' \<and> take filled buf' = take filled buf"
  using assms by (auto simp: vec_reserve_def)

lemma http_spec_Nil:
  assumes "httparse_stream_laws (se_httparse E)"
  shows "http_spec E [] st = ((st, Running), Some [])"
proof -
  have "parse_raw (se_http E) (se_httparse E) [] = Ok None"
    using assms by (auto simp: httparse_stream_laws_def parse_raw_def split: prod.splits)
  then show ?thesis by (simp add: http_spec_simp [OF assms] try_parse_request_def)
qed

lemma vec_parse_loop_agrees:
  assumes laws: "httparse_stream_laws (se_httparse E)"
  shows "filled \<le> length buf \<Longrightarrow> filled < fuel \<Longrightarrow> under_limit E (http_spec E (take filled buf) st) \<Longrightarrow>
    loop_agrees (vec_parse_loop fuel E (buf, filled) st) (http_spec E (take filled buf) st)"
proof (induction fuel arbitrary: buf filled st)
  case (Suc fuel)
  let ?b = "take filled buf"
  let ?parse = "try_parse_request (se_http E) (se_httparse E) ?b (se_body_limit E) (se_peer_addr E)"
  note spec = http_spec_simp [OF laws, of ?b st]
  show ?case
  proof (cases ?parse)
    case (Err e)
    with spec show ?thesis by (simp add: loop_agrees_def)
  next
    case (Ok x)
    show ?thesis
    proof (cases x)
      case None
      with Ok spec Suc.prems have "filled < se_body_limit E + DEFAULT_BUF_SIZE" by (simp add: under_limit_def)
      with vec_reserve_room [OF Suc.prems(1) this] Ok None spec show ?thesis
        by (auto simp: loop_agrees_def)
    next
      case (Some pr)
      let ?n = "pr_bytes_consumed pr"
      have n: "0 < ?n" "?n \<le> filled"
        using try_parse_request_consumed [of "se_httparse E" "se_http E" ?b] Ok Some laws Suc.prems(1)
        by (auto simp: httparse_stream_laws_def)
      show ?thesis
      proof (cases "\<exists>st'. execute_and_respond E pr st = Ok (st', KeepAlive)")
        case False
        with Ok Some spec show ?thesis
          by (auto simp: loop_agrees_def Let_def split: result.splits prod.splits request_outcome.splits)
      next
        case True
        then obtain st' where st': "execute_and_respond E pr st = Ok (st', KeepAlive)" by blast
        let ?buf = "splice 0 (slice buf ?n filled) buf"
        have rest: "take (filled - ?n) ?buf = drop ?n ?b"
          using n Suc.prems(1) by (intro shift_buffer) simp_all
        have spec': "http_spec E ?b st = http_spec E (drop ?n ?b) st'" using spec Ok Some st' by simp
        show ?thesis
        proof (cases "filled - ?n = 0")
          case True
          with n have "drop ?n ?b = []" by simp
          with True spec' Ok Some st' show ?thesis by (simp add: http_spec_Nil [OF laws] loop_agrees_def)
        next
          case False
          have "loop_agrees (vec_parse_loop fuel E (?buf, filled - ?n) st') (http_spec E (drop ?n ?b) st')"
            using Suc.IH [of "filled - ?n" ?buf st'] Suc.prems n rest spec'
            by (simp add: splice_def slice_def)
          with False spec' Ok Some st' show ?thesis by (simp add: Let_def)
        qed
      qed
    qed
  qed
qed simp

definition accum_bytes :: "(bytes \<times> nat) option \<Rightarrow> bytes" where
  "accum_bytes accum = (case accum of None \<Rightarrow> [] | Some (buf, filled) \<Rightarrow> take filled buf)"

definition accum_ok :: "('h, 'z, 'r) srv_env \<Rightarrow> (bytes \<times> nat) option \<Rightarrow> bool" where
  "accum_ok E accum \<longleftrightarrow>
     (case accum of None \<Rightarrow> True
      | Some (buf, filled) \<Rightarrow> filled \<le> length buf \<and> filled < se_body_limit E + DEFAULT_BUF_SIZE)"

text \<open>A read through the accumulation buffer.\<close>

lemma vec_read_loop_agrees:
  assumes laws: "httparse_stream_laws (se_httparse E)" and ok: "accum_ok E accum" and bs: "bs \<noteq> []"
    and lim: "under_limit E (http_spec E (accum_bytes accum @ bs) st)"
  shows "loop_agrees (vec_read_loop E (ReadOk bs) (case accum of Some a \<Rightarrow> a | None \<Rightarrow> fresh_accum) st)
    (http_spec E (accum_bytes accum @ bs) st)"
proof -
  obtain buf filled where a: "(case accum of Some a \<Rightarrow> a | None \<Rightarrow> fresh_accum) = (buf, filled)"
    "accum_bytes accum = take filled buf" "filled \<le> length buf" "filled < se_body_limit E + DEFAULT_BUF_SIZE"
    using ok by (cases accum) (auto simp: accum_ok_def accum_bytes_def fresh_accum_def DEFAULT_BUF_SIZE_def)
  then obtain buf' where buf': "vec_reserve E (buf, filled) = Some (buf', filled)" "filled \<le> length buf'"
    "take filled buf' = take filled buf"
    using vec_reserve_room by blast
  have b: "take (filled + length bs) (take filled buf' @ bs) = accum_bytes accum @ bs"
    using buf' a(2) by simp
  have len: "length (accum_bytes accum) = filled" using a(2,3) by simp
  have "loop_agrees (vec_parse_loop (Suc (filled + length bs)) E (take filled buf' @ bs, filled + length bs) st)
      (http_spec E (take (filled + length bs) (take filled buf' @ bs)) st)"
    by (rule vec_parse_loop_agrees [OF laws]) (use buf' lim a(2) len in simp_all)
  then show ?thesis using b bs buf'(1) by (simp add: vec_read_loop_def a(1) Let_def)
qed

lemma accum_ok_rest:
  assumes "filled \<le> length buf" and "take filled buf = r" and "under_limit E (s, Some r)"
  shows "accum_ok E (if filled = 0 then None else Some (buf, filled))"
    and "accum_bytes (if filled = 0 then None else Some (buf, filled)) = r"
  using assms by (auto simp: accum_ok_def accum_bytes_def under_limit_def)

definition session_result :: "('h, 'z, 'r) session \<Rightarrow> (('h, 'z, 'r) srv \<times> bool, srv_fault) result" where
  "session_result s =
     (case snd s of
        Faulted f \<Rightarrow> Err f
      | Upgraded \<Rightarrow> Ok (fst s, True)
      | _ \<Rightarrow> Ok (fst s, False))"

text \<open>On the accumulation path a step is one turn of the read loop; the specification of a longer input
  continues from what is left of the shorter one, and what is left is a fixed point.\<close>

lemma http_step_vec:
  assumes "is_tls (se_stream E) \<or> (\<forall>n. \<not> se_lease E n)"
  shows "http_step E (se_lease E n) e accum st =
    result_bind (vec_read_loop E e (case accum of Some a \<Rightarrow> a | None \<Rightarrow> fresh_accum) st)
      (\<lambda>(a, st', out). Ok (if snd a = 0 then None else Some a, st', out))"
  using assms by (auto simp: http_step_def)

lemma http_spec_append:
  assumes "httparse_stream_laws (se_httparse E)"
  shows "http_spec E (xs @ ys) st =
    (case http_spec E xs st of
       ((st', e), Some r) \<Rightarrow> http_spec E (r @ ys) st' | ((st', e), None) \<Rightarrow> ((st', e), None))"
  using incremental_parser.consume_append [OF http_incremental [OF assms], of "http_item E" http_bad xs ys "(st, Running)"]
    http_spec_state [of E xs st]
  by (auto simp: http_spec_def split: prod.splits option.splits)

lemma http_spec_rest:
  assumes "httparse_stream_laws (se_httparse E)" and "http_spec E xs st = (se, Some rest)"
  shows "http_spec E rest st' = ((st', Running), Some rest)"
proof -
  have "http_verdict E rest = NeedMore"
    using incremental_parser.consume_rest [OF http_incremental [OF assms(1)],
        of "http_item E" http_bad xs "(st, Running)" se rest] assms(2)
    by (simp add: http_spec_def)
  then show ?thesis unfolding http_spec_def by (subst consume.simps) simp
qed

lemma http_loop_spec:
  assumes laws: "httparse_stream_laws (se_httparse E)" and vec: "is_tls (se_stream E) \<or> (\<forall>n. \<not> se_lease E n)"
  shows "\<forall>c \<in> set cs. c \<noteq> [] \<Longrightarrow> accum_ok E accum \<Longrightarrow>
    http_spec E (accum_bytes accum) st = ((st, Running), Some (accum_bytes accum)) \<Longrightarrow>
    \<forall>k \<le> length cs. under_limit E (http_spec E (accum_bytes accum @ concat (take k cs)) st) \<Longrightarrow>
    map_result (\<lambda>(st', ws). (st', ws \<noteq> None)) id (http_loop E (map ReadOk cs) accum st) =
      session_result (fst (http_spec E (accum_bytes accum @ concat cs) st))"
proof (induction cs arbitrary: accum st)
  case Nil
  obtain buf filled where a: "(case accum of Some a \<Rightarrow> a | None \<Rightarrow> fresh_accum) = (buf, filled)"
    "filled \<le> length buf" "filled < se_body_limit E + DEFAULT_BUF_SIZE"
    using Nil.prems(2) by (cases accum) (auto simp: accum_ok_def fresh_accum_def DEFAULT_BUF_SIZE_def)
  from vec_reserve_room [OF a(2,3)] vec Nil.prems(3) show ?case
    by (auto simp: http_step_def vec_read_loop_def a(1) session_result_def)
next
  case (Cons c cs)
  let ?b = "accum_bytes accum"
  have lim: "under_limit E (http_spec E (?b @ c) st)" using Cons.prems(4) [rule_format, of 1] by simp
  have agree: "loop_agrees (vec_read_loop E (ReadOk c) (case accum of Some a \<Rightarrow> a | None \<Rightarrow> fresh_accum) st)
      (http_spec E (?b @ c) st)"
    using Cons.prems(1) by (intro vec_read_loop_agrees [OF laws Cons.prems(2) _ lim]) simp
  note step = http_step_vec [OF vec] and whole = http_spec_append [OF laws, of "?b @ c", unfolded append_assoc]
  show ?case
  proof (cases "http_spec E (?b @ c) st")
    case (Pair se r)
    obtain st' e where se: "se = (st', e)" by (cases se)
    show ?thesis
    proof (cases r)
      case None
      with agree step whole [of "concat cs"] Pair se show ?thesis
        by (auto simp: loop_agrees_def session_result_def split: session_end.splits)
    next
      case (Some rest)
      then have e: "e = Running" using http_spec_state Pair se by blast
      from Some e agree Pair se obtain buf filled where f: "filled \<le> length buf" "take filled buf = rest"
        "vec_read_loop E (ReadOk c) (case accum of Some a \<Rightarrow> a | None \<Rightarrow> fresh_accum) st =
           Ok ((buf, filled), st', LoopContinue)"
        by (auto simp: loop_agrees_def)
      let ?accum = "if filled = 0 then None else Some (buf, filled)"
      have ok: "accum_ok E ?accum" "accum_bytes ?accum = rest"
        using accum_ok_rest [OF f(1,2), of E se] lim Pair Some by simp_all
      have fixed: "http_spec E rest st' = ((st', Running), Some rest)"
        using http_spec_rest [OF laws, of "?b @ c" st se rest] Pair Some by simp
      have limits: "\<forall>k \<le> length cs. under_limit E (http_spec E (rest @ concat (take k cs)) st')"
      proof (intro allI impI)
        fix k assume "k \<le> length cs"
        with Cons.prems(4) [rule_format, of "Suc k"] whole [of "concat (take k cs)"] Pair se Some
        show "under_limit E (http_spec E (rest @ concat (take k cs)) st')" by simp
      qed
      have "map_result (\<lambda>(st', ws). (st', ws \<noteq> None)) id (http_loop E (map ReadOk cs) ?accum st') =
          session_result (fst (http_spec E (accum_bytes ?accum @ concat cs) st'))"
        by (rule Cons.IH) (use Cons.prems(1) ok fixed limits in simp_all)
      with step f(3) ok whole [of "concat cs"] Pair se Some show ?thesis
        by (simp add: id_def split del: if_split)
    qed
  qed
qed

section \<open>Termination\<close>

lemma execute_and_respond_fuel: "execute_and_respond E parsed st \<noteq> Err OutOfFuel"
proof -
  have w: "write_response x st \<noteq> Err OutOfFuel" for x st
    by (simp add: write_response_def split: option.splits prod.splits)
  have http: "respond_http E k c st \<noteq> Err OutOfFuel" for k c st
    using w by (auto simp: respond_http_def result_bind_Err_iff)
  have sse: "respond_sse E rx ka c st \<noteq> Err OutOfFuel" for rx ka c st
    using w by (auto simp: respond_sse_def result_bind_Err_iff)
  from http sse show ?thesis
    by (simp add: execute_and_respond_def Let_def split: prod.splits result.splits option.splits any_val.splits)
qed

text \<open>A buffer whose bytes lie inside it; every operation keeps it so.\<close>

definition accum_fits :: "bytes \<times> nat \<Rightarrow> bool" where
  "accum_fits a \<longleftrightarrow> snd a \<le> length (fst a)"

lemma vec_reserve_fits: "vec_reserve E a = Some a' \<Longrightarrow> accum_fits a \<Longrightarrow> accum_fits a'"
  by (auto simp: vec_reserve_def accum_fits_def split: prod.splits if_splits)

lemma vec_parse_loop_total:
  assumes laws: "httparse_stream_laws (se_httparse E)"
  shows "accum_fits a \<Longrightarrow> snd a < fuel \<Longrightarrow>
    vec_parse_loop fuel E a st \<noteq> Err OutOfFuel \<and>
    (\<forall>a' st' out. vec_parse_loop fuel E a st = Ok (a', st', out) \<longrightarrow> accum_fits a')"
proof (induction fuel arbitrary: a st)
  case (Suc fuel)
  obtain buf filled where a: "a = (buf, filled)" by (cases a)
  let ?parse = "try_parse_request (se_http E) (se_httparse E) (take filled buf) (se_body_limit E) (se_peer_addr E)"
  have fits: "filled \<le> length buf" using Suc.prems(1) by (simp add: a accum_fits_def)
  show ?case
  proof (cases "\<exists>pr st'. ?parse = Ok (Some pr) \<and> execute_and_respond E pr st = Ok (st', KeepAlive)")
    case False
    then show ?thesis
      using execute_and_respond_fuel [of E _ st] Suc.prems(1) vec_reserve_fits [of E a]
      by (auto simp: a Let_def split: result.splits option.splits prod.splits request_outcome.splits)
  next
    case True
    then obtain pr st' where pr: "?parse = Ok (Some pr)" "execute_and_respond E pr st = Ok (st', KeepAlive)" by blast
    let ?n = "pr_bytes_consumed pr"
    have n: "0 < ?n" "?n \<le> filled"
      using try_parse_request_consumed [of "se_httparse E" "se_http E" "take filled buf"] pr(1) laws fits
      by (auto simp: httparse_stream_laws_def)
    let ?a = "(splice 0 (slice buf ?n filled) buf, filled - ?n)"
    have "accum_fits ?a" using fits by (simp add: accum_fits_def splice_def slice_def)
    with Suc.IH [of ?a st'] Suc.prems(2) n pr show ?thesis by (auto simp: a Let_def)
  qed
qed simp

lemma http_step_total:
  assumes "httparse_stream_laws (se_httparse E)" and "\<forall>a. accum = Some a \<longrightarrow> accum_fits a"
  shows "http_step E lease e accum st \<noteq> Err OutOfFuel \<and>
    (\<forall>a st' out. http_step E lease e accum st = Ok (Some a, st', out) \<longrightarrow> accum_fits a)"
proof (cases "accum = None \<and> \<not> is_tls (se_stream E) \<and> lease")
  case True
  then show ?thesis
    using execute_and_respond_fuel [of E]
    by (auto simp: http_step_def lease_step_def leftover_accum_def accum_fits_def
        split: read_event.splits if_splits result.splits option.splits prod.splits request_outcome.splits)
next
  case False
  let ?a = "case accum of Some a \<Rightarrow> a | None \<Rightarrow> fresh_accum"
  have fits: "accum_fits ?a" using assms(2) by (auto simp: fresh_accum_def accum_fits_def split: option.splits)
  have "vec_read_loop E e ?a st \<noteq> Err OutOfFuel \<and>
      (\<forall>a st' out. vec_read_loop E e ?a st = Ok (a, st', out) \<longrightarrow> accum_fits a)"
  proof (cases "vec_reserve E ?a")
    case None
    with fits show ?thesis by (auto simp: vec_read_loop_def)
  next
    case (Some a')
    obtain buf filled where a': "a' = (buf, filled)" by (cases a')
    have fits': "filled \<le> length buf" using vec_reserve_fits [OF Some fits] by (simp add: a' accum_fits_def)
    have "accum_fits (take filled buf @ bs, filled + length bs)" for bs
      using fits' by (simp add: accum_fits_def)
    with vec_parse_loop_total [OF assms(1), of "(take filled buf @ bs, filled + length bs)" "Suc (filled + length bs)" for bs]
      Some a' fits' show ?thesis
      by (auto simp: vec_read_loop_def accum_fits_def Let_def simp del: vec_parse_loop.simps split: read_event.splits if_splits)
  qed
  with False show ?thesis
    by (cases "vec_read_loop E e ?a st") (auto simp: http_step_def split: if_splits)
qed

lemma http_loop_total:
  assumes "httparse_stream_laws (se_httparse E)"
  shows "\<forall>a. accum = Some a \<longrightarrow> accum_fits a \<Longrightarrow> http_loop E es accum st \<noteq> Err OutOfFuel"
proof (induction es arbitrary: accum st)
  case Nil
  with http_step_total [OF assms Nil] show ?case by (auto split: result.splits prod.splits)
next
  case (Cons e es)
  let ?s = "http_step E (se_lease E (Suc (length es))) e accum st"
  note step = http_step_total [OF assms Cons.prems, of "se_lease E (Suc (length es))" e st]
  show ?case
  proof (cases ?s)
    case (Err f)
    with step show ?thesis by auto
  next
    case (Ok x)
    obtain accum' st' out where x: "x = (accum', st', out)" by (cases x)
    have "\<forall>a. accum' = Some a \<longrightarrow> accum_fits a" using step Ok x by blast
    from Cons.IH [OF this, of st'] Ok x show ?thesis by (simp split: loop_outcome.splits)
  qed
qed

section \<open>Properties\<close>

text \<open>C3: The loops of a connection end: whatever is read, in whatever pieces, on the leased and on the
  accumulating path, no parse loop spins. Each turn consumes at least a byte of the buffer, so the
  turns allowed per read are always enough, and the connection returns or stops with a fault of the
  router or the serializer.\<close>

theorem handle_connection_terminates:
  assumes "httparse_stream_laws (se_httparse E)"
  shows "handle_connection E rx_open reads st \<noteq> Err OutOfFuel"
  using http_loop_total [OF assms, of None reads "st\<lparr>sv_mem := replicate 256 0\<rparr>"]
  by (auto simp: handle_connection_def Let_def result_bind_Err_iff split: option.splits prod.splits)

text \<open>C1: On a connection that reads through the accumulation buffer (TLS, or no lease available) the
  responses do not depend on how the input is cut into reads: as long as the unparsed remainder
  stays under the size limit, the connection ends exactly as executing the requests of the whole
  input in order, each once, until one of them ends it. In particular the parse loop never runs
  out of its fuel.\<close>

theorem http_connection_chunking:
  assumes "httparse_stream_laws (se_httparse E)" and "is_tls (se_stream E) \<or> (\<forall>n. \<not> se_lease E n)"
    and "\<forall>c \<in> set chunks. c \<noteq> []"
    and "\<forall>k \<le> length chunks. under_limit E (http_spec E (concat (take k chunks)) st)"
  shows "map_result (\<lambda>(st', ws). (st', ws \<noteq> None)) id (http_loop E (map ReadOk chunks) None st) =
    session_result (fst (http_spec E (concat chunks) st))"
  using http_loop_spec [OF assms(1,2,3), of None st] assms(4)
  by (simp add: accum_ok_def accum_bytes_def http_spec_Nil [OF assms(1)])

definition demo_env :: "bool \<Rightarrow> ((string \<times> bytes) list, unit, (string \<times> nat) list) srv_env" where
  "demo_env tls =
     \<lparr>se_http = list_http, se_httparse = demo_httparse ''GET'' [], se_matchit = list_matchit,
      se_error_handler = None, se_after_plugs = [], se_body_limit = 100, se_ws_config = False, se_runtime = 1,
      se_peer_addr = ''peer'', se_stream = (if tls then TlsStream 0 else PlainStream 0), se_fmt = (\<lambda>_. replicate 29 (CHR ''d'')), se_sys = (\<lambda>t. t),
      se_clock = (\<lambda>n. n), se_reserve = (\<lambda>mem n. mem @ replicate n 0), se_sha1 = (\<lambda>b. b), se_base64 = map char_of_u8,
      se_sse_events = (\<lambda>_. []), se_lease = (\<lambda>_. True)\<rparr>"

definition demo_srv :: "((string \<times> bytes) list, unit, (string \<times> nat) list) srv" where
  "demo_srv =
     \<lparr>sv_router = router_new, sv_date = \<lparr>cdl_wire = date_line (replicate 29 (CHR ''d'')), cdl_last_updated = 0\<rparr>,
      sv_dates = 0, sv_mem = replicate 256 0, sv_io = demo_io, sv_app = ()\<rparr>"

lemma under_limit_length:
  "length input < se_body_limit E + DEFAULT_BUF_SIZE \<Longrightarrow> under_limit E (http_spec E input st)"
  using consume_rest_le [of "http_verdict E" "http_item E" http_bad input "(st, Running)"]
  by (cases "http_spec E input st") (force simp: under_limit_def http_spec_def split: option.splits)

theorem http_connection_chunking_witness:
  "map_result (\<lambda>(st', ws). (st', ws \<noteq> None)) id (http_loop (demo_env True) [ReadOk [1, 2], ReadOk [3, 4]] None demo_srv) =
    session_result (fst (http_spec (demo_env True) [1, 2, 3, 4] demo_srv))"
proof -
  let ?cs = "[[1, 2], [3, 4]] :: bytes list"
  have "length (concat (take k ?cs)) \<le> length (concat ?cs)" for k
    by (metis append_take_drop_id concat_append le_add1 length_append)
  then have "under_limit (demo_env True) (http_spec (demo_env True) (concat (take k ?cs)) demo_srv)" for k
    by (intro under_limit_length, rule le_less_trans) (simp add: demo_env_def DEFAULT_BUF_SIZE_def)+
  then show ?thesis
    using http_connection_chunking [of "demo_env True" ?cs demo_srv] httparse_stream_laws_demo
    by (simp add: demo_env_def)
qed

subsection \<open>One request, one response\<close>

theorem handle_connection_terminates_witness:
  "handle_connection (demo_env False) (\<lambda>_. True) [ReadOk [1, 2, 3, 4, 5], ReadOk [6, 7]] demo_srv \<noteq> Err OutOfFuel"
  by (rule handle_connection_terminates) (simp add: httparse_stream_laws_demo demo_env_def)

text \<open>What the environment is relied on for: the crates' documented behaviour and an allocator that
  gives what is asked for.\<close>

definition env_laws :: "('h, 'z, 'r) srv_env \<Rightarrow> bool" where
  "env_laws E \<longleftrightarrow> hm_laws (se_http E) \<and> reason_laws (se_http E) \<and> imf_fixdate (se_fmt E) \<and>
     (\<forall>m n. n \<le> length (se_reserve E m n))"

lemma conn_extend_unit: "conn.extend c () = c"
  by (simp add: conn.defs)

lemma response_bytes_take_assign [simp]:
  "response_bytes H d (snd (take_assign k c)) ka = response_bytes H d c ka"
  by (simp add: response_bytes_def take_assign_def split: option.splits)

definition request_conn :: "('h, 'z, 'r) srv_env \<Rightarrow> 'h parsed_request \<Rightarrow> 'z \<Rightarrow> ('h, 'z) conn_scheme" where
  "request_conn E parsed app =
     conn.extend (if se_ws_config E then with_runtime (se_runtime E) (pr_conn parsed) else pr_conn parsed) app"

lemma execute_and_respond_http:
  assumes "env_laws E" and "date_inv (se_fmt E) (se_sys E) (sv_date st)"
    and "pr_ws_key parsed = None \<or> \<not> se_ws_config E"
    and "execute_request (se_matchit E) (se_error_handler E) (se_after_plugs E) (request_conn E parsed (sv_app st)) (sv_router st)
           = Ok (router', c)"
    and "get_assign SseStreamKey c = None" and "length (conn_resp_body c) < usize_card"
  shows "\<exists>st' date ok. execute_and_respond E parsed st =
      Ok (st', if ok \<and> pr_keep_alive parsed then KeepAlive else Close) \<and>
    ok = (\<not> io_fails (sv_io st) (length (io_out (sv_io st)))) \<and>
    io_out (sv_io st') = io_out (sv_io st) @ [(response_bytes (se_http E) date c (pr_keep_alive parsed), ok)] \<and>
    io_fails (sv_io st') = io_fails (sv_io st) \<and>
    sv_router st' = router' \<and> sv_app st' = conn.more c \<and> date_inv (se_fmt E) (se_sys E) (sv_date st')"
proof -
  obtain v c1 where take: "take_assign SseStreamKey c = (v, c1)" by (cases "take_assign SseStreamKey c")
  then have c1: "c1 = snd (take_assign SseStreamKey c)" by simp
  have v: "v = None" using take take_assign_get(1) [of SseStreamKey c] assms(5) by simp
  have "length (conn_resp_body c1) < usize_card"
    using assms(6) by (simp add: c1 take_assign_def split: option.splits)
  then obtain cdl where ser: "serialize_response_into (se_http E) (se_fmt E) (se_sys E) (se_clock E (sv_dates st))
      (se_reserve E) c1 (pr_keep_alive parsed) (sv_date st) (sv_mem st) =
      Some (cdl, response_bytes (se_http E) (date_line (se_fmt E (se_sys E (cdl_last_updated cdl)))) c (pr_keep_alive parsed))"
    "date_inv (se_fmt E) (se_sys E) cdl"
    using serialize_response_into_ok [of "se_http E" "se_fmt E" "se_sys E" "sv_date st" c1 "se_reserve E"]
      assms(1,2) by (fastforce simp: env_laws_def c1)
  have ws: "\<not> (pr_ws_key parsed \<noteq> None \<and> se_ws_config E)" using assms(3) by simp
  define ok where "ok = (\<not> io_fails (sv_io st) (length (io_out (sv_io st))))"
  define resp where "resp = response_bytes (se_http E) (date_line (se_fmt E (se_sys E (cdl_last_updated cdl)))) c (pr_keep_alive parsed)"
  define st' where "st' = st\<lparr>sv_router := router', sv_app := conn.more c, sv_date := cdl, sv_dates := Suc (sv_dates st), sv_mem := resp,
    sv_io := (sv_io st)\<lparr>io_out := io_out (sv_io st) @ [(resp, ok)]\<rparr>\<rparr>"
  have "execute_and_respond E parsed st = Ok (st', if ok \<and> pr_keep_alive parsed then KeepAlive else Close)"
    unfolding execute_and_respond_def if_not_P [OF ws] using ser(1) assms(4) take v
    by (simp add: request_conn_def respond_http_def write_response_def
        stream_write_all_def Let_def st'_def resp_def ok_def)
  moreover have "io_out (sv_io st') = io_out (sv_io st) @ [(resp, ok)]" "io_fails (sv_io st') = io_fails (sv_io st)"
    "sv_router st' = router'" "sv_app st' = conn.more c" "date_inv (se_fmt E) (se_sys E) (sv_date st')"
    using ser(2) by (simp_all add: st'_def)
  ultimately show ?thesis unfolding resp_def ok_def by blast
qed

text \<open>C2: A request that is neither a WebSocket upgrade nor an event stream is answered by exactly one
  write: the bytes of the response its handlers produced, with the requested connection header;
  the connection goes on exactly when the client asked for it and the write succeeded. Nothing
  panics and no write leaves its allocation.\<close>

theorem request_answered_once:
  assumes "env_laws E" and "date_inv (se_fmt E) (se_sys E) (sv_date st)"
    and "pr_ws_key parsed = None \<or> \<not> se_ws_config E"
    and "execute_request (se_matchit E) (se_error_handler E) (se_after_plugs E) (request_conn E parsed (sv_app st)) (sv_router st)
           = Ok (router', c)"
    and "get_assign SseStreamKey c = None" and "length (conn_resp_body c) < usize_card"
  shows "\<exists>st' date ok. execute_and_respond E parsed st =
      Ok (st', if ok \<and> pr_keep_alive parsed then KeepAlive else Close) \<and>
    ok = (\<not> io_fails (sv_io st) (length (io_out (sv_io st)))) \<and>
    io_out (sv_io st') = io_out (sv_io st) @ [(response_bytes (se_http E) date c (pr_keep_alive parsed), ok)] \<and>
    io_fails (sv_io st') = io_fails (sv_io st) \<and>
    sv_router st' = router' \<and> sv_app st' = conn.more c \<and> date_inv (se_fmt E) (se_sys E) (sv_date st')"
  using assms by (rule execute_and_respond_http)

definition demo_parsed :: "(string \<times> bytes) list parsed_request" where
  "demo_parsed = \<lparr>pr_conn = (conn_test list_http)\<lparr>conn_remote_addr := Some ''peer''\<rparr>, pr_keep_alive = True,
     pr_bytes_consumed = 4, pr_ws_key = None\<rparr>"

definition demo_answer :: "(string \<times> bytes) list conn" where
  "demo_answer = (conn_test list_http)\<lparr>conn_remote_addr := Some ''peer'', conn_status := 404,
     conn_resp_body := as_bytes ''Not Found''\<rparr>"

lemma env_laws_demo: "env_laws (demo_env tls)"
  by (simp add: env_laws_def demo_env_def hm_laws_list_http reason_laws_list_http imf_fixdate_def)

lemma demo_execute:
  "execute_request list_matchit None [] demo_parsed_conn router_new =
     Ok (router_new\<lparr>mr_compiled := Some (empty_routers list_matchit)\<rparr>,
       demo_parsed_conn\<lparr>conn_status := 404, conn_resp_body := as_bytes ''Not Found''\<rparr>)"
  if "conn_method demo_parsed_conn = GET"
  using that
  by (simp add: execute_request_def resolve_def get_or_compile_def compile_def router_new_def list_matchit_def
      list_at_def put_status_def put_resp_body_def)

lemma demo_srv_date: "date_inv (se_fmt (demo_env tls)) (se_sys (demo_env tls)) (sv_date demo_srv)"
  by (simp add: date_inv_def demo_env_def demo_srv_def)

lemma demo_env_simps [simp]:
  "se_http (demo_env tls) = list_http" "se_httparse (demo_env tls) = demo_httparse ''GET'' []"
  "se_matchit (demo_env tls) = list_matchit" "se_error_handler (demo_env tls) = None"
  "se_after_plugs (demo_env tls) = []" "se_body_limit (demo_env tls) = 100" "se_ws_config (demo_env tls) = False"
  "se_peer_addr (demo_env tls) = ''peer''" "is_tls (se_stream (demo_env tls)) = tls" "se_lease (demo_env tls) n = True"
  by (simp_all add: demo_env_def)

lemma demo_execute_parsed:
  "execute_request (se_matchit (demo_env False)) (se_error_handler (demo_env False)) (se_after_plugs (demo_env False))
      (request_conn (demo_env False) demo_parsed (sv_app demo_srv)) (sv_router demo_srv) =
      Ok (router_new\<lparr>mr_compiled := Some (empty_routers list_matchit)\<rparr>, demo_answer)"
proof -
  have "demo_answer = (pr_conn demo_parsed)\<lparr>conn_status := 404, conn_resp_body := as_bytes ''Not Found''\<rparr>"
    by (simp add: demo_answer_def demo_parsed_def)
  moreover have "conn_method (pr_conn demo_parsed) = GET"
    by (simp add: demo_parsed_def conn_test_def conn_new_def)
  ultimately show ?thesis
    using demo_execute [of "pr_conn demo_parsed"] by (simp add: demo_srv_def request_conn_def conn_extend_unit)
qed

lemma demo_answer_plain:
  "get_assign SseStreamKey demo_answer = None" "length (conn_resp_body demo_answer) < usize_card"
  by (simp_all add: demo_answer_def conn_test_def conn_new_def get_assign_def)

theorem request_answered_once_witness:
  "\<exists>st' date. execute_and_respond (demo_env False) demo_parsed demo_srv = Ok (st', KeepAlive) \<and>
     io_out (sv_io st') = [(response_bytes list_http date demo_answer True, True)]"
proof -
  have p: "pr_ws_key demo_parsed = None \<or> \<not> se_ws_config (demo_env False)" "pr_keep_alive demo_parsed"
    "\<not> io_fails (sv_io demo_srv) n" "io_out (sv_io demo_srv) = []" for n
    by (simp_all add: demo_parsed_def demo_srv_def)
  show ?thesis
    using request_answered_once [OF env_laws_demo demo_srv_date p(1) demo_execute_parsed demo_answer_plain] p(2-4)
    by auto
qed

text \<open>C40: A pipelined request is not answered: when a leased read holds a complete request and more
  bytes, only the first request is executed; what follows waits for a further read, and is dropped
  when the client has finished sending.\<close>

theorem leased_pipeline_dropped:
  assumes "\<not> is_tls (se_stream E)" and "\<forall>n. se_lease E n" and "bs \<noteq> []"
    and "try_parse_request (se_http E) (se_httparse E) bs (se_body_limit E) (se_peer_addr E) = Ok (Some parsed)"
    and "pr_bytes_consumed parsed < length bs" and "length bs < se_body_limit E + DEFAULT_BUF_SIZE"
    and "execute_and_respond E parsed st = Ok (st', KeepAlive)"
  shows "http_loop E [ReadOk bs] None st = Ok (st', None)"
proof -
  let ?rest = "drop (pr_bytes_consumed parsed) bs"
  obtain buf where buf: "leftover_accum ?rest = Some (buf, length ?rest)" "length ?rest \<le> length buf"
    using assms(5) by (auto simp: leftover_accum_def)
  have "length ?rest < se_body_limit E + DEFAULT_BUF_SIZE" using assms(6) by simp
  from vec_reserve_room [OF buf(2) this] buf assms show ?thesis
    by (auto simp: http_step_def lease_step_def vec_read_loop_def)
qed

theorem leased_pipeline_dropped_witness:
  "\<exists>st'. http_loop (demo_env False) [ReadOk [1, 2, 3, 4, 5, 6, 7, 8]] None demo_srv = Ok (st', None) \<and>
     length (io_out (sv_io st')) = 1 \<and>
     (\<exists>pr. try_parse_request list_http (demo_httparse ''GET'' []) [5, 6, 7, 8] 100 ''peer'' = Ok (Some pr))"
proof -
  have parse: "try_parse_request list_http (demo_httparse ''GET'' []) bs 100 ''peer'' = Ok (Some demo_parsed)"
    if "4 \<le> length bs" for bs
    using that
    by (simp add: try_parse_request_def parse_raw_def demo_httparse_def demo_request_def list_http_def
        finalize_body_and_keepalive_def body_length_def keep_alive_of_def build_header_map_def conn_new_def
        detect_ws_key_def demo_parsed_def conn_test_def Let_def)
  have p: "pr_ws_key demo_parsed = None \<or> \<not> se_ws_config (demo_env False)" "pr_keep_alive demo_parsed"
    "\<not> io_fails (sv_io demo_srv) n" "io_out (sv_io demo_srv) = []" "pr_bytes_consumed demo_parsed = 4" for n
    by (simp_all add: demo_parsed_def demo_srv_def)
  obtain st' where st': "execute_and_respond (demo_env False) demo_parsed demo_srv = Ok (st', KeepAlive)"
    "length (io_out (sv_io st')) = 1"
    using execute_and_respond_http [OF env_laws_demo demo_srv_date p(1) demo_execute_parsed demo_answer_plain] p(2-4)
    by auto
  have "http_loop (demo_env False) [ReadOk [1, 2, 3, 4, 5, 6, 7, 8]] None demo_srv = Ok (st', None)"
    by (rule leased_pipeline_dropped [OF _ _ _ _ _ _ st'(1)]) (simp_all add: parse p(5) DEFAULT_BUF_SIZE_def)
  with st'(2) parse [of "[5, 6, 7, 8]"] show ?thesis by auto
qed

end
