(* ===== verification/Mpsc.thy ===== *)
theory Mpsc
  imports Rust_Std
begin

text \<open>
  Unbounded channels (\<open>std::sync::mpsc\<close> and its single-threaded counterpart) as a store: a
  channel is known by a number, its contents are the messages sent and not yet received, and a send
  fails exactly when the receiver was dropped. Shared by the PubSub server, its bridge, the presence
  tracker and the channel server.
\<close>

record 'm chan =
  ch_queue :: "'m list"
  ch_open :: bool

type_synonym 'm chans = "nat \<Rightarrow> 'm chan"

definition chan_new :: "'m chan" where
  "chan_new = \<lparr>ch_queue = [], ch_open = True\<rparr>"

definition chan_send :: "nat \<Rightarrow> 'm \<Rightarrow> 'm chans \<Rightarrow> bool \<times> 'm chans" where
  "chan_send i m cs =
     (if ch_open (cs i) then (True, cs(i := (cs i)\<lparr>ch_queue := ch_queue (cs i) @ [m]\<rparr>)) else (False, cs))"

text \<open>Dropping the receiver.\<close>

definition chan_drop :: "nat \<Rightarrow> 'm chans \<Rightarrow> 'm chans" where
  "chan_drop i cs = cs(i := (cs i)\<lparr>ch_open := False\<rparr>)"

text \<open>\<open>senders.retain(|tx| tx.send(msg.clone()).is_ok())\<close>.\<close>

fun retain_send :: "nat list \<Rightarrow> 'm \<Rightarrow> 'm chans \<Rightarrow> nat list \<times> 'm chans" where
  "retain_send [] m cs = ([], cs)"
| "retain_send (i # is) m cs =
     (case chan_send i m cs of (ok, cs') \<Rightarrow>
        (case retain_send is m cs' of (js, cs'') \<Rightarrow> (if ok then i # js else js, cs'')))"

lemma chan_send_open [simp]: "ch_open (snd (chan_send i m cs) j) = ch_open (cs j)"
  by (simp add: chan_send_def)

lemma retain_send_fst: "fst (retain_send is m cs) = filter (\<lambda>i. ch_open (cs i)) is"
proof (induction "is" arbitrary: cs)
  case (Cons i "is")
  have "fst (retain_send (i # is) m cs) =
      (if ch_open (cs i) then [i] else []) @ fst (retain_send is m (snd (chan_send i m cs)))"
    by (simp add: chan_send_def split: prod.splits)
  with Cons.IH [of "snd (chan_send i m cs)"] show ?case by simp
qed simp

lemma retain_send_open [simp]: "ch_open (snd (retain_send is m cs) j) = ch_open (cs j)"
proof (induction "is" arbitrary: cs)
  case (Cons i "is")
  have "ch_open (snd (chan_send i m cs) j) = ch_open (cs j)" by simp
  with Cons.IH [of "snd (chan_send i m cs)"] show ?case by (auto split: prod.splits)
qed simp

lemma retain_send_other: "j \<notin> set is \<Longrightarrow> snd (retain_send is m cs) j = cs j"
proof (induction "is" arbitrary: cs)
  case (Cons i "is")
  from Cons.IH [of "snd (chan_send i m cs)"] Cons.prems show ?case
    by (auto simp: chan_send_def split: prod.splits)
qed simp

lemma retain_send_queue:
  "distinct is \<Longrightarrow> j \<in> set is \<Longrightarrow>
     ch_queue (snd (retain_send is m cs) j) = ch_queue (cs j) @ (if ch_open (cs j) then [m] else [])"
proof (induction "is" arbitrary: cs)
  case (Cons i "is")
  let ?cs = "snd (chan_send i m cs)"
  have step: "snd (retain_send (i # is) m cs) = snd (retain_send is m ?cs)"
    by (simp split: prod.splits)
  show ?case
  proof (cases "j = i")
    case True
    with Cons.prems have "snd (retain_send is m ?cs) j = ?cs j" by (intro retain_send_other) simp
    with True step show ?thesis by (simp add: chan_send_def)
  next
    case False
    with Cons.IH [of ?cs] Cons.prems step show ?thesis by (simp add: chan_send_def)
  qed
qed simp

end
