(* ===== verification/Mahalo_Presence.thy ===== *)
theory Mahalo_Presence
  imports Mpsc
begin

text \<open>
  Presence tracking, \<open>mahalo-presence/src/tracker.rs\<close> and \<open>presence.rs\<close>: the tracker task
  keeps a list of entries per topic, upserted by key, and sends a diff of every change to the
  topic's subscribers. The abstraction of a topic is a map from keys to entries
  (\<open>presence_map\<close>).
\<close>

section \<open>Definitions\<close>

record 'v presence_entry =
  pe_key :: string
  pe_meta :: 'v
  pe_node_id :: nat

record 'v presence_diff =
  pd_topic :: string
  pd_joins :: "'v presence_entry list"
  pd_leaves :: "'v presence_entry list"

datatype 'v tracker_command =
  Track string "'v presence_entry" | Untrack string string | ListEntries string | SubscribeDiff string | ShutdownTracker

record 'v tracker =
  pt_state :: "string \<rightharpoonup> 'v presence_entry list"
  pt_subscribers :: "string \<rightharpoonup> nat list"
  pt_chans :: "'v presence_diff chans"
  pt_next :: nat

definition tracker_init :: "'v tracker" where
  "tracker_init = \<lparr>pt_state = Map.empty, pt_subscribers = Map.empty, pt_chans = (\<lambda>_. chan_new), pt_next = 0\<rparr>"

text \<open>\<open>iter_mut().find(..)\<close> and \<open>position(..)\<close>: the first entry with the key.\<close>

fun upsert :: "'v presence_entry \<Rightarrow> 'v presence_entry list \<Rightarrow> 'v presence_entry list" where
  "upsert entry [] = [entry]"
| "upsert entry (e # es) = (if pe_key e = pe_key entry then entry # es else e # upsert entry es)"

fun remove_key :: "string \<Rightarrow> 'v presence_entry list \<Rightarrow> 'v presence_entry option \<times> 'v presence_entry list" where
  "remove_key key [] = (None, [])"
| "remove_key key (e # es) =
     (if pe_key e = key then (Some e, es)
      else case remove_key key es of (x, es') \<Rightarrow> (x, e # es'))"

definition notify_subscribers :: "string \<Rightarrow> 'v presence_diff \<Rightarrow> 'v tracker \<Rightarrow> 'v tracker" where
  "notify_subscribers topic diff st =
     (case pt_subscribers st topic of
        None \<Rightarrow> st
      | Some subs \<Rightarrow>
          (case retain_send subs diff (pt_chans st) of (kept, cs) \<Rightarrow>
             st\<lparr>pt_subscribers := (pt_subscribers st)(topic \<mapsto> kept), pt_chans := cs\<rparr>))"

definition entries_of :: "'v tracker \<Rightarrow> string \<Rightarrow> 'v presence_entry list" where
  "entries_of st topic = (case pt_state st topic of Some es \<Rightarrow> es | None \<Rightarrow> [])"

text \<open>The reply, if any, of a \<open>List\<close> command, and whether the task goes on. A diff subscription
  gets channel \<open>pt_next\<close>.\<close>

fun tracker_step ::
  "'v tracker_command \<Rightarrow> 'v tracker \<Rightarrow> 'v tracker \<times> 'v presence_entry list option \<times> bool" where
  "tracker_step (Track topic entry) st =
     (let st1 = st\<lparr>pt_state := (pt_state st)(topic \<mapsto> upsert entry (entries_of st topic))\<rparr>
      in (notify_subscribers topic \<lparr>pd_topic = topic, pd_joins = [entry], pd_leaves = []\<rparr> st1, None, True))"
| "tracker_step (Untrack topic key) st =
     (case pt_state st topic of
        None \<Rightarrow> (st, None, True)
      | Some entries \<Rightarrow>
          (case remove_key key entries of
             (None, _) \<Rightarrow> (st, None, True)
           | (Some e, rest) \<Rightarrow>
               (notify_subscribers topic \<lparr>pd_topic = topic, pd_joins = [], pd_leaves = [e]\<rparr>
                  (st\<lparr>pt_state := (pt_state st)(topic \<mapsto> rest)\<rparr>), None, True)))"
| "tracker_step (ListEntries topic) st = (st, Some (entries_of st topic), True)"
| "tracker_step (SubscribeDiff topic) st =
     (let i = pt_next st;
          subs = (case pt_subscribers st topic of Some l \<Rightarrow> l | None \<Rightarrow> [])
      in (st\<lparr>pt_subscribers := (pt_subscribers st)(topic \<mapsto> subs @ [i]),
             pt_chans := (pt_chans st)(i := chan_new), pt_next := Suc i\<rparr>, None, True))"
| "tracker_step ShutdownTracker st = (st, None, False)"

datatype 'v tracker_event = TCmd "'v tracker_command" | TDropReceiver nat

fun tracker_run :: "'v tracker_event list \<Rightarrow> 'v tracker \<Rightarrow> 'v tracker" where
  "tracker_run [] st = st"
| "tracker_run (TDropReceiver i # es) st = tracker_run es (st\<lparr>pt_chans := chan_drop i (pt_chans st)\<rparr>)"
| "tracker_run (TCmd cmd # es) st =
     (case tracker_step cmd st of (st', _, True) \<Rightarrow> tracker_run es st' | (st', _, False) \<Rightarrow> st')"

text \<open>The user's handle: commands carry the node's id.\<close>

definition presence_new :: "nat \<Rightarrow> nat \<times> 'v tracker" where
  "presence_new node_id = (node_id, tracker_init)"

definition presence_track :: "nat \<Rightarrow> string \<Rightarrow> string \<Rightarrow> 'v \<Rightarrow> 'v tracker_command" where
  "presence_track node_id topic key meta =
     Track topic \<lparr>pe_key = key, pe_meta = meta, pe_node_id = node_id\<rparr>"

definition presence_untrack :: "string \<Rightarrow> string \<Rightarrow> 'v tracker_command" where
  "presence_untrack topic key = Untrack topic key"

text \<open>\<open>reply_rx.await.unwrap_or_default()\<close>: empty when the tracker is gone.\<close>

definition presence_list :: "string \<Rightarrow> 'v tracker option \<Rightarrow> 'v presence_entry list" where
  "presence_list topic st =
     (case st of
        None \<Rightarrow> []
      | Some s \<Rightarrow> (case tracker_step (ListEntries topic) s of (_, Some es, _) \<Rightarrow> es | _ \<Rightarrow> []))"

text \<open>\<open>subscribe_diff\<close>: the channel the caller reads from; when the tracker is gone, one whose sender is
  dropped at once (\<open>None\<close>).\<close>

definition presence_subscribe_diff :: "string \<Rightarrow> 'v tracker option \<Rightarrow> nat option \<times> 'v tracker option" where
  "presence_subscribe_diff topic st =
     (case st of
        None \<Rightarrow> (None, None)
      | Some s \<Rightarrow> (case tracker_step (SubscribeDiff topic) s of (s', _) \<Rightarrow> (Some (pt_next s), Some s')))"

definition tracker_shutdown :: "'v tracker_command" where
  "tracker_shutdown = ShutdownTracker"

section \<open>Topics as maps\<close>

definition entry_map :: "'v presence_entry list \<Rightarrow> string \<rightharpoonup> 'v presence_entry" where
  "entry_map es = map_of (map (\<lambda>e. (pe_key e, e)) es)"

definition presence_map :: "'v tracker \<Rightarrow> string \<Rightarrow> string \<rightharpoonup> 'v presence_entry" where
  "presence_map st topic = entry_map (entries_of st topic)"

lemma upsert_map: "entry_map (upsert entry es) = (entry_map es)(pe_key entry \<mapsto> entry)"
  by (induction es) (auto simp: entry_map_def)

lemma upsert_keys: "set (map pe_key (upsert entry es)) = insert (pe_key entry) (set (map pe_key es))"
  by (induction es) auto

lemma upsert_distinct: "distinct (map pe_key es) \<Longrightarrow> distinct (map pe_key (upsert entry es))"
proof (induction es)
  case (Cons e es)
  then show ?case using upsert_keys [of entry es] by auto
qed simp

lemma remove_key_subset: "set (snd (remove_key k es)) \<subseteq> set es"
  by (induction es) (auto split: prod.splits)

lemma remove_key_distinct: "distinct (map pe_key es) \<Longrightarrow> distinct (map pe_key (snd (remove_key k es)))"
proof (induction es)
  case (Cons e es)
  with remove_key_subset [of k es] show ?case by (auto split: prod.splits)
qed simp

lemma entry_map_None: "k \<notin> set (map pe_key es) \<Longrightarrow> entry_map es k = None"
  by (induction es) (auto simp: entry_map_def)

lemma remove_key_map:
  "distinct (map pe_key es) \<Longrightarrow> entry_map (snd (remove_key k es)) = (entry_map es)(k := None)"
proof (induction es)
  case (Cons e es)
  have cons: "entry_map (e # es) = (entry_map es)(pe_key e \<mapsto> e)" for e and es :: "'a presence_entry list"
    by (simp add: entry_map_def)
  show ?case
  proof (cases "pe_key e = k")
    case True
    with Cons.prems have "entry_map es k = None" by (intro entry_map_None) auto
    with True show ?thesis by (auto simp: cons)
  next
    case False
    with Cons show ?thesis by (auto simp: cons fun_upd_twist split: prod.splits)
  qed
qed (simp add: entry_map_def)

lemma remove_key_fst: "fst (remove_key k es) = entry_map es k"
  by (induction es) (auto simp: entry_map_def split: prod.splits)

lemma remove_key_None: "fst (remove_key k es) = None \<Longrightarrow> snd (remove_key k es) = es"
  by (induction es) (auto split: prod.splits if_splits)

section \<open>The tracker's invariant\<close>

definition tracker_inv :: "'v tracker \<Rightarrow> bool" where
  "tracker_inv st \<longleftrightarrow>
     (\<forall>t. distinct (map pe_key (entries_of st t))) \<and>
     (\<forall>t l. pt_subscribers st t = Some l \<longrightarrow> distinct l \<and> (\<forall>i \<in> set l. i < pt_next st)) \<and>
     (\<forall>t t' l l'. pt_subscribers st t = Some l \<and> pt_subscribers st t' = Some l' \<and> t \<noteq> t' \<longrightarrow> set l \<inter> set l' = {})"

definition listening :: "nat \<Rightarrow> string \<Rightarrow> 'v tracker \<Rightarrow> bool" where
  "listening i t st \<longleftrightarrow> (\<exists>l. pt_subscribers st t = Some l \<and> i \<in> set l)"

lemma notify_fields [simp]:
  "pt_state (notify_subscribers t d st) = pt_state st" "pt_next (notify_subscribers t d st) = pt_next st"
  "entries_of (notify_subscribers t d st) t' = entries_of st t'"
  by (auto simp: notify_subscribers_def entries_of_def split: option.splits prod.splits)

lemma notify_subs:
  "pt_subscribers (notify_subscribers t d st) =
     (case pt_subscribers st t of None \<Rightarrow> pt_subscribers st
      | Some l \<Rightarrow> (pt_subscribers st)(t \<mapsto> filter (\<lambda>i. ch_open (pt_chans st i)) l))"
proof (cases "pt_subscribers st t")
  case (Some l)
  obtain kept cs where k: "retain_send l d (pt_chans st) = (kept, cs)" by (cases "retain_send l d (pt_chans st)")
  with retain_send_fst [of l d "pt_chans st"] Some show ?thesis by (simp add: notify_subscribers_def)
qed (simp add: notify_subscribers_def)

lemma notify_inv: "tracker_inv st \<Longrightarrow> tracker_inv (notify_subscribers t d st)"
  unfolding tracker_inv_def by (fastforce simp: notify_subs split: option.splits if_splits)

lemma notify_chan:
  assumes "tracker_inv st"
  shows "ch_queue (pt_chans (notify_subscribers t d st) i) =
      ch_queue (pt_chans st i) @ (if listening i t st \<and> ch_open (pt_chans st i) then [d] else [])"
    and "ch_open (pt_chans (notify_subscribers t d st) i) = ch_open (pt_chans st i)"
    and "ch_open (pt_chans st i) \<Longrightarrow> listening i t' (notify_subscribers t d st) = listening i t' st"
proof -
  show "ch_queue (pt_chans (notify_subscribers t d st) i) =
      ch_queue (pt_chans st i) @ (if listening i t st \<and> ch_open (pt_chans st i) then [d] else [])"
  proof (cases "pt_subscribers st t")
    case (Some l)
    then have "distinct l" using assms unfolding tracker_inv_def by blast
    obtain kept cs where k: "retain_send l d (pt_chans st) = (kept, cs)" by (cases "retain_send l d (pt_chans st)")
    have "i \<notin> set l \<Longrightarrow> cs i = pt_chans st i" using retain_send_other [of i l d "pt_chans st"] k by simp
    with retain_send_queue [OF \<open>distinct l\<close>, of i d "pt_chans st"] k Some show ?thesis
      by (cases "i \<in> set l") (auto simp: notify_subscribers_def listening_def)
  qed (simp add: notify_subscribers_def listening_def)
  show "ch_open (pt_chans (notify_subscribers t d st) i) = ch_open (pt_chans st i)"
  proof (cases "pt_subscribers st t")
    case (Some l)
    obtain kept cs where k: "retain_send l d (pt_chans st) = (kept, cs)" by (cases "retain_send l d (pt_chans st)")
    from retain_send_open [of l d "pt_chans st" i] Some show ?thesis
      by (simp only: k snd_conv) (simp add: notify_subscribers_def k)
  qed (simp add: notify_subscribers_def)
  show "ch_open (pt_chans st i) \<Longrightarrow> listening i t' (notify_subscribers t d st) = listening i t' st"
    by (auto simp: listening_def notify_subs split: option.splits if_splits)
qed

lemma tracker_step_inv: "tracker_inv st \<Longrightarrow> tracker_inv (fst (tracker_step cmd st))"
proof (cases cmd)
  case (Track t e)
  assume inv: "tracker_inv st"
  let ?st = "st\<lparr>pt_state := (pt_state st)(t \<mapsto> upsert e (entries_of st t))\<rparr>"
  have "entries_of ?st t' = (if t' = t then upsert e (entries_of st t) else entries_of st t')" for t'
    by (simp add: entries_of_def)
  with inv have "tracker_inv ?st" by (simp add: tracker_inv_def upsert_distinct)
  with Track show ?thesis by (simp add: notify_inv Let_def)
next
  case (Untrack t k)
  assume inv: "tracker_inv st"
  show ?thesis
  proof (cases "pt_state st t")
    case (Some es)
    let ?st = "st\<lparr>pt_state := (pt_state st)(t \<mapsto> snd (remove_key k es))\<rparr>"
    have "entries_of ?st t' = (if t' = t then snd (remove_key k (entries_of st t)) else entries_of st t')" for t'
      using Some by (simp add: entries_of_def)
    with inv have "tracker_inv ?st" by (simp add: tracker_inv_def remove_key_distinct)
    with inv Untrack Some show ?thesis by (auto simp: notify_inv split: prod.splits option.splits)
  qed (use inv Untrack in simp)
next
  case (SubscribeDiff t)
  then show "tracker_inv st \<Longrightarrow> ?thesis"
    unfolding tracker_inv_def by (fastforce simp: Let_def entries_of_def split: option.splits if_splits)
qed simp_all

lemma tracker_run_inv: "tracker_inv st \<Longrightarrow> tracker_inv (tracker_run es st)"
proof (induction es st rule: tracker_run.induct)
  case (2 i es st)
  have "tracker_inv (st\<lparr>pt_chans := chan_drop i (pt_chans st)\<rparr>)"
    using 2(2) by (simp add: tracker_inv_def entries_of_def)
  with 2(1) show ?case by simp
next
  case (3 cmd es st)
  have "tracker_inv (fst (tracker_step cmd st))" using 3(2) by (rule tracker_step_inv)
  with 3(1) show ?case by (auto split: prod.splits bool.splits)
qed simp

lemma tracker_inv_init: "tracker_inv tracker_init"
  by (simp add: tracker_inv_def tracker_init_def entries_of_def)

text \<open>What a command does to the entries of a topic.\<close>

fun entries_after :: "string \<Rightarrow> 'v tracker_command \<Rightarrow> 'v presence_entry list \<Rightarrow> 'v presence_entry list" where
  "entries_after t (Track t' e) es = (if t' = t then upsert e es else es)"
| "entries_after t (Untrack t' k) es = (if t' = t then snd (remove_key k es) else es)"
| "entries_after t _ es = es"

lemma tracker_step_entries: "entries_of (fst (tracker_step cmd st)) t = entries_after t cmd (entries_of st t)"
proof (cases cmd)
  case (Untrack t' k)
  then show ?thesis
    using remove_key_None [of k "entries_of st t'"]
    by (cases "pt_state st t'") (auto simp: entries_of_def split: prod.splits option.splits)
qed (auto simp: entries_of_def Let_def)

text \<open>What a command tells the subscribers of a topic.\<close>

fun diffs_after :: "string \<Rightarrow> 'v tracker_command \<Rightarrow> 'v presence_entry list \<Rightarrow> 'v presence_diff list" where
  "diffs_after t (Track t' e) es = (if t' = t then [\<lparr>pd_topic = t, pd_joins = [e], pd_leaves = []\<rparr>] else [])"
| "diffs_after t (Untrack t' k) es =
     (if t' = t then
        (case fst (remove_key k es) of Some e \<Rightarrow> [\<lparr>pd_topic = t, pd_joins = [], pd_leaves = [e]\<rparr>] | None \<Rightarrow> [])
      else [])"
| "diffs_after t _ es = []"

lemma listening_unique: "tracker_inv st \<Longrightarrow> listening i t st \<Longrightarrow> listening i t' st \<Longrightarrow> t' = t"
  unfolding listening_def tracker_inv_def by blast

lemma tracker_step_channel:
  assumes "tracker_inv st" and "listening i t st" and "ch_open (pt_chans st i)"
  shows "ch_queue (pt_chans (fst (tracker_step cmd st)) i) =
      ch_queue (pt_chans st i) @ diffs_after t cmd (entries_of st t)"
    and "listening i t (fst (tracker_step cmd st))" and "ch_open (pt_chans (fst (tracker_step cmd st)) i)"
proof -
  have lt: "i < pt_next st" using assms(1,2) unfolding listening_def tracker_inv_def by blast
  have other: "listening i t' st \<longleftrightarrow> t' = t" for t' using listening_unique [OF assms(1,2)] assms(2) by blast
  have "ch_queue (pt_chans (fst (tracker_step cmd st)) i) =
      ch_queue (pt_chans st i) @ diffs_after t cmd (entries_of st t) \<and>
    listening i t (fst (tracker_step cmd st)) \<and> ch_open (pt_chans (fst (tracker_step cmd st)) i)"
  proof (cases cmd)
    case (Track t' e)
    let ?st = "st\<lparr>pt_state := (pt_state st)(t' \<mapsto> upsert e (entries_of st t'))\<rparr>"
    have inv: "tracker_inv ?st"
      using assms(1) by (simp add: tracker_inv_def entries_of_def upsert_distinct)
    have "listening i u ?st = listening i u st" for u by (simp add: listening_def)
    with Track notify_chan [OF inv] assms other show ?thesis by (auto simp: Let_def)
  next
    case (Untrack t' k)
    show ?thesis
    proof (cases "pt_state st t'")
      case (Some es)
      let ?st = "st\<lparr>pt_state := (pt_state st)(t' \<mapsto> snd (remove_key k es))\<rparr>"
      have inv: "tracker_inv ?st"
        using assms(1) Some by (auto simp: tracker_inv_def entries_of_def intro!: remove_key_distinct) (metis option.simps(5))
      have l: "listening i u ?st = listening i u st" for u by (simp add: listening_def)
      show ?thesis
        using Untrack Some notify_chan [OF inv] assms other l
        by (auto simp: entries_of_def split: prod.splits option.splits)
    qed (use assms Untrack in \<open>auto simp: entries_of_def\<close>)
  next
    case (SubscribeDiff t')
    with assms lt show ?thesis by (auto simp: Let_def listening_def split: option.splits)
  qed (use assms in simp_all)
  then show "ch_queue (pt_chans (fst (tracker_step cmd st)) i) =
      ch_queue (pt_chans st i) @ diffs_after t cmd (entries_of st t)"
    and "listening i t (fst (tracker_step cmd st))" and "ch_open (pt_chans (fst (tracker_step cmd st)) i)"
    by blast+
qed

section \<open>Properties\<close>

text \<open>A topic is a map from keys to entries: tracking sets the key's entry, untracking removes it,
  other topics and other commands leave it alone, and in every reachable state no key is listed
  twice.\<close>

theorem presence_refines_map:
  assumes "st = tracker_run es tracker_init"
  shows "distinct (map pe_key (entries_of st t)) \<and>
    presence_map (fst (tracker_step (Track t e) st)) t = (presence_map st t)(pe_key e \<mapsto> e) \<and>
    presence_map (fst (tracker_step (Untrack t k) st)) t = (presence_map st t)(k := None) \<and>
    (t' \<noteq> t \<longrightarrow> presence_map (fst (tracker_step (Track t e) st)) t' = presence_map st t' \<and>
       presence_map (fst (tracker_step (Untrack t k) st)) t' = presence_map st t') \<and>
    presence_list t (Some st) = entries_of st t"
proof -
  have d: "distinct (map pe_key (entries_of st u))" for u
    using tracker_run_inv [OF tracker_inv_init, of es] assms by (simp add: tracker_inv_def)
  then show ?thesis
    by (simp add: presence_map_def tracker_step_entries upsert_map remove_key_map presence_list_def
        del: tracker_step.simps(1,2))
qed

theorem presence_refines_map_witness:
  "presence_map (fst (tracker_step (Untrack ''lobby'' ''bob'')
     (tracker_run [TCmd (presence_track 1 ''lobby'' ''bob'' (7 :: nat))] tracker_init))) ''lobby'' ''bob'' = None"
  using presence_refines_map [OF refl, of "[TCmd (presence_track 1 ''lobby'' ''bob'' (7 :: nat))]" "''lobby''"
      undefined "''bob''" "''other''"]
  by (simp del: tracker_step.simps tracker_run.simps)

text \<open>A subscriber's view: the diffs applied to what it knew.\<close>

definition apply_diff :: "'v presence_entry list \<Rightarrow> 'v presence_diff \<Rightarrow> 'v presence_entry list" where
  "apply_diff es d =
     fold upsert (pd_joins d) (fold (\<lambda>e es. snd (remove_key (pe_key e) es)) (pd_leaves d) es)"

lemma remove_key_pe_key: "fst (remove_key k es) = Some e \<Longrightarrow> pe_key e = k"
  by (induction es) (auto split: prod.splits if_splits)

lemma apply_diffs_after: "foldl apply_diff es (diffs_after t cmd es) = entries_after t cmd es"
proof (cases cmd)
  case (Untrack t' k)
  show ?thesis
  proof (cases "fst (remove_key k es)")
    case None
    with Untrack show ?thesis by (simp add: remove_key_None)
  next
    case (Some e)
    with Untrack show ?thesis by (simp add: apply_diff_def remove_key_pe_key)
  qed
qed (simp_all add: apply_diff_def)

lemma tracker_run_replay:
  "tracker_inv st \<Longrightarrow> listening i t st \<Longrightarrow> ch_open (pt_chans st i) \<Longrightarrow> TDropReceiver i \<notin> set es \<Longrightarrow>
     \<exists>ds. ch_queue (pt_chans (tracker_run es st) i) = ch_queue (pt_chans st i) @ ds \<and>
       entries_of (tracker_run es st) t = foldl apply_diff (entries_of st t) ds"
proof (induction es arbitrary: st)
  case (Cons e es)
  show ?case
  proof (cases e)
    case (TDropReceiver j)
    let ?st = "st\<lparr>pt_chans := chan_drop j (pt_chans st)\<rparr>"
    have "tracker_inv ?st" "listening i t ?st" "entries_of ?st t = entries_of st t"
      using Cons.prems by (simp_all add: tracker_inv_def listening_def entries_of_def)
    moreover have "pt_chans ?st i = pt_chans st i"
      using Cons.prems(4) TDropReceiver by (auto simp: chan_drop_def)
    ultimately show ?thesis using Cons.IH [of ?st] Cons.prems TDropReceiver by simp
  next
    case (TCmd cmd)
    let ?st = "fst (tracker_step cmd st)"
    note ch = tracker_step_channel [OF Cons.prems(1-3), of cmd]
    have inv: "tracker_inv ?st" using Cons.prems(1) by (rule tracker_step_inv)
    obtain ds where ds: "ch_queue (pt_chans (tracker_run es ?st) i) = ch_queue (pt_chans ?st i) @ ds"
      "entries_of (tracker_run es ?st) t = foldl apply_diff (entries_of ?st t) ds"
      using Cons.IH [OF inv ch(2,3)] Cons.prems(4) by auto
    have run: "tracker_run (e # es) st = (if cmd = ShutdownTracker then st else tracker_run es ?st)"
      using TCmd by (cases cmd) (auto simp: Let_def split: option.splits prod.splits)
    show ?thesis
    proof (cases "cmd = ShutdownTracker")
      case False
      then show ?thesis
        using run ds ch(1) apply_diffs_after [of "entries_of st t" t cmd]
        by (intro exI [of _ "diffs_after t cmd (entries_of st t) @ ds"]) (simp add: tracker_step_entries)
    qed (use run in simp)
  qed
qed simp

text \<open>C9: A subscriber that lists a topic when it subscribes and applies every diff it receives has
  the tracker's list at all times, including its order.\<close>

theorem presence_diffs_replay:
  assumes "st = tracker_run before tracker_init" and "TDropReceiver (pt_next st) \<notin> set after"
  shows "entries_of (tracker_run (TCmd (SubscribeDiff t) # after) st) t =
    foldl apply_diff (presence_list t (Some st))
      (ch_queue (pt_chans (tracker_run (TCmd (SubscribeDiff t) # after) st) (pt_next st)))"
proof -
  let ?st = "fst (tracker_step (SubscribeDiff t) st)"
  have inv: "tracker_inv ?st" using tracker_run_inv [OF tracker_inv_init] assms(1) by (intro tracker_step_inv) simp
  have sub: "listening (pt_next st) t ?st" "pt_chans ?st (pt_next st) = chan_new" "entries_of ?st t = entries_of st t"
    by (simp_all add: listening_def Let_def entries_of_def)
  have "tracker_run (TCmd (SubscribeDiff t) # after) st = tracker_run after ?st" by (simp add: Let_def)
  with tracker_run_replay [OF inv sub(1) _ assms(2)] sub show ?thesis
    by (auto simp: chan_new_def presence_list_def simp del: tracker_run.simps)
qed

theorem presence_diffs_replay_witness:
  "let st = tracker_run [TCmd (presence_track 1 ''t'' ''a'' (1 :: nat))] tracker_init;
       st' = tracker_run [TCmd (SubscribeDiff ''t''), TCmd (presence_track 1 ''t'' ''b'' 2), TCmd (Untrack ''t'' ''a'')] st
   in entries_of st' ''t'' = foldl apply_diff (presence_list ''t'' (Some st)) (ch_queue (pt_chans st' (pt_next st)))"
  unfolding Let_def
  by (rule presence_diffs_replay [OF refl]) (simp add: presence_track_def)

end
