(* ===== verification/Mahalo_PubSub.thy ===== *)
theory Mahalo_PubSub
  imports Mpsc
begin

text \<open>
  Topic-based publish/subscribe, \<open>mahalo-pubsub/src/pubsub.rs\<close>, and its bridge to peer nodes,
  \<open>bridge.rs\<close>. The server is a thread that handles commands in the order of its queue; the
  state is the topic table and the store of subscriber channels. Subscribers may drop their receiver
  at any point between commands. Payloads are of any type \<open>'v\<close>.
\<close>

section \<open>Definitions\<close>

record 'v pubsub_message =
  pm_topic :: string
  pm_event :: string
  pm_payload :: 'v

datatype 'v pubsub_command =
  Subscribe string | Broadcast string "'v pubsub_message" | Unsubscribe string | Shutdown

record 'v pubsub =
  ps_topics :: "string \<rightharpoonup> nat list"
  ps_chans :: "'v pubsub_message chans"
  ps_next :: nat

definition pubsub_init :: "'v pubsub" where
  "pubsub_init = \<lparr>ps_topics = Map.empty, ps_chans = (\<lambda>_. chan_new), ps_next = 0\<rparr>"

text \<open>The flag is the request to shut down. A new subscription gets channel \<open>ps_next\<close>.\<close>

fun handle_command :: "'v pubsub_command \<Rightarrow> 'v pubsub \<Rightarrow> 'v pubsub \<times> bool" where
  "handle_command (Subscribe topic) ps =
     (let i = ps_next ps;
          senders = (case ps_topics ps topic of Some l \<Rightarrow> l | None \<Rightarrow> [])
      in (ps\<lparr>ps_topics := (ps_topics ps)(topic \<mapsto> senders @ [i]),
             ps_chans := (ps_chans ps)(i := chan_new), ps_next := Suc i\<rparr>, False))"
| "handle_command (Broadcast topic msg) ps =
     (case ps_topics ps topic of
        None \<Rightarrow> (ps, False)
      | Some senders \<Rightarrow>
          (case retain_send senders msg (ps_chans ps) of (kept, cs) \<Rightarrow>
             (ps\<lparr>ps_topics := (if kept = [] then (ps_topics ps)(topic := None)
                               else (ps_topics ps)(topic \<mapsto> kept)),
                 ps_chans := cs\<rparr>, False)))"
| "handle_command (Unsubscribe topic) ps =
     (case ps_topics ps topic of
        None \<Rightarrow> (ps, False)
      | Some senders \<Rightarrow> (ps\<lparr>ps_topics := (ps_topics ps)(topic := None)\<rparr>, False))"
| "handle_command Shutdown ps = (ps, True)"

text \<open>The server loop over its command queue: what it returns with, and the commands left unread.
  The inner drain loop takes commands in the same order. Receivers are dropped between commands.\<close>

datatype 'v ps_event = Cmd "'v pubsub_command" | DropReceiver nat

fun run_server :: "'v ps_event list \<Rightarrow> 'v pubsub \<Rightarrow> 'v pubsub \<times> 'v ps_event list" where
  "run_server [] ps = (ps, [])"
| "run_server (DropReceiver i # es) ps = run_server es (ps\<lparr>ps_chans := chan_drop i (ps_chans ps)\<rparr>)"
| "run_server (Cmd cmd # es) ps =
     (case handle_command cmd ps of
        (ps', True) \<Rightarrow> (ps', es)
      | (ps', False) \<Rightarrow> run_server es ps')"

subsection \<open>Handles\<close>

text \<open>A handle sends commands; \<open>alive\<close> is whether the server still has its end of the queue.\<close>

record 'v server_queue =
  sq_alive :: bool
  sq_cmds :: "'v pubsub_command list"

text \<open>\<open>PubSub::start\<close>: the queue of a server that has just been started.\<close>

definition pubsub_start :: "'v server_queue" where
  "pubsub_start = \<lparr>sq_alive = True, sq_cmds = []\<rparr>"

text \<open>\<open>start_with_runtime\<close>: a process polls, every 10 ms, whether the server thread has finished or is
  gone. The result is the time it slept, \<open>None\<close> if the polls given were not enough.\<close>

datatype done_poll = DoneOk | DoneEmpty | DoneDisconnected

fun wait_done :: "done_poll list \<Rightarrow> nat option" where
  "wait_done [] = None"
| "wait_done (p # ps) = (if p = DoneEmpty then map_option (\<lambda>ms. ms + 10) (wait_done ps) else Some 0)"

lemma wait_done_eq:
  "wait_done ps = (if \<forall>p \<in> set ps. p = DoneEmpty then None else Some (10 * length (takeWhile (\<lambda>p. p = DoneEmpty) ps)))"
  by (induction ps) auto

definition cmd_send :: "'v pubsub_command \<Rightarrow> 'v server_queue \<Rightarrow> 'v server_queue" where
  "cmd_send cmd q = (if sq_alive q then q\<lparr>sq_cmds := sq_cmds q @ [cmd]\<rparr> else q)"

text \<open>\<open>None\<close> when the server is gone; otherwise the server replies with a receiver.\<close>

definition pubsub_subscribe :: "string \<Rightarrow> 'v server_queue \<Rightarrow> 'v server_queue \<times> bool" where
  "pubsub_subscribe topic q = (cmd_send (Subscribe topic) q, sq_alive q)"

definition broadcast_arc :: "string \<Rightarrow> string \<Rightarrow> 'v \<Rightarrow> 'v server_queue \<Rightarrow> 'v server_queue" where
  "broadcast_arc topic event payload q =
     (let msg = \<lparr>pm_topic = topic, pm_event = event, pm_payload = payload\<rparr>
      in cmd_send (Broadcast topic msg) q)"

definition pubsub_broadcast :: "string \<Rightarrow> string \<Rightarrow> 'v \<Rightarrow> 'v server_queue \<Rightarrow> 'v server_queue" where
  "pubsub_broadcast topic event payload q = broadcast_arc topic event payload q"

definition pubsub_unsubscribe :: "string \<Rightarrow> 'v server_queue \<Rightarrow> 'v server_queue" where
  "pubsub_unsubscribe topic q = cmd_send (Unsubscribe topic) q"

definition pubsub_shutdown :: "'v server_queue \<Rightarrow> 'v server_queue" where
  "pubsub_shutdown q = cmd_send Shutdown q"

text \<open>The supervised factory takes the receiver out of its cell; a second call panics.\<close>

definition supervised_factory :: "'q option \<Rightarrow> ('q, string) result \<times> 'q option" where
  "supervised_factory cell =
     (case cell of Some rx \<Rightarrow> (Ok rx, None) | None \<Rightarrow> (Err ''PubSub factory called twice'', None))"

subsection \<open>The bridge\<close>

record 'v dps =
  dp_local :: "'v server_queue"
  dp_peers :: "nat list"

definition dps_new :: "'v server_queue \<Rightarrow> 'v dps" where
  "dps_new local = \<lparr>dp_local = local, dp_peers = []\<rparr>"

definition dps_broadcast ::
  "string \<Rightarrow> string \<Rightarrow> 'v \<Rightarrow> 'v dps \<Rightarrow> 'v pubsub_message chans \<Rightarrow> 'v dps \<times> 'v pubsub_message chans" where
  "dps_broadcast topic event payload d cs =
     (let msg = \<lparr>pm_topic = topic, pm_event = event, pm_payload = payload\<rparr>;
          local = broadcast_arc topic (pm_event msg) (pm_payload msg) (dp_local d)
      in case retain_send (dp_peers d) msg cs of (peers, cs') \<Rightarrow> (d\<lparr>dp_local := local, dp_peers := peers\<rparr>, cs'))"

definition dps_subscribe :: "string \<Rightarrow> 'v dps \<Rightarrow> 'v dps \<times> bool" where
  "dps_subscribe topic d =
     (case pubsub_subscribe topic (dp_local d) of (q, ok) \<Rightarrow> (d\<lparr>dp_local := q\<rparr>, ok))"

definition dps_unsubscribe :: "string \<Rightarrow> 'v dps \<Rightarrow> 'v dps" where
  "dps_unsubscribe topic d = d\<lparr>dp_local := pubsub_unsubscribe topic (dp_local d)\<rparr>"

text \<open>\<open>peer_channel\<close>: the ends of a new channel, here both its number.\<close>

definition peer_channel :: "nat \<Rightarrow> 'v pubsub_message chans \<Rightarrow> (nat \<times> nat) \<times> 'v pubsub_message chans" where
  "peer_channel i cs = ((i, i), cs(i := chan_new))"

definition add_peer :: "nat \<Rightarrow> 'v dps \<Rightarrow> 'v dps" where
  "add_peer sender d = d\<lparr>dp_peers := dp_peers d @ [sender]\<rparr>"

text \<open>The relay thread: it drains the peer channel into the local PubSub.\<close>

fun relay :: "'v pubsub_message list \<Rightarrow> 'v server_queue \<Rightarrow> 'v server_queue" where
  "relay [] q = q"
| "relay (msg # msgs) q = relay msgs (broadcast_arc (pm_topic msg) (pm_event msg) (pm_payload msg) q)"

section \<open>The invariant of the topic table\<close>

text \<open>No topic without subscribers, no channel registered twice, all channels allocated.\<close>

definition ps_inv :: "'v pubsub \<Rightarrow> bool" where
  "ps_inv ps \<longleftrightarrow>
     (\<forall>t l. ps_topics ps t = Some l \<longrightarrow> l \<noteq> [] \<and> distinct l \<and> (\<forall>i \<in> set l. i < ps_next ps)) \<and>
     (\<forall>t t' l l'. ps_topics ps t = Some l \<and> ps_topics ps t' = Some l' \<and> t \<noteq> t' \<longrightarrow> set l \<inter> set l' = {})"

lemma ps_invD:
  assumes "ps_inv ps" and "ps_topics ps t = Some l"
  shows "l \<noteq> []" and "distinct l" and "i \<in> set l \<Longrightarrow> i < ps_next ps"
    and "ps_topics ps t' = Some l' \<Longrightarrow> t' \<noteq> t \<Longrightarrow> set l' \<inter> set l = {}"
  using assms unfolding ps_inv_def by blast+

lemma ps_inv_init: "ps_inv pubsub_init"
  by (simp add: ps_inv_def pubsub_init_def)

lemma ps_inv_subscribe: "ps_inv ps \<Longrightarrow> ps_inv (fst (handle_command (Subscribe t) ps))"
  unfolding ps_inv_def by (fastforce simp: Let_def split: option.splits if_splits)

lemma ps_inv_shrink:
  assumes "ps_inv ps" and "\<And>t' l'. tps t' = Some l' \<Longrightarrow> \<exists>l. ps_topics ps t' = Some l \<and> set l' \<subseteq> set l \<and> distinct l' \<and> l' \<noteq> []"
  shows "ps_inv (ps\<lparr>ps_topics := tps, ps_chans := cs\<rparr>)"
  using assms(1) unfolding ps_inv_def by simp (meson assms(2) disjoint_iff subset_iff)

lemma ps_inv_handle: "ps_inv ps \<Longrightarrow> ps_inv (fst (handle_command cmd ps))"
proof (cases cmd)
  case (Subscribe t)
  then show "ps_inv ps \<Longrightarrow> ?thesis" using ps_inv_subscribe by simp
next
  case (Broadcast t m)
  assume inv: "ps_inv ps"
  show ?thesis
  proof (cases "ps_topics ps t")
    case (Some l)
    obtain kept cs where k: "retain_send l m (ps_chans ps) = (kept, cs)"
      by (cases "retain_send l m (ps_chans ps)")
    then have kept: "kept = filter (\<lambda>i. ch_open (ps_chans ps i)) l"
      using retain_send_fst [of l m "ps_chans ps"] by simp
    have "ps_inv (ps\<lparr>ps_topics := (if kept = [] then (ps_topics ps)(t := None) else (ps_topics ps)(t \<mapsto> kept)),
        ps_chans := cs\<rparr>)"
      by (rule ps_inv_shrink [OF inv])
        (use inv Some kept in \<open>auto simp: ps_invD(1,2) split: if_splits\<close>)
    with Broadcast Some k show ?thesis by simp
  qed (use inv Broadcast in simp)
next
  case (Unsubscribe t)
  assume inv: "ps_inv ps"
  then have "ps_inv (ps\<lparr>ps_topics := (ps_topics ps)(t := None), ps_chans := ps_chans ps\<rparr>)"
    by (rule ps_inv_shrink) (use inv in \<open>auto simp: ps_invD(1,2) split: if_splits\<close>)
  with inv Unsubscribe show ?thesis by (simp split: option.splits)
next
  case Shutdown
  then show "ps_inv ps \<Longrightarrow> ?thesis" by simp
qed

lemma ps_inv_run: "ps_inv ps \<Longrightarrow> ps_inv (fst (run_server es ps))"
proof (induction es ps rule: run_server.induct)
  case (2 i es ps)
  have "ps_inv (ps\<lparr>ps_chans := chan_drop i (ps_chans ps)\<rparr>)" using 2(2) by (simp add: ps_inv_def)
  with 2(1) show ?case by simp
next
  case (3 cmd es ps)
  have "ps_inv (fst (handle_command cmd ps))" using 3(2) by (rule ps_inv_handle)
  with 3(1) show ?case by (auto split: prod.splits bool.splits)
qed simp

section \<open>Delivery\<close>

text \<open>What a subscriber of \<open>t\<close> is sent from now on: the broadcasts to \<open>t\<close>, in order, up to
  the first unsubscribe from \<open>t\<close> or the shutdown.\<close>

fun expected :: "string \<Rightarrow> 'v ps_event list \<Rightarrow> 'v pubsub_message list" where
  "expected t [] = []"
| "expected t (DropReceiver i # es) = expected t es"
| "expected t (Cmd (Subscribe t') # es) = expected t es"
| "expected t (Cmd (Broadcast t' m) # es) = (if t' = t then [m] else []) @ expected t es"
| "expected t (Cmd (Unsubscribe t') # es) = (if t' = t then [] else expected t es)"
| "expected t (Cmd Shutdown # es) = []"

definition subscribed :: "nat \<Rightarrow> string \<Rightarrow> 'v pubsub \<Rightarrow> bool" where
  "subscribed i t ps \<longleftrightarrow> (\<exists>l. ps_topics ps t = Some l \<and> i \<in> set l)"

lemma subscribed_unique: "ps_inv ps \<Longrightarrow> subscribed i t ps \<Longrightarrow> subscribed i t' ps \<Longrightarrow> t' = t"
  unfolding subscribed_def using ps_invD(4) by blast

text \<open>One command, seen from channel \<open>i\<close>.\<close>

lemma broadcast_channel:
  assumes "ps_inv ps"
  shows "ch_queue (ps_chans (fst (handle_command (Broadcast t m) ps)) i) =
      ch_queue (ps_chans ps i) @ (if subscribed i t ps \<and> ch_open (ps_chans ps i) then [m] else [])"
    and "ch_open (ps_chans (fst (handle_command (Broadcast t m) ps)) i) = ch_open (ps_chans ps i)"
    and "subscribed i t' (fst (handle_command (Broadcast t m) ps)) \<longleftrightarrow>
      subscribed i t' ps \<and> (t' = t \<longrightarrow> ch_open (ps_chans ps i))"
    and "ps_next (fst (handle_command (Broadcast t m) ps)) = ps_next ps"
proof -
  show "ch_queue (ps_chans (fst (handle_command (Broadcast t m) ps)) i) =
      ch_queue (ps_chans ps i) @ (if subscribed i t ps \<and> ch_open (ps_chans ps i) then [m] else [])"
  proof (cases "ps_topics ps t")
    case (Some l)
    have "snd (retain_send l m (ps_chans ps)) i = ps_chans ps i" if "i \<notin> set l"
      using that by (rule retain_send_other)
    with Some retain_send_queue [of l i m "ps_chans ps"] ps_invD(2) [OF assms Some] show ?thesis
      by (cases "i \<in> set l") (auto simp: subscribed_def split: prod.splits)
  qed (simp add: subscribed_def)
  show "ch_open (ps_chans (fst (handle_command (Broadcast t m) ps)) i) = ch_open (ps_chans ps i)"
  proof (cases "ps_topics ps t")
    case (Some l)
    obtain kept cs where k: "retain_send l m (ps_chans ps) = (kept, cs)"
      by (cases "retain_send l m (ps_chans ps)")
    from retain_send_open [of l m "ps_chans ps" i] Some show ?thesis by (simp only: k snd_conv) (simp add: k)
  qed simp
  show "subscribed i t' (fst (handle_command (Broadcast t m) ps)) \<longleftrightarrow>
      subscribed i t' ps \<and> (t' = t \<longrightarrow> ch_open (ps_chans ps i))"
  proof (cases "ps_topics ps t")
    case (Some l)
    obtain kept cs where k: "retain_send l m (ps_chans ps) = (kept, cs)"
      by (cases "retain_send l m (ps_chans ps)")
    then have "set kept = {i \<in> set l. ch_open (ps_chans ps i)}"
      using retain_send_fst [of l m "ps_chans ps"] by simp
    with Some k show ?thesis by (cases "kept = []") (auto simp: subscribed_def)
  qed (auto simp: subscribed_def)
  show "ps_next (fst (handle_command (Broadcast t m) ps)) = ps_next ps"
    by (auto split: option.splits prod.splits)
qed

lemma subscribe_channel:
  assumes "i < ps_next ps"
  shows "ps_chans (fst (handle_command (Subscribe t) ps)) i = ps_chans ps i"
    and "subscribed i t' (fst (handle_command (Subscribe t) ps)) \<longleftrightarrow> subscribed i t' ps"
    and "ps_next (fst (handle_command (Subscribe t) ps)) = Suc (ps_next ps)"
  using assms by (cases "ps_topics ps t"; auto simp: subscribed_def Let_def)+

lemma unsubscribe_channel:
  "ps_chans (fst (handle_command (Unsubscribe t) ps)) = ps_chans ps"
  "subscribed i t' (fst (handle_command (Unsubscribe t) ps)) \<longleftrightarrow> subscribed i t' ps \<and> t' \<noteq> t"
  "ps_next (fst (handle_command (Unsubscribe t) ps)) = ps_next ps"
  by (auto simp: subscribed_def split: option.splits)

lemma run_server_Cmd:
  "cmd \<noteq> Shutdown \<Longrightarrow> run_server (Cmd cmd # es) ps = run_server es (fst (handle_command cmd ps))"
  by (cases cmd) (auto simp: Let_def split: option.splits prod.splits)

lemmas channel_simps = broadcast_channel subscribe_channel unsubscribe_channel

lemma run_server_deliver:
  assumes "ps_inv ps" and "i < ps_next ps" and "DropReceiver i \<notin> set es" and "ch_open (ps_chans ps i)"
  shows "(\<forall>t. \<not> subscribed i t ps) \<Longrightarrow> ch_queue (ps_chans (fst (run_server es ps)) i) = ch_queue (ps_chans ps i)"
    and "subscribed i t ps \<Longrightarrow> ch_queue (ps_chans (fst (run_server es ps)) i) = ch_queue (ps_chans ps i) @ expected t es"
proof -
  have "((\<forall>t. \<not> subscribed i t ps) \<longrightarrow> ch_queue (ps_chans (fst (run_server es ps)) i) = ch_queue (ps_chans ps i)) \<and>
    (subscribed i t ps \<longrightarrow> ch_queue (ps_chans (fst (run_server es ps)) i) = ch_queue (ps_chans ps i) @ expected t es)"
    using assms
  proof (induction es arbitrary: ps)
    case (Cons e es)
    show ?case
    proof (cases e)
      case (DropReceiver j)
      let ?ps = "ps\<lparr>ps_chans := chan_drop j (ps_chans ps)\<rparr>"
      have "j \<noteq> i" using Cons.prems(3) DropReceiver by auto
      then have "ps_chans ?ps i = ps_chans ps i" "subscribed i t' ?ps = subscribed i t' ps" for t'
        by (simp_all add: chan_drop_def subscribed_def)
      moreover have "ps_inv ?ps" using Cons.prems(1) by (simp add: ps_inv_def)
      ultimately show ?thesis using Cons.IH [of ?ps] Cons.prems DropReceiver by simp
    next
      case (Cmd cmd)
      let ?ps = "fst (handle_command cmd ps)"
      have inv: "ps_inv ?ps" using Cons.prems(1) by (rule ps_inv_handle)
      show ?thesis
      proof (cases cmd)
        case (Subscribe t')
        with Cons.IH [OF inv] Cons.prems Cmd show ?thesis
          by (simp add: run_server_Cmd subscribe_channel [OF Cons.prems(2)] del: handle_command.simps run_server.simps(3))
      next
        case (Broadcast t' m)
        have "subscribed i t ps \<Longrightarrow> subscribed i t' ps \<longleftrightarrow> t' = t"
          using subscribed_unique [OF Cons.prems(1)] by blast
        with Broadcast Cons.IH [OF inv] Cons.prems Cmd show ?thesis
          by (auto simp: run_server_Cmd broadcast_channel [OF Cons.prems(1)] simp del: handle_command.simps run_server.simps(3))
      next
        case (Unsubscribe t')
        have "subscribed i t ps \<Longrightarrow> t' = t \<Longrightarrow> \<forall>u. \<not> subscribed i u ?ps"
          using subscribed_unique [OF Cons.prems(1)] Unsubscribe
          by (auto simp: unsubscribe_channel simp del: handle_command.simps run_server.simps(3))
        with Unsubscribe Cons.IH [OF inv] Cons.prems Cmd show ?thesis
          by (auto simp: run_server_Cmd unsubscribe_channel simp del: handle_command.simps run_server.simps(3))
      next
        case Shutdown
        with Cmd show ?thesis by simp
      qed
    qed
  qed simp
  then show "(\<forall>t. \<not> subscribed i t ps) \<Longrightarrow> ch_queue (ps_chans (fst (run_server es ps)) i) = ch_queue (ps_chans ps i)"
    and "subscribed i t ps \<Longrightarrow> ch_queue (ps_chans (fst (run_server es ps)) i) = ch_queue (ps_chans ps i) @ expected t es"
    by blast+
qed

lemma new_subscriber_queue:
  assumes "ps_inv ps" and "DropReceiver (ps_next ps) \<notin> set after"
  shows "ch_queue (ps_chans (fst (run_server (Cmd (Subscribe t) # after) ps)) (ps_next ps)) = expected t after"
proof -
  let ?ps = "fst (handle_command (Subscribe t) ps)"
  have inv: "ps_inv ?ps" using assms(1) by (rule ps_inv_handle)
  have "subscribed (ps_next ps) t ?ps" "ps_next ps < ps_next ?ps" "ps_chans ?ps (ps_next ps) = chan_new"
    by (simp_all add: subscribed_def Let_def)
  with run_server_deliver(2) [OF inv _ assms(2), of t] show ?thesis
    by (simp add: run_server_Cmd chan_new_def del: run_server.simps(3) handle_command.simps)
qed

section \<open>Properties\<close>

text \<open>C7: Whatever commands were handled before, a new subscriber of a topic that keeps its receiver is
  sent exactly the broadcasts to that topic, each once and in order, up to the first unsubscribe
  from the topic (by anyone) or the shutdown.\<close>

theorem pubsub_delivery:
  assumes "ps = fst (run_server before pubsub_init)" and "DropReceiver (ps_next ps) \<notin> set after"
  shows "ch_queue (ps_chans (fst (run_server (Cmd (Subscribe t) # after) ps)) (ps_next ps)) = expected t after"
  by (rule new_subscriber_queue [OF _ assms(2)]) (simp add: assms(1) ps_inv_run ps_inv_init)

theorem pubsub_delivery_witness:
  "map pm_event (ch_queue (ps_chans (fst (run_server
     [Cmd (Subscribe ''a''), Cmd (Broadcast ''a'' \<lparr>pm_topic = ''a'', pm_event = ''one'', pm_payload = (1 :: nat)\<rparr>),
      Cmd (Broadcast ''b'' \<lparr>pm_topic = ''b'', pm_event = ''no'', pm_payload = 2\<rparr>), Cmd (Unsubscribe ''a''),
      Cmd (Broadcast ''a'' \<lparr>pm_topic = ''a'', pm_event = ''late'', pm_payload = 3\<rparr>)] pubsub_init)) 0)) = [''one'']"
proof -
  have "ps_next (pubsub_init :: nat pubsub) = 0" "(pubsub_init :: nat pubsub) = fst (run_server [] pubsub_init)" by (simp_all add: pubsub_init_def)
  then show ?thesis
    using pubsub_delivery [of pubsub_init "[]"
      "[Cmd (Broadcast ''a'' \<lparr>pm_topic = ''a'', pm_event = ''one'', pm_payload = (1 :: nat)\<rparr>),
      Cmd (Broadcast ''b'' \<lparr>pm_topic = ''b'', pm_event = ''no'', pm_payload = 2\<rparr>), Cmd (Unsubscribe ''a''),
      Cmd (Broadcast ''a'' \<lparr>pm_topic = ''a'', pm_event = ''late'', pm_payload = 3\<rparr>)]" "''a''"]
    by (simp del: run_server.simps)
qed

text \<open>In every state the server reaches, a topic in the table has at least one subscriber, no
  subscriber is registered twice, and no channel belongs to two topics.\<close>

theorem pubsub_table_invariant:
  assumes "ps_topics (fst (run_server es pubsub_init)) t = Some senders"
  shows "senders \<noteq> [] \<and> distinct senders \<and>
    (\<forall>t' senders'. ps_topics (fst (run_server es pubsub_init)) t' = Some senders' \<and> t' \<noteq> t \<longrightarrow>
       set senders' \<inter> set senders = {})"
  using ps_invD [OF ps_inv_run [OF ps_inv_init] assms] by blast

theorem pubsub_table_invariant_witness:
  "[0 :: nat] \<noteq> [] \<and> ps_topics (fst (run_server [Cmd (Subscribe ''a'')] (pubsub_init :: nat pubsub))) ''a'' = Some [0]"
proof -
  have h: "ps_topics (fst (run_server [Cmd (Subscribe ''a'')] (pubsub_init :: nat pubsub))) ''a'' = Some [0]"
    by (simp add: pubsub_init_def)
  from pubsub_table_invariant [OF h] h show ?thesis by simp
qed

text \<open>A distributed broadcast reaches every node once: the local server gets the command, each
  connected peer's channel gets the message (closed peers are forgotten), and the relay on the
  peer's side turns it into the same local broadcast without forwarding it again.\<close>

theorem dps_broadcast_fans_out:
  assumes "distinct (dp_peers d)" and "dps_broadcast topic event payload d cs = (d', cs')"
  shows "dp_local d' = broadcast_arc topic event payload (dp_local d) \<and>
    dp_peers d' = filter (\<lambda>p. ch_open (cs p)) (dp_peers d) \<and>
    (\<forall>p. ch_queue (cs' p) = ch_queue (cs p) @
       (if p \<in> set (dp_peers d') then [\<lparr>pm_topic = topic, pm_event = event, pm_payload = payload\<rparr>] else [])) \<and>
    (\<forall>p q. relay (ch_queue (cs' p)) q =
       (if p \<in> set (dp_peers d') then broadcast_arc topic event payload (relay (ch_queue (cs p)) q)
        else relay (ch_queue (cs p)) q))"
proof -
  let ?m = "\<lparr>pm_topic = topic, pm_event = event, pm_payload = payload\<rparr>"
  have d': "dp_local d' = broadcast_arc topic event payload (dp_local d)"
    "dp_peers d' = fst (retain_send (dp_peers d) ?m cs)" "cs' = snd (retain_send (dp_peers d) ?m cs)"
    using assms(2) by (auto simp: dps_broadcast_def Let_def split: prod.splits)
  have peers: "dp_peers d' = filter (\<lambda>p. ch_open (cs p)) (dp_peers d)" using d'(2) by (simp add: retain_send_fst)
  have queue: "ch_queue (cs' p) = ch_queue (cs p) @ (if p \<in> set (dp_peers d') then [?m] else [])" for p
    using retain_send_queue [OF assms(1), of p ?m cs] retain_send_other [of p "dp_peers d" ?m cs]
    by (cases "p \<in> set (dp_peers d)") (auto simp: d'(3) peers)
  have "relay (xs @ [?m]) q = broadcast_arc topic event payload (relay xs q)" for xs q
    by (induction xs arbitrary: q) simp_all
  with d'(1) peers queue show ?thesis by auto
qed

theorem dps_broadcast_fans_out_witness:
  "\<exists>d' cs'. dps_broadcast ''t'' ''e'' (1 :: nat)
     (add_peer 7 (add_peer 3 (dps_new \<lparr>sq_alive = True, sq_cmds = []\<rparr>))) (chan_drop 3 (\<lambda>_. chan_new)) = (d', cs') \<and>
   dp_peers d' = [7] \<and> map pm_event (ch_queue (cs' 7)) = [''e'']"
proof -
  let ?d = "add_peer 7 (add_peer 3 (dps_new \<lparr>sq_alive = True, sq_cmds = []\<rparr>)) :: nat dps"
  let ?cs = "chan_drop 3 (\<lambda>_. chan_new) :: nat pubsub_message chans"
  obtain d' cs' where b: "dps_broadcast ''t'' ''e'' (1 :: nat) ?d ?cs = (d', cs')" by (metis surj_pair)
  have "distinct (dp_peers ?d)" by (simp add: add_peer_def dps_new_def)
  from dps_broadcast_fans_out [OF this b] b show ?thesis
    by (auto simp: add_peer_def dps_new_def chan_drop_def chan_new_def)
qed

end
