(* ===== verification/Mahalo_Channel.thy ===== *)
theory Mahalo_Channel
  imports Mahalo_Conn Mahalo_PubSub "HOL-Library.AList"
begin

text \<open>
  Phoenix-style channels, \<open>mahalo-channel/src/channel.rs\<close> and \<open>socket.rs\<close>: the channel
  callbacks, the socket given to them, topic routing, and the connection server that handles client
  messages (casts), PubSub and timer messages (infos) and termination.

  Channels are user code: functions on a socket and the world, whose extension \<open>'z\<close> is the
  application's own state. The world is what callbacks can
  reach: the queue to the client, the PubSub handle, the timers started, and the PubSub
  subscriptions whose forwarders feed this server's mailbox. JSON text is \<open>serde_json\<close>'s: the
  encoder and decoder are an argument \<open>J\<close>; \<open>JFloat m e\<close> is the floating-point number
  \<open>m * 2 ^ e\<close>. The map of joined channels is an association list,
  in whatever order.
\<close>

section \<open>Definitions\<close>

datatype json = JNull | JBool bool | JNum int | JFloat int int | JStr string | JArr "json list" | JObj "(string \<times> json) list"

datatype channel_error = NotAuthorized | InvalidTopic string | Internal string

fun channel_error_fmt :: "channel_error \<Rightarrow> string" where
  "channel_error_fmt NotAuthorized = ''not authorized''"
| "channel_error_fmt (InvalidTopic t) = ''invalid topic: '' @ t"
| "channel_error_fmt (Internal msg) = ''internal error: '' @ msg"

record reply =
  rp_status :: string
  rp_payload :: json

definition reply_ok :: "json \<Rightarrow> reply" where
  "reply_ok payload = \<lparr>rp_status = ''ok'', rp_payload = payload\<rparr>"

definition reply_error :: "json \<Rightarrow> reply" where
  "reply_error payload = \<lparr>rp_status = ''error'', rp_payload = payload\<rparr>"

datatype should_stop = StopYes | StopNo

record phoenix_message =
  px_topic :: string
  px_event :: string
  px_payload :: json
  px_ref :: "string option"

record json_api =
  phx_to_string :: "phoenix_message \<Rightarrow> string option"
  phx_from_str :: "string \<Rightarrow> phoenix_message option"
  ps_to_string :: "json pubsub_message \<Rightarrow> string option"
  ps_from_str :: "string \<Rightarrow> json pubsub_message option"

definition PHX_JOIN :: string where "PHX_JOIN = ''phx_join''"
definition PHX_LEAVE :: string where "PHX_LEAVE = ''phx_leave''"
definition PHX_REPLY :: string where "PHX_REPLY = ''phx_reply''"
definition HEARTBEAT :: string where "HEARTBEAT = ''heartbeat''"
definition TIMER_PREFIX :: string where "TIMER_PREFIX = ''__timer:''"
definition TIMER_SEP :: char where "TIMER_SEP = CHR 0x00"

subsection \<open>The socket\<close>

datatype timer = Later nat nat string | Interval nat nat string

record chan_world =
  cw_out :: "string list"
  cw_out_open :: bool
  cw_pubsub :: "json server_queue"
  cw_timers :: "timer list"
  cw_forwarders :: "string list"

record channel_socket =
  cs_topic :: string
  cs_assigns :: "type_id \<rightharpoonup> any_val"
  cs_self_pid :: "nat option"

type_synonym 'z sw = "channel_socket \<times> 'z chan_world_scheme"

definition socket_new :: "string \<Rightarrow> channel_socket" where
  "socket_new topic = \<lparr>cs_topic = topic, cs_assigns = Map.empty, cs_self_pid = None\<rparr>"

definition socket_new_with_pid :: "string \<Rightarrow> nat \<Rightarrow> channel_socket" where
  "socket_new_with_pid topic self_pid = \<lparr>cs_topic = topic, cs_assigns = Map.empty, cs_self_pid = Some self_pid\<rparr>"

text \<open>\<open>if let Ok(json) = to_string(&msg) && sender.send(json).is_err()\<close>: a failure is logged.\<close>

definition sink_send :: "json_api \<Rightarrow> phoenix_message \<Rightarrow> 'z chan_world_scheme \<Rightarrow> 'z chan_world_scheme" where
  "sink_send J msg w =
     (case phx_to_string J msg of
        None \<Rightarrow> w
      | Some json \<Rightarrow> if cw_out_open w then w\<lparr>cw_out := cw_out w @ [json]\<rparr> else w)"

definition timer_key :: "string \<Rightarrow> string \<Rightarrow> string" where
  "timer_key topic event = TIMER_PREFIX @ topic @ [TIMER_SEP] @ event"

definition run_later :: "nat \<Rightarrow> string \<Rightarrow> 'z sw \<Rightarrow> 'z sw" where
  "run_later delay event s =
     (case s of (sock, w) \<Rightarrow>
        (case cs_self_pid sock of
           None \<Rightarrow> s
         | Some pid \<Rightarrow> (sock, w\<lparr>cw_timers := cw_timers w @ [Later pid delay (timer_key (cs_topic sock) event)]\<rparr>)))"

definition run_interval :: "nat \<Rightarrow> string \<Rightarrow> 'z sw \<Rightarrow> 'z sw" where
  "run_interval interval event s =
     (case s of (sock, w) \<Rightarrow>
        (case cs_self_pid sock of
           None \<Rightarrow> s
         | Some pid \<Rightarrow> (sock, w\<lparr>cw_timers := cw_timers w @ [Interval pid interval (timer_key (cs_topic sock) event)]\<rparr>)))"

definition socket_addr :: "channel_socket \<Rightarrow> nat option" where
  "socket_addr sock = cs_self_pid sock"

text \<open>\<open>ChannelAddr::send_event\<close>: the text cast to the channel's process.\<close>

definition send_event :: "json_api \<Rightarrow> string \<Rightarrow> string \<Rightarrow> json \<Rightarrow> string option" where
  "send_event J topic event payload =
     phx_to_string J \<lparr>px_topic = topic, px_event = event, px_payload = payload, px_ref = None\<rparr>"

definition socket_push :: "json_api \<Rightarrow> string \<Rightarrow> json \<Rightarrow> 'z sw \<Rightarrow> 'z sw" where
  "socket_push J event payload s =
     (case s of (sock, w) \<Rightarrow>
        (sock, sink_send J \<lparr>px_topic = cs_topic sock, px_event = event, px_payload = payload, px_ref = None\<rparr> w))"

definition socket_broadcast :: "string \<Rightarrow> json \<Rightarrow> 'z sw \<Rightarrow> 'z sw" where
  "socket_broadcast event payload s =
     (case s of (sock, w) \<Rightarrow>
        (sock, w\<lparr>cw_pubsub := pubsub_broadcast (cs_topic sock) event payload (cw_pubsub w)\<rparr>))"

definition reply_message :: "string \<Rightarrow> string \<Rightarrow> reply \<Rightarrow> phoenix_message" where
  "reply_message topic msg_ref r =
     \<lparr>px_topic = topic, px_event = PHX_REPLY,
      px_payload = JObj [(''status'', JStr (rp_status r)), (''response'', rp_payload r)], px_ref = Some msg_ref\<rparr>"

definition socket_reply :: "json_api \<Rightarrow> string \<Rightarrow> reply \<Rightarrow> 'z sw \<Rightarrow> 'z sw" where
  "socket_reply J msg_ref r s =
     (case s of (sock, w) \<Rightarrow> (sock, sink_send J (reply_message (cs_topic sock) msg_ref r) w))"

definition socket_assign :: "type_id \<Rightarrow> any_val \<Rightarrow> channel_socket \<Rightarrow> channel_socket" where
  "socket_assign k v sock = sock\<lparr>cs_assigns := (cs_assigns sock)(k \<mapsto> v)\<rparr>"

definition socket_get_assign :: "type_id \<Rightarrow> channel_socket \<Rightarrow> any_val option" where
  "socket_get_assign k sock = Option.bind (cs_assigns sock k) (downcast k)"

subsection \<open>Channels and their routing\<close>

record 'z channel =
  chn_join :: "string \<Rightarrow> json \<Rightarrow> 'z sw \<Rightarrow> (json, channel_error) result \<times> 'z sw"
  chn_handle_in :: "string \<Rightarrow> json \<Rightarrow> 'z sw \<Rightarrow> (reply option, channel_error) result \<times> 'z sw"
  chn_handle_info :: "json pubsub_message \<Rightarrow> 'z sw \<Rightarrow> (unit, channel_error) result \<times> 'z sw"
  chn_started :: "'z sw \<Rightarrow> 'z sw"
  chn_stopping :: "'z sw \<Rightarrow> should_stop \<times> 'z sw"
  chn_terminate :: "string \<Rightarrow> 'z sw \<Rightarrow> 'z sw"

definition default_handle_info :: "json_api \<Rightarrow> json pubsub_message \<Rightarrow> 'z sw \<Rightarrow> (unit, channel_error) result \<times> 'z sw" where
  "default_handle_info J msg s = (Ok (), socket_push J (pm_event msg) (pm_payload msg) s)"

definition topic_matches :: "string \<Rightarrow> string \<Rightarrow> bool" where
  "topic_matches pattern topic =
     (if ends_with pattern '':*'' then starts_with topic (take (length pattern - 1) pattern)
      else pattern = topic)"

type_synonym 'z channel_router = "(string \<times> 'z channel) list"

definition router_channel :: "string \<Rightarrow> 'z channel \<Rightarrow> 'z channel_router \<Rightarrow> 'z channel_router" where
  "router_channel topic_pattern handler routes = routes @ [(topic_pattern, handler)]"

fun find_channel :: "'z channel_router \<Rightarrow> string \<Rightarrow> 'z channel option" where
  "find_channel [] topic = None"
| "find_channel ((pattern, c) # routes) topic =
     (if topic_matches pattern topic then Some c else find_channel routes topic)"

subsection \<open>The connection server\<close>

record 'z conn_state =
  st_joined :: "(string \<times> ('z channel \<times> channel_socket)) list"
  st_self_pid :: nat
  st_world :: "'z chan_world_scheme"

definition conn_state_init :: "nat \<Rightarrow> 'z chan_world_scheme \<Rightarrow> 'z conn_state" where
  "conn_state_init pid w = \<lparr>st_joined = [], st_self_pid = pid, st_world = w\<rparr>"

definition reply_if_ref :: "json_api \<Rightarrow> phoenix_message \<Rightarrow> reply \<Rightarrow> 'z sw \<Rightarrow> 'z sw" where
  "reply_if_ref J msg r s = (case px_ref msg of Some rf \<Rightarrow> socket_reply J rf r s | None \<Rightarrow> s)"

text \<open>The subscription succeeds while the PubSub server lives; its forwarder is recorded.\<close>

definition subscribe_forwarder :: "string \<Rightarrow> 'z chan_world_scheme \<Rightarrow> 'z chan_world_scheme" where
  "subscribe_forwarder topic w =
     (case pubsub_subscribe topic (cw_pubsub w) of
        (q, True) \<Rightarrow> w\<lparr>cw_pubsub := q, cw_forwarders := cw_forwarders w @ [topic]\<rparr>
      | (q, False) \<Rightarrow> w\<lparr>cw_pubsub := q\<rparr>)"

definition handle_join :: "json_api \<Rightarrow> phoenix_message \<Rightarrow> 'z channel \<Rightarrow> 'z conn_state \<Rightarrow> 'z conn_state" where
  "handle_join J msg c st =
     (let socket = socket_new_with_pid (px_topic msg) (st_self_pid st)
      in case chn_join c (px_topic msg) (px_payload msg) (socket, st_world st) of
           (Ok resp, s1) \<Rightarrow>
             (let s2 = reply_if_ref J msg (reply_ok resp) s1;
                  s3 = chn_started c s2;
                  w4 = subscribe_forwarder (px_topic msg) (snd s3)
              in st\<lparr>st_joined := AList.update (px_topic msg) (c, fst s3) (st_joined st), st_world := w4\<rparr>)
         | (Err _, s1) \<Rightarrow>
             st\<lparr>st_world := snd (reply_if_ref J msg (reply_error (JObj [(''reason'', JStr ''join failed'')])) s1)\<rparr>)"

definition handle_leave :: "json_api \<Rightarrow> phoenix_message \<Rightarrow> 'z conn_state \<Rightarrow> 'z conn_state" where
  "handle_leave J msg st =
     (case map_of (st_joined st) (px_topic msg) of
        None \<Rightarrow> st
      | Some (c, socket) \<Rightarrow>
          (let s1 = chn_terminate c ''leave'' (socket, st_world st);
               s2 = reply_if_ref J msg (reply_ok (JObj [])) s1
           in st\<lparr>st_joined := AList.delete (px_topic msg) (st_joined st), st_world := snd s2\<rparr>))"

definition handle_heartbeat :: "json_api \<Rightarrow> phoenix_message \<Rightarrow> 'z conn_state \<Rightarrow> 'z conn_state" where
  "handle_heartbeat J msg st =
     st\<lparr>st_world := sink_send J
          \<lparr>px_topic = ''phoenix'', px_event = PHX_REPLY,
           px_payload = JObj [(''status'', JStr ''ok''), (''response'', JObj [])], px_ref = px_ref msg\<rparr> (st_world st)\<rparr>"

text \<open>Running a callback of the channel joined under a topic, in place.\<close>

definition put_joined :: "string \<Rightarrow> 'z channel \<Rightarrow> 'z sw \<Rightarrow> 'z conn_state \<Rightarrow> 'z conn_state" where
  "put_joined topic c s st = st\<lparr>st_joined := AList.update topic (c, fst s) (st_joined st), st_world := snd s\<rparr>"

definition dispatch_event :: "json_api \<Rightarrow> phoenix_message \<Rightarrow> 'z conn_state \<Rightarrow> 'z conn_state" where
  "dispatch_event J msg st =
     (case map_of (st_joined st) (px_topic msg) of
        None \<Rightarrow> st
      | Some (c, socket) \<Rightarrow>
          (case chn_handle_in c (px_event msg) (px_payload msg) (socket, st_world st) of
             (Ok (Some r), s1) \<Rightarrow> put_joined (px_topic msg) c (reply_if_ref J msg r s1) st
           | (Ok None, s1) \<Rightarrow> put_joined (px_topic msg) c s1 st
           | (Err _, s1) \<Rightarrow>
               put_joined (px_topic msg) c
                 (reply_if_ref J msg (reply_error (JObj [(''reason'', JStr ''error'')])) s1) st))"

definition handle_cast :: "json_api \<Rightarrow> 'z channel_router \<Rightarrow> string \<Rightarrow> 'z conn_state \<Rightarrow> 'z conn_state" where
  "handle_cast J routes text st =
     (case phx_from_str J text of
        None \<Rightarrow> st
      | Some msg \<Rightarrow>
          if px_event msg = PHX_JOIN then
            (case find_channel routes (px_topic msg) of Some c \<Rightarrow> handle_join J msg c st | None \<Rightarrow> st)
          else if px_event msg = PHX_LEAVE then handle_leave J msg st
          else if px_event msg = HEARTBEAT then handle_heartbeat J msg st
          else dispatch_event J msg st)"

definition deliver_info :: "json pubsub_message \<Rightarrow> 'z conn_state \<Rightarrow> 'z conn_state" where
  "deliver_info msg st =
     (case map_of (st_joined st) (pm_topic msg) of
        None \<Rightarrow> st
      | Some (c, socket) \<Rightarrow> put_joined (pm_topic msg) c (snd (chn_handle_info c msg (socket, st_world st))) st)"

text \<open>\<open>rest.find(TIMER_SEP)\<close> and the two slices around it.\<close>

definition split_timer :: "string \<Rightarrow> (string \<times> string) option" where
  "split_timer rest =
     (if TIMER_SEP \<in> set rest
      then Some (takeWhile (\<lambda>c. c \<noteq> TIMER_SEP) rest, tl (dropWhile (\<lambda>c. c \<noteq> TIMER_SEP) rest))
      else None)"

definition handle_info :: "json_api \<Rightarrow> string \<Rightarrow> 'z conn_state \<Rightarrow> 'z conn_state" where
  "handle_info J text st =
     (case strip_prefix TIMER_PREFIX text of
        Some rest \<Rightarrow>
          (case split_timer rest of
             None \<Rightarrow> st
           | Some (topic, event) \<Rightarrow> deliver_info \<lparr>pm_topic = topic, pm_event = event, pm_payload = JNull\<rparr> st)
      | None \<Rightarrow>
          (case ps_from_str J text of None \<Rightarrow> st | Some msg \<Rightarrow> deliver_info msg st))"

fun terminate_all :: "string \<Rightarrow> (string \<times> ('z channel \<times> channel_socket)) list \<Rightarrow> 'z chan_world_scheme \<Rightarrow> 'z chan_world_scheme" where
  "terminate_all reason [] w = w"
| "terminate_all reason ((_, (c, socket)) # js) w =
     (case chn_stopping c (socket, w) of
        (StopYes, s) \<Rightarrow> terminate_all reason js (snd (chn_terminate c reason s))
      | (StopNo, s) \<Rightarrow> terminate_all reason js (snd s))"

definition server_terminate :: "string \<Rightarrow> 'z conn_state \<Rightarrow> 'z conn_state" where
  "server_terminate reason st = st\<lparr>st_joined := [], st_world := terminate_all reason (st_joined st) (st_world st)\<rparr>"

text \<open>A call is answered with nil (\<open>None\<close>) and changes nothing.\<close>

definition handle_call :: "'z conn_state \<Rightarrow> string option \<times> 'z conn_state" where
  "handle_call st = (None, st)"

text \<open>The mailbox: client texts and PubSub or timer messages, in any order.\<close>

datatype mail = Cast string | Info string

definition mail_step :: "json_api \<Rightarrow> 'z channel_router \<Rightarrow> mail \<Rightarrow> 'z conn_state \<Rightarrow> 'z conn_state" where
  "mail_step J routes m st = (case m of Cast t \<Rightarrow> handle_cast J routes t st | Info t \<Rightarrow> handle_info J t st)"

definition serve :: "json_api \<Rightarrow> 'z channel_router \<Rightarrow> mail list \<Rightarrow> 'z conn_state \<Rightarrow> 'z conn_state" where
  "serve J routes ms st = fold (mail_step J routes) ms st"

text \<open>\<open>handle_websocket\<close>: texts are cast until one is refused.\<close>

fun handle_websocket :: "(nat \<Rightarrow> bool) \<Rightarrow> nat \<Rightarrow> string list \<Rightarrow> mail list" where
  "handle_websocket cast_ok n [] = []"
| "handle_websocket cast_ok n (t # ts) = (if cast_ok n then Cast t # handle_websocket cast_ok (Suc n) ts else [])"

text \<open>The forwarders of a topic: each sends every broadcast to the mailbox.\<close>

definition forwarded :: "json_api \<Rightarrow> json pubsub_message \<Rightarrow> 'z chan_world_scheme \<Rightarrow> mail list" where
  "forwarded J msg w =
     (case ps_to_string J msg of
        None \<Rightarrow> []
      | Some t \<Rightarrow> replicate (count_list (cw_forwarders w) (pm_topic msg)) (Info t))"

section \<open>The socket's assigns\<close>

interpretation socket_store: typed_store socket_assign socket_get_assign
  by unfold_locales (auto simp: socket_assign_def socket_get_assign_def downcast_def)

section \<open>The invariant of joined channels\<close>

definition joined_ok :: "'z channel_router \<Rightarrow> 'z conn_state \<Rightarrow> bool" where
  "joined_ok routes st \<longleftrightarrow> distinct (map fst (st_joined st)) \<and>
     (\<forall>t c sock. map_of (st_joined st) t = Some (c, sock) \<longrightarrow> find_channel routes t = Some c)"

lemma joined_ok_update:
  assumes "joined_ok routes st" and "find_channel routes t = Some c"
  shows "joined_ok routes (st\<lparr>st_joined := AList.update t (c, sock) (st_joined st)\<rparr>)"
  using assms unfolding joined_ok_def
  by (auto simp: update_conv' distinct_update fun_upd_def simp del: map_of_eq_Some_iff split: if_splits)

lemma joined_ok_delete:
  assumes "joined_ok routes st"
  shows "joined_ok routes (st\<lparr>st_joined := AList.delete t (st_joined st)\<rparr>)"
  using assms unfolding joined_ok_def
  by (auto simp: delete_conv' distinct_delete fun_upd_def simp del: map_of_eq_Some_iff split: if_splits)

lemma joined_ok_world [simp]: "joined_ok routes (st\<lparr>st_world := w\<rparr>) = joined_ok routes st"
  by (simp add: joined_ok_def)

lemma joined_ok_put:
  "joined_ok routes st \<Longrightarrow> map_of (st_joined st) t = Some (c, sock) \<Longrightarrow> joined_ok routes (put_joined t c s st)"
  unfolding put_joined_def joined_ok_world
  by (rule joined_ok_update) (auto simp: joined_ok_def simp del: map_of_eq_Some_iff)

lemma joined_ok_join:
  "joined_ok routes st \<Longrightarrow> find_channel routes (px_topic msg) = Some c \<Longrightarrow> joined_ok routes (handle_join J msg c st)"
  by (auto simp: handle_join_def Let_def intro: joined_ok_update split: prod.splits result.splits)

lemma joined_ok_leave: "joined_ok routes st \<Longrightarrow> joined_ok routes (handle_leave J msg st)"
  by (auto simp: handle_leave_def Let_def intro: joined_ok_delete split: option.splits)

lemma joined_ok_dispatch: "joined_ok routes st \<Longrightarrow> joined_ok routes (dispatch_event J msg st)"
  by (auto simp: dispatch_event_def intro: joined_ok_put split: option.splits prod.splits result.splits)

lemma joined_ok_info: "joined_ok routes st \<Longrightarrow> joined_ok routes (deliver_info msg st)"
  by (auto simp: deliver_info_def intro: joined_ok_put split: option.splits)

lemma joined_ok_step: "joined_ok routes st \<Longrightarrow> joined_ok routes (mail_step J routes m st)"
  by (auto simp: mail_step_def handle_cast_def handle_info_def handle_heartbeat_def
      joined_ok_join joined_ok_leave joined_ok_dispatch joined_ok_info
      split: mail.splits option.splits prod.splits)

lemma joined_ok_serve: "joined_ok routes st \<Longrightarrow> joined_ok routes (serve J routes ms st)"
  unfolding serve_def by (induction ms arbitrary: st) (simp_all add: joined_ok_step)

section \<open>Properties\<close>

text \<open>C20: Whatever messages a connection handles, each topic is joined at most once, and always with
  the first registered channel whose pattern matches it.\<close>

theorem joined_channels_routed:
  "distinct (map fst (st_joined (serve J routes ms (conn_state_init pid w)))) \<and>
   (\<forall>t c sock. map_of (st_joined (serve J routes ms (conn_state_init pid w))) t = Some (c, sock) \<longrightarrow>
      (\<exists>i < length routes. snd (routes ! i) = c \<and> topic_matches (fst (routes ! i)) t \<and>
         (\<forall>j < i. \<not> topic_matches (fst (routes ! j)) t)))"
proof -
  have "joined_ok routes (serve J routes ms (conn_state_init pid w))"
    by (rule joined_ok_serve) (simp add: joined_ok_def conn_state_init_def)
  moreover have "find_channel routes t = Some c \<Longrightarrow> \<exists>i < length routes. snd (routes ! i) = c \<and>
      topic_matches (fst (routes ! i)) t \<and> (\<forall>j < i. \<not> topic_matches (fst (routes ! j)) t)" for t c
  proof (induction routes)
    case (Cons r routes)
    show ?case
    proof (cases "topic_matches (fst r) t")
      case True
      with Cons.prems show ?thesis by (intro exI [of _ 0]) (cases r; simp)
    next
      case False
      with Cons.prems have "find_channel routes t = Some c" by (cases r) simp
      with Cons.IH obtain i where "i < length routes" "snd (routes ! i) = c" "topic_matches (fst (routes ! i)) t"
        "\<forall>j < i. \<not> topic_matches (fst (routes ! j)) t" by blast
      with False show ?thesis by (intro exI [of _ "Suc i"]) (auto simp: less_Suc_eq_0_disj)
    qed
  qed simp
  ultimately show ?thesis by (simp add: joined_ok_def)
qed

definition echo_channel :: "json_api \<Rightarrow> unit channel" where
  "echo_channel J =
     \<lparr>chn_join = (\<lambda>t p s. (Ok JNull, s)), chn_handle_in = (\<lambda>e p s. (Ok (Some (reply_ok p)), s)),
      chn_handle_info = default_handle_info J, chn_started = (\<lambda>s. s), chn_stopping = (\<lambda>s. (StopYes, s)),
      chn_terminate = (\<lambda>r s. s)\<rparr>"

definition demo_json :: json_api where
  "demo_json =
     \<lparr>phx_to_string = (\<lambda>m. Some (px_topic m @ ''|'' @ px_event m)),
      phx_from_str = (\<lambda>t. Some \<lparr>px_topic = ''room:1'', px_event = t, px_payload = JNull, px_ref = Some ''1''\<rparr>),
      ps_to_string = (\<lambda>m. Some (pm_event m)),
      ps_from_str = (\<lambda>t. Some \<lparr>pm_topic = ''room:1'', pm_event = t, pm_payload = JNull\<rparr>)\<rparr>"

abbreviation (input) demo_world :: chan_world where
  "demo_world \<equiv> \<lparr>cw_out = [], cw_out_open = True, cw_pubsub = \<lparr>sq_alive = True, sq_cmds = []\<rparr>,
     cw_timers = [], cw_forwarders = []\<rparr>"

theorem joined_channels_routed_witness:
  "\<exists>c sock. map_of (st_joined (serve demo_json [(''room:*'', echo_channel demo_json)] [Cast ''phx_join'']
     (conn_state_init 1 demo_world))) ''room:1'' = Some (c, sock) \<and> c = echo_channel demo_json"
proof -
  let ?st = "serve demo_json [(''room:*'', echo_channel demo_json)] [Cast ''phx_join''] (conn_state_init 1 demo_world)"
  obtain c sock where "map_of (st_joined ?st) ''room:1'' = Some (c, sock)"
    by (simp add: serve_def mail_step_def handle_cast_def demo_json_def PHX_JOIN_def topic_matches_def ends_with_def
        starts_with_def handle_join_def echo_channel_def conn_state_init_def Let_def)
  moreover from this obtain i where "i < length [(''room:*'', echo_channel demo_json)]"
    "snd ([(''room:*'', echo_channel demo_json)] ! i) = c"
    using joined_channels_routed [of demo_json "[(''room:*'', echo_channel demo_json)]" "[Cast ''phx_join'']" 1 demo_world]
    by blast
  ultimately show ?thesis by auto
qed

text \<open>A wildcard pattern matches exactly the topics that extend its prefix including the colon;
  any other pattern matches only itself.\<close>

theorem topic_matches_iff:
  "(topic_matches (p @ '':*'') topic \<longleftrightarrow> (\<exists>rest. topic = p @ '':'' @ rest)) \<and>
   (\<not> ends_with pattern '':*'' \<longrightarrow> (topic_matches pattern topic \<longleftrightarrow> topic = pattern))"
  by (auto simp: topic_matches_def ends_with_iff starts_with_iff)

theorem topic_matches_iff_witness:
  "topic_matches ''room:*'' ''room:lobby'' \<and> \<not> topic_matches ''room'' ''room:lobby''"
proof -
  have "\<not> ends_with ''room'' '':*''" by code_simp
  with topic_matches_iff [of "''room''" "''room:lobby''" "''room''"] show ?thesis by simp
qed

text \<open>A timer event comes back to the channel that set it: the key built from a topic without the
  separator is taken apart into the same topic and event, whatever the event contains.\<close>

theorem timer_event_roundtrip:
  assumes "TIMER_SEP \<notin> set topic"
  shows "handle_info J (timer_key topic event) st =
    deliver_info \<lparr>pm_topic = topic, pm_event = event, pm_payload = JNull\<rparr> st"
proof -
  have "takeWhile (\<lambda>c. c \<noteq> TIMER_SEP) (topic @ [TIMER_SEP] @ event) = topic"
    "dropWhile (\<lambda>c. c \<noteq> TIMER_SEP) (topic @ [TIMER_SEP] @ event) = [TIMER_SEP] @ event"
    using assms by (auto simp: takeWhile_append dropWhile_append)
  then have "split_timer (topic @ [TIMER_SEP] @ event) = Some (topic, event)" by (simp add: split_timer_def)
  then show ?thesis by (simp add: handle_info_def timer_key_def)
qed

theorem timer_event_roundtrip_witness:
  "handle_info demo_json (timer_key ''room:1'' ''tick'') (conn_state_init 1 demo_world) =
     deliver_info \<lparr>pm_topic = ''room:1'', pm_event = ''tick'', pm_payload = JNull\<rparr> (conn_state_init 1 demo_world)"
  by (rule timer_event_roundtrip) (simp add: TIMER_SEP_def)

text \<open>Callbacks reach the world only through the socket: they cannot touch the forwarders or the life
  of the PubSub server.\<close>

definition world_kept :: "('z sw \<Rightarrow> 'z sw) \<Rightarrow> bool" where
  "world_kept f \<longleftrightarrow>
     (\<forall>s. cw_forwarders (snd (f s)) = cw_forwarders (snd s) \<and>
          sq_alive (cw_pubsub (snd (f s))) = sq_alive (cw_pubsub (snd s)))"

definition channel_laws :: "'z channel \<Rightarrow> bool" where
  "channel_laws c \<longleftrightarrow>
     (\<forall>t p. world_kept (\<lambda>s. snd (chn_join c t p s))) \<and> world_kept (chn_started c) \<and>
     (\<forall>r. world_kept (chn_terminate c r))"

lemma channel_lawsD:
  assumes "channel_laws c"
  shows "cw_forwarders (snd (snd (chn_join c t p s))) = cw_forwarders (snd s)"
    "sq_alive (cw_pubsub (snd (snd (chn_join c t p s)))) = sq_alive (cw_pubsub (snd s))"
    "cw_forwarders (snd (chn_started c s)) = cw_forwarders (snd s)"
    "sq_alive (cw_pubsub (snd (chn_started c s))) = sq_alive (cw_pubsub (snd s))"
    "cw_forwarders (snd (chn_terminate c r s)) = cw_forwarders (snd s)"
    "sq_alive (cw_pubsub (snd (chn_terminate c r s))) = sq_alive (cw_pubsub (snd s))"
  using assms by (cases s; simp add: channel_laws_def world_kept_def)+

lemma reply_if_ref_world [simp]:
  "cw_forwarders (snd (reply_if_ref J msg r s)) = cw_forwarders (snd s)"
  "cw_pubsub (snd (reply_if_ref J msg r s)) = cw_pubsub (snd s)"
  by (auto simp: reply_if_ref_def socket_reply_def sink_send_def split: option.splits prod.splits)

lemma handle_join_forwarders:
  assumes "channel_laws c" and "\<And>s. \<exists>resp s'. chn_join c (px_topic msg) (px_payload msg) s = (Ok resp, s')"
    and "sq_alive (cw_pubsub (st_world st))"
  shows "cw_forwarders (st_world (handle_join J msg c st)) = cw_forwarders (st_world st) @ [px_topic msg]"
    and "sq_alive (cw_pubsub (st_world (handle_join J msg c st)))"
    and "\<exists>sock. map_of (st_joined (handle_join J msg c st)) (px_topic msg) = Some (c, sock)"
proof -
  let ?s = "(socket_new_with_pid (px_topic msg) (st_self_pid st), st_world st)"
  obtain resp s1 where j: "chn_join c (px_topic msg) (px_payload msg) ?s = (Ok resp, s1)" using assms(2) by blast
  have s1: "cw_forwarders (snd s1) = cw_forwarders (st_world st)" "sq_alive (cw_pubsub (snd s1))"
    using channel_lawsD(1,2) [OF assms(1), of "px_topic msg" "px_payload msg" ?s] j assms(3) by simp_all
  then show "cw_forwarders (st_world (handle_join J msg c st)) = cw_forwarders (st_world st) @ [px_topic msg]"
    "sq_alive (cw_pubsub (st_world (handle_join J msg c st)))"
    using j channel_lawsD(3,4) [OF assms(1)]
    by (simp_all add: handle_join_def Let_def subscribe_forwarder_def pubsub_subscribe_def cmd_send_def)
  show "\<exists>sock. map_of (st_joined (handle_join J msg c st)) (px_topic msg) = Some (c, sock)"
    using j by (simp add: handle_join_def Let_def update_conv')
qed

text \<open>Leaving a topic does not end its PubSub forwarder: a client that joins, leaves and joins
  again has two forwarders more than before, so a broadcast of any event is delivered to the channel
  twice.\<close>

theorem rejoin_duplicates_broadcasts:
  assumes "channel_laws c" and "\<And>s. \<exists>resp s'. chn_join c topic payload s = (Ok resp, s')"
    and "sq_alive (cw_pubsub (st_world st))" and "topic \<notin> set (cw_forwarders (st_world st))"
    and "px_topic jm = topic" and "px_payload jm = payload" and "px_topic lm = topic"
    and "pm_topic msg = topic" and "ps_to_string J msg = Some text"
  shows "forwarded J msg (st_world (handle_join J jm c (handle_leave J lm (handle_join J jm c st))))
    = [Info text, Info text]"
proof -
  let ?st1 = "handle_join J jm c st"
  have ok: "\<exists>resp s'. chn_join c (px_topic jm) (px_payload jm) s = (Ok resp, s')" for s
    using assms(2,5,6) by simp
  note j1 = handle_join_forwarders [OF assms(1) ok assms(3), of J]
  obtain sock where "map_of (st_joined ?st1) topic = Some (c, sock)" using j1(3) assms(5) by auto
  then have leave: "cw_forwarders (st_world (handle_leave J lm ?st1)) = cw_forwarders (st_world ?st1)"
    "sq_alive (cw_pubsub (st_world (handle_leave J lm ?st1)))"
    using channel_lawsD(5,6) [OF assms(1)] assms(7) j1(2) by (simp_all add: handle_leave_def Let_def)
  note j2 = handle_join_forwarders(1) [OF assms(1) ok leave(2), of J]
  have "count_list (cw_forwarders (st_world st)) topic = 0" using assms(4) by (simp add: count_list_0_iff)
  with j1(1) leave(1) j2 assms(5,8,9) show ?thesis
    by (simp add: forwarded_def numeral_2_eq_2)
qed

theorem rejoin_duplicates_broadcasts_witness:
  "forwarded demo_json \<lparr>pm_topic = ''room:1'', pm_event = ''hi'', pm_payload = JNull\<rparr>
     (st_world (handle_join demo_json \<lparr>px_topic = ''room:1'', px_event = PHX_JOIN, px_payload = JNull, px_ref = None\<rparr>
        (echo_channel demo_json)
        (handle_leave demo_json \<lparr>px_topic = ''room:1'', px_event = PHX_LEAVE, px_payload = JNull, px_ref = None\<rparr>
          (handle_join demo_json \<lparr>px_topic = ''room:1'', px_event = PHX_JOIN, px_payload = JNull, px_ref = None\<rparr>
            (echo_channel demo_json) (conn_state_init 1 demo_world))))) = [Info ''hi'', Info ''hi'']"
proof -
  have "channel_laws (echo_channel demo_json)" by (simp add: channel_laws_def world_kept_def echo_channel_def)
  moreover have "\<exists>resp s'. chn_join (echo_channel demo_json) t p s = (Ok resp, s')" for t p s
    by (simp add: echo_channel_def)
  ultimately show ?thesis
    by (intro rejoin_duplicates_broadcasts) (simp_all add: conn_state_init_def demo_json_def)
qed

text \<open>When the connection server terminates, a channel that vetoes its stop is dropped all the same:
  it is neither kept nor given its \<open>terminate\<close> callback.\<close>

theorem vetoed_channels_dropped:
  assumes "\<forall>(t, (c, sock)) \<in> set (st_joined st). \<forall>s. chn_stopping c s = (StopNo, s)"
  shows "server_terminate reason st = st\<lparr>st_joined := []\<rparr>"
proof -
  have "\<forall>(t, (c, sock)) \<in> set js. \<forall>s. chn_stopping c s = (StopNo, s) \<Longrightarrow> terminate_all reason js w = w"
    for js :: "(string \<times> ('a channel \<times> channel_socket)) list" and w
    by (induction js arbitrary: w) auto
  with assms show ?thesis by (simp add: server_terminate_def)
qed

theorem vetoed_channels_dropped_witness:
  "server_terminate ''shutdown'' \<lparr>st_joined = [(''t'', ((echo_channel demo_json)\<lparr>chn_stopping := (\<lambda>s. (StopNo, s)),
     chn_terminate := (\<lambda>r s. (fst s, (snd s)\<lparr>cw_out := [r]\<rparr>))\<rparr>, socket_new ''t''))], st_self_pid = 1, st_world = demo_world\<rparr>
   = \<lparr>st_joined = [], st_self_pid = 1, st_world = demo_world\<rparr>"
  by (subst vetoed_channels_dropped) simp_all

end
