(* ===== verification/Mahalo_Sse.thy ===== *)
theory Mahalo_Sse
  imports Mahalo_Conn Mpsc
begin

text \<open>
  Server-sent events, \<open>mahalo-sse/src/lib.rs\<close>: the event builder, its wire format, the sender
  half of a stream and \<open>sse_response\<close>. The reference \<open>sse_decode\<close> is the event-stream
  interpretation of the HTML standard that a browser applies to the bytes of the response; the
  round trip is proved against it.
\<close>

section \<open>Events\<close>

text \<open>A \<open>Duration\<close> is its number of nanoseconds.\<close>

record event =
  ev_data :: "string option"
  ev_event :: "string option"
  ev_id :: "string option"
  ev_retry :: "nat option"
  ev_comment :: "string option"

definition event_default :: event where
  "event_default = \<lparr>ev_data = None, ev_event = None, ev_id = None, ev_retry = None, ev_comment = None\<rparr>"

definition event_data :: "string \<Rightarrow> event \<Rightarrow> event" where
  "event_data v e = e\<lparr>ev_data := Some v\<rparr>"

text \<open>The argument is the result of \<open>serde_json::to_string\<close>, an error by its message.\<close>

definition event_json_data :: "(string, string) result \<Rightarrow> event \<Rightarrow> event" where
  "event_json_data r e =
     (case r of
        Ok json \<Rightarrow> e\<lparr>ev_data := Some json\<rparr>
      | Err m \<Rightarrow> e\<lparr>ev_data := Some (''{'' @ [CHR 0x22] @ ''error'' @ [CHR 0x22] @ '':'' @ [CHR 0x22] @ m
                                   @ [CHR 0x22] @ ''}'')\<rparr>)"

definition event_event :: "string \<Rightarrow> event \<Rightarrow> event" where
  "event_event v e = e\<lparr>ev_event := Some v\<rparr>"

definition event_id :: "string \<Rightarrow> event \<Rightarrow> event" where
  "event_id v e = e\<lparr>ev_id := Some v\<rparr>"

definition event_retry :: "nat \<Rightarrow> event \<Rightarrow> event" where
  "event_retry d e = e\<lparr>ev_retry := Some d\<rparr>"

definition event_comment :: "string \<Rightarrow> event" where
  "event_comment t = event_default\<lparr>ev_comment := Some t\<rparr>"

abbreviation (input) newline :: char where
  "newline \<equiv> CHR 0x0A"

abbreviation (input) carriage_return :: char where
  "carriage_return \<equiv> CHR 0x0D"

text \<open>\<open>str::lines\<close>: lines end with LF or CR LF, and a final empty line is not reported.\<close>

definition strip_cr :: "string \<Rightarrow> string" where
  "strip_cr l = (if l \<noteq> [] \<and> last l = carriage_return then butlast l else l)"

definition str_lines :: "string \<Rightarrow> string list" where
  "str_lines s =
     (let ls = split_on newline s
      in map strip_cr (butlast ls) @ (if last ls = [] then [] else [last ls]))"

definition field_line :: "string \<Rightarrow> string \<Rightarrow> string" where
  "field_line name v = name @ '': '' @ v @ [newline]"

definition opt_line :: "string \<Rightarrow> string option \<Rightarrow> string" where
  "opt_line name v = (case v of None \<Rightarrow> [] | Some s \<Rightarrow> field_line name s)"

definition serialize :: "event \<Rightarrow> string" where
  "serialize e =
     (let comments = (case ev_comment e of None \<Rightarrow> [] | Some t \<Rightarrow> concat (map (field_line []) (str_lines t)))
      in if ev_comment e \<noteq> None \<and> ev_data e = None \<and> ev_event e = None \<and> ev_id e = None \<and> ev_retry e = None
         then comments @ [newline]
         else comments
           @ opt_line ''event'' (ev_event e)
           @ opt_line ''id'' (ev_id e)
           @ opt_line ''retry'' (map_option (\<lambda>d. nat_to_string (d div 1000000)) (ev_retry e))
           @ (case ev_data e of
                None \<Rightarrow> []
              | Some d \<Rightarrow> if d = [] then field_line ''data'' []
                          else concat (map (field_line ''data'') (str_lines d)))
           @ [newline])"

section \<open>Streams\<close>

record sse_sender =
  sse_tx :: nat

datatype sse_send_error = SseSendError

definition sse_send ::
  "sse_sender \<Rightarrow> event \<Rightarrow> string chans \<Rightarrow> (unit, sse_send_error) result \<times> string chans" where
  "sse_send s e cs =
     (case chan_send (sse_tx s) (serialize e) cs of
        (ok, cs') \<Rightarrow> (if ok then Ok () else Err SseSendError, cs'))"

record sse_options =
  so_keep_alive :: "keep_alive option"

definition sse_options_keep_alive :: "keep_alive \<Rightarrow> sse_options \<Rightarrow> sse_options" where
  "sse_options_keep_alive ka so = so\<lparr>so_keep_alive := Some ka\<rparr>"

text \<open>\<open>i\<close> is the number of the channel that \<open>channel()\<close> creates.\<close>

definition sse_response ::
  "'h http_api \<Rightarrow> nat \<Rightarrow> sse_options \<Rightarrow> ('h, 'z) conn_scheme \<Rightarrow> string chans \<Rightarrow> ('h, 'z) conn_scheme \<times> sse_sender \<times> string chans" where
  "sse_response H i so c cs =
     (let c1 = assign SseStreamKey (SseStreamVal i)
                 (put_resp_header_static H ''cache-control'' (as_bytes ''no-cache'')
                    (put_resp_header_static H ''content-type'' (as_bytes ''text/event-stream'') (put_status 200 c)));
          c2 = (case so_keep_alive so of Some ka \<Rightarrow> assign SseKeepAliveKey (KeepAliveVal ka) c1 | None \<Rightarrow> c1)
      in (c2, \<lparr>sse_tx = i\<rparr>, cs(i := chan_new)))"

text \<open>The events of a handler, sent one after the other.\<close>

definition sse_send_all :: "sse_sender \<Rightarrow> event list \<Rightarrow> string chans \<Rightarrow> string chans" where
  "sse_send_all s es cs = fold (\<lambda>e cs. snd (sse_send s e cs)) es cs"

section \<open>The reference decoder\<close>

text \<open>Lines end with CR LF, LF or CR.\<close>

fun sse_normalize :: "string \<Rightarrow> string" where
  "sse_normalize [] = []"
| "sse_normalize [c] = [if c = carriage_return then newline else c]"
| "sse_normalize (c # d # s) =
     (if c = carriage_return then newline # (if d = newline then sse_normalize s else sse_normalize (d # s))
      else c # sse_normalize (d # s))"

text \<open>A line is a comment or a field; one space after the colon is dropped; an \<open>id\<close> with a NUL is
  ignored.\<close>

definition sse_field :: "string \<Rightarrow> (string \<times> string) option" where
  "sse_field l =
     (let name = takeWhile (\<lambda>c. c \<noteq> CHR '':'') l;
          v = (case dropWhile (\<lambda>c. c \<noteq> CHR '':'') l of
                 _ # r \<Rightarrow> if starts_with r '' '' then drop 1 r else r | [] \<Rightarrow> [])
      in if name = [] \<or> name = ''id'' \<and> CHR 0x00 \<in> set v then None else Some (name, v))"

text \<open>Blocks end with an empty line; an unfinished line or block is discarded.\<close>

fun sse_blocks :: "string list \<Rightarrow> string list \<Rightarrow> string list list" where
  "sse_blocks acc [] = []"
| "sse_blocks acc (l # ls) = (if l = [] then rev acc # sse_blocks [] ls else sse_blocks (l # acc) ls)"

record sse_message =
  sm_data :: "string option"
  sm_event :: "string option"
  sm_id :: "string option"
  sm_retry :: "string option"

definition sse_message_of :: "(string \<times> string) list \<Rightarrow> sse_message" where
  "sse_message_of fs =
     \<lparr>sm_data = (let ds = map snd (filter (\<lambda>f. fst f = ''data'') fs) in if ds = [] then None else Some (join [newline] ds)),
      sm_event = map_of (rev fs) ''event'', sm_id = map_of (rev fs) ''id'', sm_retry = map_of (rev fs) ''retry''\<rparr>"

definition sse_decode :: "string \<Rightarrow> sse_message list" where
  "sse_decode s =
     map (\<lambda>b. sse_message_of (List.map_filter sse_field b)) 
       (sse_blocks [] (butlast (split_on newline (sse_normalize s))))"

text \<open>What the client should see of an event, and the events for which it does.\<close>

definition event_message :: "event \<Rightarrow> sse_message" where
  "event_message e =
     \<lparr>sm_data = ev_data e, sm_event = ev_event e, sm_id = ev_id e,
      sm_retry = map_option (\<lambda>d. nat_to_string (d div 1000000)) (ev_retry e)\<rparr>"

definition one_line :: "string \<Rightarrow> bool" where
  "one_line s \<longleftrightarrow> newline \<notin> set s \<and> carriage_return \<notin> set s"

definition event_clean :: "event \<Rightarrow> bool" where
  "event_clean e \<longleftrightarrow>
     (case ev_event e of None \<Rightarrow> True | Some s \<Rightarrow> one_line s) \<and>
     (case ev_id e of None \<Rightarrow> True | Some s \<Rightarrow> one_line s \<and> CHR 0x00 \<notin> set s) \<and>
     (case ev_data e of None \<Rightarrow> True
      | Some d \<Rightarrow> carriage_return \<notin> set d \<and> \<not> ends_with d [newline]) \<and>
     (case ev_comment e of None \<Rightarrow> True | Some t \<Rightarrow> carriage_return \<notin> set t)"

section \<open>Lemmas\<close>

lemma sse_normalize_id: "carriage_return \<notin> set s \<Longrightarrow> sse_normalize s = s"
  by (induction s rule: sse_normalize.induct) auto

lemma set_join_mem: "p \<in> set ps \<Longrightarrow> set p \<subseteq> set (join sep ps)"
  by (induction sep ps rule: join.induct) auto

lemma split_on_subset: "p \<in> set (split_on c xs) \<Longrightarrow> set p \<subseteq> set xs"
  using set_join_mem [of p "split_on c xs" "[c]"] by simp

lemma split_on_snoc:
  "split_on c (ys @ [y]) = (if y = c then split_on c ys @ [[]]
     else butlast (split_on c ys) @ [last (split_on c ys) @ [y]])"
proof (induction ys)
  case (Cons x ys)
  obtain q qs where q: "split_on c ys = q # qs" by (meson list.exhaust split_on_not_Nil)
  show ?case using Cons.IH by (cases qs) (auto simp: q)
qed simp

lemma last_split_on: "last (split_on c xs) = [] \<longleftrightarrow> xs = [] \<or> last xs = c"
  by (cases xs rule: rev_cases) (simp_all add: split_on_snoc)

lemma split_on_terminated:
  "\<forall>l \<in> set ls. c \<notin> set l \<Longrightarrow> split_on c (concat (map (\<lambda>l. l @ [c]) ls)) = ls @ [[]]"
  by (induction ls) (auto simp: split_on_append_sep)

lemma str_lines_mem:
  assumes "l \<in> set (str_lines s)"
  shows "newline \<notin> set l \<and> set l \<subseteq> set s"
proof -
  have "last (split_on newline s) \<in> set (split_on newline s)" by simp
  moreover from assms have "l \<in> strip_cr ` set (butlast (split_on newline s)) \<or> l = last (split_on newline s)"
    by (auto simp: str_lines_def Let_def split: if_splits)
  ultimately obtain p where p: "p \<in> set (split_on newline s)" "l = p \<or> l = strip_cr p"
    using in_set_butlastD by fastforce
  have "set l \<subseteq> set p" using p(2) by (auto simp: strip_cr_def split: if_splits dest: in_set_butlastD)
  with split_on_no_sep [OF p(1)] split_on_subset [OF p(1)] show ?thesis by blast
qed

lemma str_lines_exact:
  assumes "carriage_return \<notin> set d" and "\<not> ends_with d [newline]" and "d \<noteq> []"
  shows "str_lines d = split_on newline d"
proof -
  let ?ls = "split_on newline d"
  have "last d \<noteq> newline"
  proof
    assume "last d = newline"
    then have "d = butlast d @ [newline]" using append_butlast_last_id [OF assms(3)] by simp
    then show False using assms(2) unfolding ends_with_iff by blast
  qed
  then have ne: "last ?ls \<noteq> []" using assms(3) by (simp add: last_split_on)
  have "strip_cr l = l" if "l \<in> set (butlast ?ls)" for l
  proof -
    have "carriage_return \<notin> set l"
      using assms(1) split_on_subset [OF in_set_butlastD [OF that]] by blast
    then have "l = [] \<or> last l \<noteq> carriage_return" by (metis last_in_set)
    then show ?thesis by (auto simp: strip_cr_def)
  qed
  then have "map strip_cr (butlast ?ls) = butlast ?ls" by (simp add: map_idI)
  then show ?thesis using ne by (simp add: str_lines_def Let_def)
qed

lemma sse_blocks_append:
  "[] \<notin> set ls \<Longrightarrow> sse_blocks acc (ls @ [] # rest) = (rev acc @ ls) # sse_blocks [] rest"
  by (induction ls arbitrary: acc) auto

text \<open>The lines of an event and its fields.\<close>

definition opt_field :: "string \<Rightarrow> string option \<Rightarrow> (string \<times> string) list" where
  "opt_field name v = (case v of None \<Rightarrow> [] | Some s \<Rightarrow> [(name, s)])"

definition event_fields :: "event \<Rightarrow> (string \<times> string) list" where
  "event_fields e =
     opt_field ''event'' (ev_event e) @ opt_field ''id'' (ev_id e)
     @ opt_field ''retry'' (map_option (\<lambda>d. nat_to_string (d div 1000000)) (ev_retry e))
     @ (case ev_data e of None \<Rightarrow> [] | Some d \<Rightarrow> map (Pair ''data'') (if d = [] then [[]] else str_lines d))"

definition event_lines :: "event \<Rightarrow> string list" where
  "event_lines e =
     map (\<lambda>l. '': '' @ l) (case ev_comment e of None \<Rightarrow> [] | Some t \<Rightarrow> str_lines t)
     @ map (\<lambda>(n, v). n @ '': '' @ v) (event_fields e)"

lemma serialize_lines: "serialize e = concat (map (\<lambda>l. l @ [newline]) (event_lines e @ [[]]))"
proof -
  have "concat (map (\<lambda>l. l @ [newline]) (map (\<lambda>l. '': '' @ l) ls)) = concat (map (field_line []) ls)" for ls
    by (induction ls) (simp_all add: field_line_def)
  moreover have "concat (map (\<lambda>l. l @ [newline]) (map (\<lambda>(n, v). n @ '': '' @ v) (opt_field n v))) = opt_line n v" for n v
    by (simp add: opt_field_def opt_line_def field_line_def split: option.splits)
  moreover have "concat (map (\<lambda>l. l @ [newline]) (map (\<lambda>(n, v). n @ '': '' @ v) (map (Pair n) ls)))
      = concat (map (field_line n) ls)" for n ls
    by (induction ls) (simp_all add: field_line_def)
  ultimately show ?thesis
    by (cases "ev_data e")
      (auto simp: serialize_def event_lines_def event_fields_def Let_def opt_line_def field_line_def split: option.splits)
qed

lemma sse_field_line:
  "CHR '':'' \<notin> set n \<Longrightarrow> n \<noteq> [] \<Longrightarrow> \<not> (n = ''id'' \<and> CHR 0x00 \<in> set v) \<Longrightarrow>
     sse_field (n @ '': '' @ v) = Some (n, v)"
  by (simp add: sse_field_def takeWhile_append dropWhile_append starts_with_def)

lemma sse_field_comment: "sse_field ('': '' @ l) = None"
  by (simp add: sse_field_def)

lemma digits_one_line: "c \<in> set (nat_to_string n) \<Longrightarrow> \<exists>d < 10. c = digit_char d"
proof (induction n rule: nat_to_string.induct)
  case (1 n)
  have "n mod 10 < 10" by simp
  with 1 show ?case by (subst (asm) nat_to_string.simps) (fastforce split: if_splits)
qed

lemma one_line_nat_to_string: "one_line (nat_to_string n)"
proof -
  have "digit_char d \<noteq> newline \<and> digit_char d \<noteq> carriage_return" if "d < 10" for d
  proof -
    have "of_char (digit_char d) = 48 + d" using that by (simp add: digit_char_def)
    then show ?thesis by auto
  qed
  then show ?thesis using digits_one_line [of _ n] unfolding one_line_def by metis
qed

lemma event_fields_mem:
  assumes "event_clean e" and "(n, v) \<in> set (event_fields e)"
  shows "n \<in> {''event'', ''id'', ''retry'', ''data''} \<and> one_line v \<and> \<not> (n = ''id'' \<and> CHR 0x00 \<in> set v)"
proof -
  have "one_line v" if "ev_data e = Some d" "v \<in> set (if d = [] then [[]] else str_lines d)" for d
    using that assms(1) str_lines_mem [of v d]
    by (auto simp: event_clean_def one_line_def split: if_splits)
  then show ?thesis using assms
    by (auto simp: event_fields_def opt_field_def event_clean_def one_line_nat_to_string split: option.splits)
qed

lemma event_lines_mem:
  assumes "event_clean e" and "l \<in> set (event_lines e)"
  shows "one_line l \<and> l \<noteq> []"
proof -
  from assms(2) consider (comment) t k where "ev_comment e = Some t" "k \<in> set (str_lines t)" "l = '': '' @ k"
    | (field) n v where "(n, v) \<in> set (event_fields e)" "l = n @ '': '' @ v"
    by (cases "ev_comment e") (auto simp: event_lines_def)
  then show ?thesis
  proof cases
    case comment
    then show ?thesis using assms(1) str_lines_mem [of k t] by (auto simp: event_clean_def one_line_def)
  next
    case field
    with event_fields_mem [OF assms(1) field(1)] show ?thesis by (auto simp: one_line_def)
  qed
qed

lemma event_lines_fields:
  assumes "event_clean e"
  shows "List.map_filter sse_field (event_lines e) = event_fields e"
proof -
  have comments: "List.map_filter sse_field (map (\<lambda>l. '': '' @ l) ls) = []" for ls
    by (induction ls) (simp_all add: List.map_filter_simps sse_field_def)
  have fields: "List.map_filter sse_field (map (\<lambda>(n, v). n @ '': '' @ v) fs) = fs"
    if "set fs \<subseteq> set (event_fields e)" for fs
    using that
  proof (induction fs)
    case (Cons f fs)
    obtain n v where f: "f = (n, v)" by (cases f)
    with Cons.prems have "sse_field (n @ '': '' @ v) = Some (n, v)"
      using event_fields_mem [OF assms, of n v] by (intro sse_field_line) auto
    with Cons f show ?case by (simp add: List.map_filter_simps)
  qed (simp add: List.map_filter_simps)
  have app: "List.map_filter g (xs @ ys) = List.map_filter g xs @ List.map_filter g ys" for g :: "string \<Rightarrow> (string \<times> string) option" and xs ys
    by (simp add: List.map_filter_def)
  show ?thesis unfolding event_lines_def app comments using fields [of "event_fields e"] by simp
qed

lemma event_fields_message:
  assumes "event_clean e"
  shows "sse_message_of (event_fields e) = event_message e"
proof -
  let ?ds = "case ev_data e of None \<Rightarrow> [] | Some d \<Rightarrow> if d = [] then [[]] else str_lines d"
  have keys: "map_of (rev (map (Pair ''data'') ls)) k = None" if "k \<noteq> ''data''" for k and ls :: "string list"
    using that by (induction ls) (auto simp: map_add_def)
  have "map snd (filter (\<lambda>f. fst f = ''data'') (event_fields e)) = ?ds"
    by (auto simp: event_fields_def opt_field_def filter_map comp_def split: option.splits)
  moreover have "(if ?ds = [] then None else Some (join [newline] ?ds)) = ev_data e"
  proof (cases "ev_data e")
    case (Some d)
    then have "d \<noteq> [] \<Longrightarrow> str_lines d = split_on newline d"
      using assms by (intro str_lines_exact) (auto simp: event_clean_def)
    with Some show ?thesis by simp
  qed simp
  moreover have "map_of (rev (event_fields e)) ''event'' = ev_event e"
    "map_of (rev (event_fields e)) ''id'' = ev_id e"
    "map_of (rev (event_fields e)) ''retry'' = map_option (\<lambda>d. nat_to_string (d div 1000000)) (ev_retry e)"
    by (auto simp: event_fields_def opt_field_def keys map_add_def split: option.splits)
  ultimately show ?thesis by (simp add: sse_message_of_def event_message_def Let_def)
qed

lemma terminated_no_cr:
  "(\<And>l. l \<in> set ls \<Longrightarrow> one_line l) \<Longrightarrow> carriage_return \<notin> set (concat (map (\<lambda>l. l @ [newline]) ls))"
  by (auto simp: one_line_def)

lemma sse_decode_events:
  assumes "\<forall>e \<in> set es. event_clean e"
  shows "sse_decode (concat (map serialize es)) = map event_message es"
proof -
  let ?ls = "concat (map (\<lambda>e. event_lines e @ [[]]) es)"
  have "concat (map serialize es) = concat (map (\<lambda>l. l @ [newline]) ?ls)"
    by (induction es) (simp_all add: serialize_lines)
  moreover have clean: "one_line l" if "l \<in> set ?ls" for l
    using that assms event_lines_mem by (cases "l = []") (auto simp: one_line_def split: if_splits)
  moreover have "carriage_return \<notin> set (concat (map (\<lambda>l. l @ [newline]) ?ls))"
    by (rule terminated_no_cr) (use clean in blast)
  ultimately have lines: "butlast (split_on newline (sse_normalize (concat (map serialize es)))) = ?ls"
    using split_on_terminated [of ?ls newline] by (auto simp: sse_normalize_id one_line_def)
  have "sse_blocks [] ?ls = map event_lines es"
    using assms
  proof (induction es)
    case (Cons e es)
    then have "[] \<notin> set (event_lines e)" using event_lines_mem [of e] by auto
    with Cons show ?case by (simp add: sse_blocks_append)
  qed simp
  then show ?thesis
    using assms by (simp add: sse_decode_def lines event_lines_fields event_fields_message)
qed

lemma sse_send_all_queue:
  "ch_open (cs (sse_tx s)) \<Longrightarrow>
     ch_queue (sse_send_all s es cs (sse_tx s)) = ch_queue (cs (sse_tx s)) @ map serialize es"
  by (induction es arbitrary: cs) (simp_all add: sse_send_all_def sse_send_def chan_send_def)

text \<open>A line break in an event name forges fields: the client cannot tell the two events apart.\<close>

lemma sse_event_name_injects:
  assumes "one_line x" and "x \<noteq> []"
  shows "serialize (event_event (n @ [newline] @ ''data: '' @ x) event_default) =
         serialize (event_data x (event_event n event_default))"
proof -
  have "str_lines x = split_on newline x"
    using assms by (intro str_lines_exact) (auto simp: one_line_def ends_with_iff)
  also have "\<dots> = [x]" using assms by (intro split_on_none) (simp add: one_line_def)
  finally show ?thesis using assms(2)
    by (simp add: serialize_def Let_def event_event_def event_data_def event_default_def opt_line_def field_line_def)
qed

section \<open>Properties\<close>

text \<open>C29: Server-sent events reach the client as they were built: after \<open>sse_response\<close> the connection
  holds the stream, its content type and the keep-alive setting, and the bytes queued by sending any
  list of events decode, by the interpretation of the HTML standard, to those events in order, each
  with its data (several lines included), type, id and retry time. This needs event names and ids
  without line breaks, and data without carriage return or final line feed.\<close>

theorem sse_events_delivered:
  assumes "hm_laws H" and "sse_response H i so c cs = (c', s, cs')" and "\<forall>e \<in> set es. event_clean e"
  shows "get_assign SseStreamKey c' = Some (SseStreamVal i)
    \<and> hm_get H ''content-type'' (conn_resp_headers c') = Some (as_bytes ''text/event-stream'')
    \<and> (\<forall>ka. so_keep_alive so = Some ka \<longrightarrow> get_assign SseKeepAliveKey c' = Some (KeepAliveVal ka))
    \<and> sse_decode (concat (ch_queue (sse_send_all s es cs' i))) = map event_message es"
proof -
  have s: "s = \<lparr>sse_tx = i\<rparr>" "cs' = cs(i := chan_new)"
    using assms(2) by (auto simp: sse_response_def Let_def)
  have "ch_queue (sse_send_all s es cs' i) = map serialize es"
    using sse_send_all_queue [of cs' s es] by (simp add: s chan_new_def)
  moreover have "get_assign SseStreamKey c' = Some (SseStreamVal i)"
    "\<forall>ka. so_keep_alive so = Some ka \<longrightarrow> get_assign SseKeepAliveKey c' = Some (KeepAliveVal ka)"
    using assms(2) by (auto simp: sse_response_def Let_def conn_store.get_put split: option.splits)
  moreover have "hm_get H ''content-type'' (conn_resp_headers c') = Some (as_bytes ''text/event-stream'')"
    using assms(2) by (auto simp: sse_response_def Let_def assign_def put_resp_header_static_def
        hm_laws_simps(3) [OF assms(1)] split: option.splits)
  ultimately show ?thesis using sse_decode_events [OF assms(3)] by simp
qed

theorem sse_events_delivered_witness:
  "sse_decode (concat (ch_queue (sse_send_all \<lparr>sse_tx = 4\<rparr>
      [event_data [CHR ''a'', newline, CHR ''b''] (event_event ''up'' event_default), event_comment ''hi'']
      ((\<lambda>_. chan_new)(4 := chan_new)) 4)))
   = [\<lparr>sm_data = Some [CHR ''a'', newline, CHR ''b''], sm_event = Some ''up'', sm_id = None, sm_retry = None\<rparr>,
      \<lparr>sm_data = None, sm_event = None, sm_id = None, sm_retry = None\<rparr>]"
proof -
  let ?es = "[event_data [CHR ''a'', newline, CHR ''b''] (event_event ''up'' event_default), event_comment ''hi'']"
  obtain c' where r: "sse_response list_http 4 \<lparr>so_keep_alive = None\<rparr> (conn_test list_http) (\<lambda>_. chan_new)
      = (c', \<lparr>sse_tx = 4\<rparr>, (\<lambda>_. chan_new)(4 := chan_new))"
    by (simp add: sse_response_def Let_def)
  have "\<forall>e \<in> set ?es. event_clean e"
    by (simp add: event_clean_def event_data_def event_event_def event_comment_def event_default_def one_line_def
        ends_with_def starts_with_def)
  from sse_events_delivered [OF hm_laws_list_http r this] show ?thesis
    by (simp add: event_message_def event_data_def event_event_def event_comment_def event_default_def)
qed

end
