(* ===== verification/Mahalo_Plugs.thy ===== *)
theory Mahalo_Plugs
  imports Mahalo_Pipeline Http_Parse
begin

text \<open>
  The small plugs of \<open>mahalo-plug/src\<close>: \<open>request_id.rs\<close>, \<open>csrf.rs\<close>,
  \<open>secure_headers.rs\<close>, \<open>logger.rs\<close> and \<open>etag.rs\<close>. Each \<open>call\<close> is a function
  on \<open>Conn\<close>; what it draws from outside the program is an argument: the random bytes of a token,
  the fresh UUID, the instant, and the third-party HMAC, base64 and BLAKE3 functions, with their
  documented laws as predicates.
\<close>

section \<open>Header values\<close>

text \<open>What the \<open>http\<close> crate documents of \<open>HeaderValue\<close>: visible ASCII text makes a valid
  value and is read back by \<open>to_str\<close>.\<close>

definition visible_ascii :: "string \<Rightarrow> bool" where
  "visible_ascii s \<longleftrightarrow> list_all (\<lambda>c. 32 \<le> u8_of_char c \<and> u8_of_char c < 127) s"

definition header_value_laws :: "'h http_api \<Rightarrow> bool" where
  "header_value_laws H \<longleftrightarrow>
     (\<forall>s. visible_ascii s \<longrightarrow>
        header_value_from_str H s = Some (as_bytes s) \<and> header_value_to_str H (as_bytes s) = Some s)"

definition header_laws :: "'h http_api \<Rightarrow> bool" where
  "header_laws H \<longleftrightarrow> hm_laws H \<and> header_name_laws H \<and> header_value_laws H"

text \<open>\<open>conn.headers.get(name).and_then(|v| v.to_str().ok())\<close>.\<close>

definition req_header_str :: "'h http_api \<Rightarrow> ('h, 'z) conn_scheme \<Rightarrow> string \<Rightarrow> string option" where
  "req_header_str H c name = Option.bind (hm_get H name (conn_headers c)) (header_value_to_str H)"

lemma header_value_laws_list_http: "header_value_laws list_http"
proof -
  have "from_utf8 (as_bytes s) = Some s" if "visible_ascii s" for s
  proof (rule from_utf8_ascii, rule ballI)
    fix c assume "c \<in> set s"
    with that have "u8_of_char c < 127" by (simp add: visible_ascii_def list_all_iff)
    also have "(127 :: u8) < 0x80" by simp
    finally show "u8_of_char c < 0x80" .
  qed
  then show ?thesis by (simp add: header_value_laws_def list_http_def)
qed

lemma header_laws_list_http: "header_laws list_http"
  by (simp add: header_laws_def hm_laws_list_http header_name_laws_list_http header_value_laws_list_http)

text \<open>A response header set from visible text under a lower-case name is read back.\<close>

lemma get_resp_header_put:
  assumes "header_laws H" and "lower_token k" and "visible_ascii v"
  shows "get_resp_header H (put_resp_header H k v c) k = Some v"
  using assms
  by (simp add: header_laws_def header_name_laws_def header_value_laws_def get_resp_header_def
      put_resp_header_def hm_laws_simps)

lemma put_resp_header_frame [simp]:
  "conn_status (put_resp_header H k v c) = conn_status c"
  "conn_halted (put_resp_header H k v c) = conn_halted c"
  "conn_resp_body (put_resp_header H k v c) = conn_resp_body c"
  "conn_headers (put_resp_header H k v c) = conn_headers c"
  "conn_method (put_resp_header H k v c) = conn_method c"
  "conn_uri (put_resp_header H k v c) = conn_uri c"
  "conn_assigns (put_resp_header H k v c) = conn_assigns c"
  by (simp_all add: put_resp_header_def split: option.splits)

lemmas conn_setters = put_status_def put_resp_body_def halt_def assign_def

section \<open>RequestId\<close>

text \<open>The argument \<open>uuid\<close> is the string of \<open>Uuid::new_v4()\<close>.\<close>

definition request_id_call :: "'h http_api \<Rightarrow> string \<Rightarrow> ('h, 'z) conn_scheme \<Rightarrow> ('h, 'z) conn_scheme" where
  "request_id_call H uuid c =
     (let i = (case req_header_str H c ''x-request-id'' of Some s \<Rightarrow> s | None \<Rightarrow> uuid)
      in put_resp_header H ''x-request-id'' i (assign RequestIdKey (StringVal i) c))"

section \<open>CsrfProtection\<close>

record csrf_api =
  hmac_sha256 :: "bytes \<Rightarrow> bytes \<Rightarrow> bytes"
  hmac_verify :: "bytes \<Rightarrow> bytes \<Rightarrow> bytes \<Rightarrow> bool"
  b64_encode :: "bytes \<Rightarrow> string"
  b64_decode :: "string \<Rightarrow> bytes option"

text \<open>The documented behaviour: HMAC-SHA256 accepts every key and gives 32 bytes,
  \<open>verify_slice\<close> compares against them, base64 decoding inverts encoding and the encoding is
  visible ASCII.\<close>

definition csrf_laws :: "csrf_api \<Rightarrow> bool" where
  "csrf_laws A \<longleftrightarrow>
     (\<forall>k m. length (hmac_sha256 A k m) = 32) \<and>
     (\<forall>k m t. hmac_verify A k m t \<longleftrightarrow> t = hmac_sha256 A k m) \<and>
     (\<forall>b. b64_decode A (b64_encode A b) = Some b) \<and>
     (\<forall>b. visible_ascii (b64_encode A b))"

record csrf_protection =
  csrf_secret :: bytes

definition csrf_new :: "bytes \<Rightarrow> csrf_protection" where
  "csrf_new secret = \<lparr>csrf_secret = secret\<rparr>"

text \<open>\<open>rnd\<close> are the 32 bytes drawn from the random generator.\<close>

definition generate_token :: "csrf_api \<Rightarrow> csrf_protection \<Rightarrow> bytes \<Rightarrow> string" where
  "generate_token A p rnd = b64_encode A (rnd @ hmac_sha256 A (csrf_secret p) rnd)"

definition validate_token :: "csrf_api \<Rightarrow> csrf_protection \<Rightarrow> string \<Rightarrow> bool" where
  "validate_token A p token =
     (case b64_decode A token of
        None \<Rightarrow> False
      | Some decoded \<Rightarrow>
          if length decoded \<noteq> 64 then False
          else hmac_verify A (csrf_secret p) (take 32 decoded) (drop 32 decoded))"

definition is_safe_method :: "http_method \<Rightarrow> bool" where
  "is_safe_method m \<longleftrightarrow> m = GET \<or> m = HEAD \<or> m = OPTIONS"

definition csrf_forbidden :: "('h, 'z) conn_scheme \<Rightarrow> ('h, 'z) conn_scheme" where
  "csrf_forbidden c = halt (put_resp_body (as_bytes ''Forbidden'') (put_status 403 c))"

definition csrf_call ::
  "'h http_api \<Rightarrow> csrf_api \<Rightarrow> csrf_protection \<Rightarrow> bytes \<Rightarrow> ('h, 'z) conn_scheme \<Rightarrow> ('h, 'z) conn_scheme" where
  "csrf_call H A p rnd c =
     (if is_safe_method (conn_method c)
      then let token = generate_token A p rnd
           in put_resp_header H ''x-csrf-token'' token (assign CsrfToken (StringVal token) c)
      else case req_header_str H c ''x-csrf-token'' of
             None \<Rightarrow> csrf_forbidden c
           | Some t \<Rightarrow> if \<not> validate_token A p t then csrf_forbidden c
                       else assign CsrfToken (StringVal t) c)"

section \<open>SecureHeaders\<close>

type_synonym secure_headers = "(string \<times> bytes) list"

definition secure_headers_new :: secure_headers where
  "secure_headers_new =
     [(''x-content-type-options'', as_bytes ''nosniff''),
      (''x-frame-options'', as_bytes ''SAMEORIGIN''),
      (''x-xss-protection'', as_bytes ''1; mode=block''),
      (''strict-transport-security'', as_bytes ''max-age=31536000; includeSubDomains''),
      (''x-download-options'', as_bytes ''noopen''),
      (''x-permitted-cross-domain-policies'', as_bytes ''none''),
      (''referrer-policy'', as_bytes ''strict-origin-when-cross-origin'')]"

text \<open>The first entry of that name is overwritten, else the entry is pushed.\<close>

fun set_or_push :: "string \<Rightarrow> bytes \<Rightarrow> secure_headers \<Rightarrow> secure_headers" where
  "set_or_push k v [] = [(k, v)]"
| "set_or_push k v ((k', v') # hs) = (if k' = k then (k', v) # hs else (k', v') # set_or_push k v hs)"

text \<open>\<open>None\<close> is the panic of either \<open>expect\<close>.\<close>

definition secure_headers_put ::
  "'h http_api \<Rightarrow> string \<Rightarrow> string \<Rightarrow> secure_headers \<Rightarrow> secure_headers option" where
  "secure_headers_put H name val hs =
     (case header_name_from_bytes H (as_bytes name) of
        None \<Rightarrow> None
      | Some k \<Rightarrow> (case header_value_from_str H val of
                     None \<Rightarrow> None
                   | Some v \<Rightarrow> Some (set_or_push k v hs)))"

definition secure_headers_remove :: "'h http_api \<Rightarrow> string \<Rightarrow> secure_headers \<Rightarrow> secure_headers" where
  "secure_headers_remove H name hs =
     (case header_name_from_bytes H (as_bytes name) of
        None \<Rightarrow> hs
      | Some k \<Rightarrow> filter (\<lambda>e. fst e \<noteq> k) hs)"

definition secure_headers_call :: "'h http_api \<Rightarrow> secure_headers \<Rightarrow> ('h, 'z) conn_scheme \<Rightarrow> ('h, 'z) conn_scheme" where
  "secure_headers_call H hs c =
     c\<lparr>conn_resp_headers := foldl (\<lambda>h (k, v). hm_insert H k v h) (conn_resp_headers c) hs\<rparr>"

section \<open>Request logger\<close>

text \<open>Instants are nanosecond counts; a log record is what \<open>tracing::info!\<close> is given.\<close>

record log_record =
  log_method :: http_method
  log_path :: string
  log_status :: u16
  log_duration_ms :: "nat option"

definition logger_start_call :: "nat \<Rightarrow> ('h, 'z) conn_scheme \<Rightarrow> ('h, 'z) conn_scheme" where
  "logger_start_call now c = assign RequestStartTime (InstantVal now) c"

definition logger_finish_call :: "nat \<Rightarrow> ('h, 'z) conn_scheme \<Rightarrow> ('h, 'z) conn_scheme \<times> log_record" where
  "logger_finish_call now c =
     (c, \<lparr>log_method = conn_method c, log_path = uri_path (conn_uri c), log_status = conn_status c,
          log_duration_ms =
            (case get_assign RequestStartTime c of
               Some (InstantVal t) \<Rightarrow> Some (((now - t) div 1000000) mod 2 ^ 64)
             | _ \<Rightarrow> None)\<rparr>)"

section \<open>ETag\<close>

text \<open>\<open>blake3_hex\<close> is the hexadecimal BLAKE3 hash of the bytes: 64 hex digits, so the slice
  \<open>[..32]\<close> is in range.\<close>

definition blake3_laws :: "(bytes \<Rightarrow> string) \<Rightarrow> bool" where
  "blake3_laws blake3_hex \<longleftrightarrow>
     (\<forall>b. length (blake3_hex b) = 64 \<and> list_all (\<lambda>d. d \<in> set ''0123456789abcdef'') (blake3_hex b))"

definition etag_value :: "(bytes \<Rightarrow> string) \<Rightarrow> bytes \<Rightarrow> string" where
  "etag_value blake3_hex b = ''W/'' @ [CHR 0x22] @ take 32 (blake3_hex b) @ [CHR 0x22]"

definition etag_call :: "'h http_api \<Rightarrow> (bytes \<Rightarrow> string) \<Rightarrow> ('h, 'z) conn_scheme \<Rightarrow> ('h, 'z) conn_scheme" where
  "etag_call H blake3_hex c =
     (if conn_status c \<noteq> 200 \<or> conn_resp_body c = [] then c
      else let ev = etag_value blake3_hex (conn_resp_body c);
               if_none_match = req_header_str H c ''if-none-match'';
               c' = put_resp_header H ''etag'' ev c
           in if if_none_match = Some ev then halt (put_resp_body [] (put_status 304 c')) else c')"

text \<open>The values a \<open>SecureHeaders\<close> can take: built by \<open>new\<close>, \<open>put\<close> and \<open>remove\<close>.\<close>

inductive secure_built :: "'h http_api \<Rightarrow> secure_headers \<Rightarrow> bool" for H where
  sb_new: "secure_built H secure_headers_new"
| sb_put: "secure_built H hs \<Longrightarrow> secure_headers_put H name val hs = Some hs' \<Longrightarrow> secure_built H hs'"
| sb_remove: "secure_built H hs \<Longrightarrow> secure_built H (secure_headers_remove H name hs)"

section \<open>Lemmas\<close>

lemma generated_token_valid:
  assumes "csrf_laws A" and "length rnd = 32"
  shows "validate_token A p (generate_token A p rnd)"
  using assms by (simp add: csrf_laws_def validate_token_def generate_token_def)

lemma validate_token_iff:
  assumes "csrf_laws A"
  shows "validate_token A p t \<longleftrightarrow>
    (\<exists>rnd. length rnd = 32 \<and> b64_decode A t = Some (rnd @ hmac_sha256 A (csrf_secret p) rnd))"
proof
  assume "validate_token A p t"
  then obtain d where d: "b64_decode A t = Some d" "length d = 64"
    and v: "hmac_verify A (csrf_secret p) (take 32 d) (drop 32 d)"
    by (auto simp: validate_token_def split: option.splits if_splits)
  have "d = take 32 d @ hmac_sha256 A (csrf_secret p) (take 32 d)"
    using v assms by (metis append_take_drop_id csrf_laws_def)
  with d show "\<exists>rnd. length rnd = 32 \<and> b64_decode A t = Some (rnd @ hmac_sha256 A (csrf_secret p) rnd)"
    by (intro exI [of _ "take 32 d"]) simp
next
  assume "\<exists>rnd. length rnd = 32 \<and> b64_decode A t = Some (rnd @ hmac_sha256 A (csrf_secret p) rnd)"
  with assms show "validate_token A p t" by (auto simp: csrf_laws_def validate_token_def)
qed

lemma map_of_set_or_push: "map_of (set_or_push k v hs) = (map_of hs)(k \<mapsto> v)"
  by (induction k v hs rule: set_or_push.induct) auto

lemma set_or_push_keys: "fst ` set (set_or_push k v hs) = insert k (fst ` set hs)"
  by (induction k v hs rule: set_or_push.induct) auto

lemma distinct_set_or_push: "distinct (map fst hs) \<Longrightarrow> distinct (map fst (set_or_push k v hs))"
  by (induction k v hs rule: set_or_push.induct)
    (auto simp: set_or_push_keys)

lemma foldl_insert_get:
  assumes "hm_laws H"
  shows "hm_get H k (foldl (\<lambda>h (k, v). hm_insert H k v h) h hs) =
    (case map_of (rev hs) k of Some v \<Rightarrow> Some v | None \<Rightarrow> hm_get H k h)"
  by (induction hs rule: rev_induct) (auto simp: hm_laws_simps(3) [OF assms] split: option.splits)

lemma map_of_rev_distinct: "distinct (map fst hs) \<Longrightarrow> map_of (rev hs) = map_of hs"
  by (subst map_of_inject_set) (simp_all flip: rev_map)

lemma secure_built_distinct: "secure_built H hs \<Longrightarrow> distinct (map fst hs)"
proof (induction rule: secure_built.induct)
  case sb_new
  show ?case by (simp add: secure_headers_new_def)
next
  case (sb_put hs name val hs')
  then show ?case
    by (auto simp: secure_headers_put_def distinct_set_or_push split: option.splits)
next
  case (sb_remove hs name)
  then show ?case
    by (auto simp: secure_headers_remove_def distinct_map inj_on_def split: option.splits)
qed

lemma etag_value_visible:
  assumes "blake3_laws f"
  shows "visible_ascii (etag_value f b)"
proof -
  have "list_all (\<lambda>d. d \<in> set ''0123456789abcdef'') (take 32 (f b))"
    using assms unfolding blake3_laws_def by (metis append_take_drop_id list_all_append)
  then have "list_all (\<lambda>c. 32 \<le> u8_of_char c \<and> u8_of_char c < 127) (take 32 (f b))"
    by (rule list.pred_mono_strong) (auto simp: u8_of_char_def)
  then show ?thesis by (simp add: visible_ascii_def etag_value_def u8_of_char_def)
qed

section \<open>Properties\<close>

text \<open>An implementation of the CSRF laws with a toy tag, to apply the properties to.\<close>

definition demo_b64 :: "bytes \<Rightarrow> string" where
  "demo_b64 b = concat (map (\<lambda>x. [char_of (64 + unat x div 16), char_of (64 + unat x mod 16)]) b)"

fun demo_unb64 :: "string \<Rightarrow> bytes option" where
  "demo_unb64 [] = Some []"
| "demo_unb64 [c] = None"
| "demo_unb64 (c # d # s) =
     (case demo_unb64 s of
        None \<Rightarrow> None
      | Some b \<Rightarrow> Some (word_of_nat ((of_char c - 64) * 16 + (of_char d - 64)) # b))"

definition demo_tag :: "bytes \<Rightarrow> bytes \<Rightarrow> bytes" where
  "demo_tag k m = replicate 32 (sum_list k * 7 + sum_list m)"

definition demo_csrf :: csrf_api where
  "demo_csrf = \<lparr>hmac_sha256 = demo_tag, hmac_verify = (\<lambda>k m t. t = demo_tag k m),
                b64_encode = demo_b64, b64_decode = demo_unb64\<rparr>"

lemma u8_nibbles: "unat (x :: u8) div 16 < 16" "unat x mod 16 < 16"
proof -
  have "unat x < 256" by simp
  then show "unat x div 16 < 16" by linarith
qed simp

lemma demo_unb64_b64: "demo_unb64 (demo_b64 b) = Some b"
proof (induction b)
  case (Cons x b)
  have "(of_char (char_of (64 + unat x div 16) :: char) :: nat) = 64 + unat x div 16"
    and "(of_char (char_of (64 + unat x mod 16) :: char) :: nat) = 64 + unat x mod 16"
    using u8_nibbles [of x] by simp_all
  moreover have "(word_of_nat (unat x div 16 * 16 + unat x mod 16) :: u8) = x" by simp
  ultimately show ?case using Cons by (simp add: demo_b64_def)
qed (simp add: demo_b64_def)

lemma demo_b64_visible: "visible_ascii (demo_b64 b)"
proof (induction b)
  case (Cons x b)
  have "32 \<le> u8_of_char (char_of n) \<and> u8_of_char (char_of n) < 127" if "64 \<le> n" "n < 80" for n :: nat
    using that by (simp add: u8_of_char_def word_le_nat_alt word_less_nat_alt)
  with u8_nibbles [of x] Cons show ?case by (simp add: demo_b64_def visible_ascii_def)
qed (simp add: demo_b64_def visible_ascii_def)

lemma csrf_laws_demo: "csrf_laws demo_csrf"
  by (simp add: csrf_laws_def demo_csrf_def demo_tag_def demo_unb64_b64 demo_b64_visible)

text \<open>C27: The token a safe request is given in the \<open>x-csrf-token\<close> response header is accepted when a
  later unsafe request sends it back: the plug lets that request through unhalted and both requests
  see the token in their assigns.\<close>

theorem csrf_token_roundtrip:
  assumes "header_laws H" and "csrf_laws A" and "length rnd = 32"
    and "is_safe_method (conn_method c1)" and "\<not> is_safe_method (conn_method c2)"
    and "req_header_str H c2 ''x-csrf-token'' = get_resp_header H (csrf_call H A p rnd c1) ''x-csrf-token''"
  shows "\<exists>t. csrf_call H A p rnd' c2 = assign CsrfToken (StringVal t) c2
    \<and> get_assign CsrfToken (csrf_call H A p rnd c1) = Some (StringVal t)
    \<and> conn_halted (csrf_call H A p rnd' c2) = conn_halted c2"
proof -
  let ?t = "generate_token A p rnd"
  have "lower_token ''x-csrf-token''" by (simp add: lower_token_def)
  moreover have "visible_ascii ?t" using assms(2) by (simp add: csrf_laws_def generate_token_def)
  ultimately have "req_header_str H c2 ''x-csrf-token'' = Some ?t"
    using assms(1,4,6) by (simp add: csrf_call_def Let_def get_resp_header_put)
  then have "csrf_call H A p rnd' c2 = assign CsrfToken (StringVal ?t) c2"
    using assms(5) generated_token_valid [OF assms(2,3)] by (simp add: csrf_call_def)
  moreover have "get_assign CsrfToken (csrf_call H A p rnd c1) = Some (StringVal ?t)"
    using assms(4) by (simp add: csrf_call_def Let_def get_assign_def assign_def downcast_def)
  ultimately show ?thesis by (intro exI [of _ ?t]) (simp add: assign_def)
qed

definition demo_get :: "(string \<times> bytes) list conn" where
  "demo_get = conn_test list_http"

definition demo_post :: "string \<Rightarrow> (string \<times> bytes) list conn" where
  "demo_post t = (conn_new list_http POST \<lparr>uri_path = ''/'', uri_query = None\<rparr>)
     \<lparr>conn_headers := [(''x-csrf-token'', as_bytes t)]\<rparr>"

lemma demo_post_simps [simp]:
  "conn_method (demo_post t) = POST" "conn_halted (demo_post t) = False"
  "visible_ascii t \<Longrightarrow> req_header_str list_http (demo_post t) ''x-csrf-token'' = Some t"
  using header_value_laws_list_http
  by (simp_all add: demo_post_def conn_new_def req_header_str_def header_value_laws_def)
    (simp add: list_http_def)

theorem csrf_token_roundtrip_witness:
  "conn_halted (csrf_call list_http demo_csrf (csrf_new [9]) []
     (demo_post (generate_token demo_csrf (csrf_new [9]) (replicate 32 5)))) = False"
proof -
  let ?t = "generate_token demo_csrf (csrf_new [9]) (replicate 32 5)"
  have safe: "is_safe_method (conn_method demo_get)" "\<not> is_safe_method (conn_method (demo_post ?t))"
    by (simp_all add: demo_get_def conn_test_def conn_new_def is_safe_method_def)
  have "visible_ascii ?t" by (simp add: generate_token_def demo_csrf_def demo_b64_visible)
  then have "req_header_str list_http (demo_post ?t) ''x-csrf-token'' =
      get_resp_header list_http (csrf_call list_http demo_csrf (csrf_new [9]) (replicate 32 5) demo_get) ''x-csrf-token''"
    using safe by (simp add: csrf_call_def Let_def get_resp_header_put [OF header_laws_list_http] lower_token_def)
  from csrf_token_roundtrip [OF header_laws_list_http csrf_laws_demo _ safe this, of "[]"]
  show ?thesis by auto
qed

text \<open>C26: An unsafe request passes the CSRF plug only with a token that decodes to 32 bytes followed by
  their HMAC under the secret. Every other unsafe request is answered 403 and halted, so no later
  plug of the pipeline sees it.\<close>

theorem csrf_guards_unsafe:
  assumes "csrf_laws A" and "\<not> is_safe_method (conn_method c)" and "\<not> conn_halted c"
  shows "run_plugs (plug_fn (csrf_call H A p rnd) # ps) c =
     (case req_header_str H c ''x-csrf-token'' of
        Some t \<Rightarrow> if \<exists>r. length r = 32 \<and> b64_decode A t = Some (r @ hmac_sha256 A (csrf_secret p) r)
                  then run_plugs ps (assign CsrfToken (StringVal t) c) else csrf_forbidden c
      | None \<Rightarrow> csrf_forbidden c)
   \<and> conn_status (csrf_forbidden c) = 403 \<and> conn_halted (csrf_forbidden c)"
proof -
  have halted: "run_plugs ps (csrf_forbidden c) = csrf_forbidden c"
    by (cases ps) (simp_all add: csrf_forbidden_def halt_def)
  show ?thesis
    using assms(2,3) halted validate_token_iff [OF assms(1), of p]
    by (auto simp: csrf_call_def csrf_forbidden_def conn_setters split: option.splits)
qed

theorem csrf_guards_unsafe_witness:
  "run_plugs [plug_fn (csrf_call list_http demo_csrf (csrf_new [9]) []), plug_fn (put_status 201)] (demo_post ''A'')
     = csrf_forbidden (demo_post ''A'')"
proof -
  have m: "\<not> is_safe_method (conn_method (demo_post ''A''))" "\<not> conn_halted (demo_post ''A'')"
    by (simp_all add: is_safe_method_def)
  have "req_header_str list_http (demo_post ''A'') ''x-csrf-token'' = Some ''A''"
    by (simp add: visible_ascii_def u8_of_char_def)
  moreover have "b64_decode demo_csrf ''A'' = None" by (simp add: demo_csrf_def)
  ultimately show ?thesis
    using csrf_guards_unsafe [OF csrf_laws_demo m, of list_http "csrf_new [9]" "[]" "[plug_fn (put_status 201)]"]
    by simp
qed

text \<open>Conditional requests: a client that sends back the \<open>etag\<close> of an earlier answer is told 304
  with an empty body exactly when the truncated hashes of the two bodies agree, in particular when
  the body has not changed; otherwise it gets the new body with its status 200 and a new \<open>etag\<close>.\<close>

theorem etag_revalidation:
  assumes "header_laws H" and "blake3_laws f"
    and "conn_status c1 = 200" and "conn_resp_body c1 \<noteq> []"
    and "conn_status c2 = 200" and "conn_resp_body c2 \<noteq> []"
    and "req_header_str H c2 ''if-none-match'' = get_resp_header H (etag_call H f c1) ''etag''"
  shows "let r = etag_call H f c2 in
     (if take 32 (f (conn_resp_body c1)) = take 32 (f (conn_resp_body c2))
      then conn_status r = 304 \<and> conn_resp_body r = [] \<and> conn_halted r
      else conn_status r = 200 \<and> conn_resp_body r = conn_resp_body c2 \<and> conn_halted r = conn_halted c2)
     \<and> get_resp_header H r ''etag'' = Some (etag_value f (conn_resp_body c2))"
proof -
  let ?e = "\<lambda>c. etag_value f (conn_resp_body c)"
  have tok: "lower_token ''etag''" by (simp add: lower_token_def)
  have get: "get_resp_header H (put_resp_header H ''etag'' (?e c) d) ''etag'' = Some (?e c)" for c d
    by (rule get_resp_header_put [OF assms(1) tok etag_value_visible [OF assms(2)]])
  have get': "get_resp_header H (halt (put_resp_body [] (put_status 304 d))) n = get_resp_header H d n" for d n
    by (simp add: get_resp_header_def conn_setters)
  have "get_resp_header H (etag_call H f c1) ''etag'' = Some (?e c1)"
    using assms(3,4) by (simp add: etag_call_def Let_def get get')
  with assms(7) have inm: "req_header_str H c2 ''if-none-match'' = Some (?e c1)" by simp
  have eq: "?e c1 = ?e c2 \<longleftrightarrow> take 32 (f (conn_resp_body c1)) = take 32 (f (conn_resp_body c2))"
    by (simp add: etag_value_def)
  show ?thesis
    using assms(5,6) inm eq by (simp add: etag_call_def Let_def get get') (simp add: conn_setters)
qed

definition demo_page :: "string option \<Rightarrow> bytes \<Rightarrow> (string \<times> bytes) list conn" where
  "demo_page inm b = (conn_test list_http)
     \<lparr>conn_resp_body := b,
      conn_headers := (case inm of None \<Rightarrow> [] | Some t \<Rightarrow> [(''if-none-match'', as_bytes t)])\<rparr>"

definition demo_blake3 :: "bytes \<Rightarrow> string" where
  "demo_blake3 b = replicate 64 (if length b mod 2 = 0 then CHR ''a'' else CHR ''b'')"

lemma blake3_laws_demo: "blake3_laws demo_blake3"
  by (simp add: blake3_laws_def demo_blake3_def list_all_iff)

lemma demo_page_simps [simp]:
  "conn_status (demo_page i b) = 200" "conn_resp_body (demo_page i b) = b"
  "visible_ascii t \<Longrightarrow> req_header_str list_http (demo_page (Some t) b) ''if-none-match'' = Some t"
  "req_header_str list_http (demo_page None b) ''if-none-match'' = None"
  using header_value_laws_list_http
  by (simp_all add: demo_page_def conn_test_def conn_new_def req_header_str_def header_value_laws_def)
    (simp_all add: list_http_def)

theorem etag_revalidation_witness:
  "conn_status (etag_call list_http demo_blake3 (demo_page (Some (etag_value demo_blake3 [1])) [1])) = 304"
proof -
  let ?e = "etag_value demo_blake3 [1]"
  have "get_resp_header list_http (etag_call list_http demo_blake3 (demo_page None [1])) ''etag'' = Some ?e"
    by (simp add: etag_call_def Let_def lower_token_def etag_value_visible [OF blake3_laws_demo]
        get_resp_header_put [OF header_laws_list_http])
  then show ?thesis
    using etag_revalidation [OF header_laws_list_http blake3_laws_demo, of "demo_page None [1]" "demo_page (Some ?e) [1]"]
    by (simp add: etag_value_visible [OF blake3_laws_demo] Let_def)
qed

text \<open>A configured \<open>SecureHeaders\<close> is a map from header names to values, which \<open>put\<close> updates and
  \<open>remove\<close> deletes from whatever the case of the name; on the response every configured header has
  exactly the configured value, also over one a handler set, and other headers are not touched.\<close>

theorem secure_headers_applied:
  assumes "header_laws H" and "secure_built H hs"
  shows "hm_get H k (conn_resp_headers (secure_headers_call H hs c)) =
           (case map_of hs k of Some v \<Rightarrow> Some v | None \<Rightarrow> hm_get H k (conn_resp_headers c))
       \<and> (header_name_from_bytes H (as_bytes n) = Some k' \<longrightarrow>
            map_of (secure_headers_remove H n hs) = (map_of hs)(k' := None)
            \<and> (header_value_from_str H x = Some v \<longrightarrow>
                 (\<exists>hs'. secure_headers_put H n x hs = Some hs' \<and> map_of hs' = (map_of hs)(k' \<mapsto> v))))"
proof -
  have "map_of (rev hs) = map_of hs"
    by (rule map_of_rev_distinct [OF secure_built_distinct [OF assms(2)]])
  moreover have "hm_laws H" using assms(1) by (simp add: header_laws_def)
  ultimately have "hm_get H k (conn_resp_headers (secure_headers_call H hs c)) =
       (case map_of hs k of Some v \<Rightarrow> Some v | None \<Rightarrow> hm_get H k (conn_resp_headers c))"
    by (simp add: secure_headers_call_def foldl_insert_get)
  then show ?thesis
    by (auto simp: secure_headers_remove_def secure_headers_put_def map_of_set_or_push map_of_filter_ne)
qed

theorem secure_headers_applied_witness:
  "hm_get list_http ''x-frame-options'' (conn_resp_headers
     (secure_headers_call list_http (secure_headers_remove list_http ''x-frame-options'' secure_headers_new)
        (put_resp_header_static list_http ''x-frame-options'' [68] (conn_test list_http)))) = Some [68]"
proof -
  let ?hs = "secure_headers_remove list_http ''x-frame-options'' secure_headers_new"
  let ?c = "put_resp_header_static list_http ''x-frame-options'' [68] (conn_test list_http)"
  have built: "secure_built list_http ?hs" by (rule secure_built.sb_remove [OF secure_built.sb_new])
  have tok: "lower_token ''x-frame-options''" by (simp add: lower_token_def)
  have name: "header_name_from_bytes list_http (as_bytes ''x-frame-options'') = Some ''x-frame-options''"
    using header_name_laws_list_http tok unfolding header_name_laws_def by blast
  have "map_of ?hs ''x-frame-options'' = None"
    by (simp add: secure_headers_remove_def name map_of_filter_ne del: as_bytes_simps)
  moreover have "hm_get list_http ''x-frame-options'' (conn_resp_headers ?c) = Some [68]"
    by (simp add: put_resp_header_static_def hm_laws_simps(3) [OF hm_laws_list_http])
  ultimately show ?thesis
    using secure_headers_applied [OF header_laws_list_http built, of "''x-frame-options''" ?c] by simp
qed

end
