(* ===== verification/Rust_Path.thy ===== *)
theory Rust_Path
  imports Rust_Std
begin

text \<open>
  What the static-file plug uses of \<open>std::path\<close> on Unix: a path is the string of its bytes;
  \<open>components\<close>, \<open>join\<close>, \<open>starts_with\<close>, \<open>file_name\<close>, \<open>extension\<close>,
  \<open>file_stem\<close> and \<open>with_extension\<close> follow the standard library. The lemmas are about
  canonical paths (absolute, no empty, \<open>.\<close> or \<open>..\<close> segment), the form that
  \<open>std::fs::canonicalize\<close> returns.
\<close>

section \<open>Components\<close>

datatype path_component = RootDir | CurDir | ParentDir | Normal string

abbreviation (input) slash :: char where
  "slash \<equiv> CHR ''/''"

definition is_absolute :: "string \<Rightarrow> bool" where
  "is_absolute p \<longleftrightarrow> starts_with p [slash]"

text \<open>Repeated separators and \<open>.\<close> segments are skipped, except a leading \<open>.\<close>.\<close>

definition seg_component :: "string \<Rightarrow> path_component list" where
  "seg_component s =
     (if s = [] \<or> s = ''.'' then [] else if s = ''..'' then [ParentDir] else [Normal s])"

definition path_components :: "string \<Rightarrow> path_component list" where
  "path_components p =
     (if is_absolute p then [RootDir] else if starts_with (split_on slash p) [''.''] then [CurDir] else [])
     @ concat (map seg_component (split_on slash p))"

definition path_starts_with :: "string \<Rightarrow> string \<Rightarrow> bool" where
  "path_starts_with p base = starts_with (path_components p) (path_components base)"

text \<open>\<open>PathBuf::push\<close>: an absolute path replaces the buffer.\<close>

definition path_join :: "string \<Rightarrow> string \<Rightarrow> string" where
  "path_join base p =
     (if is_absolute p then p
      else if base \<noteq> [] \<and> last base \<noteq> slash then base @ slash # p else base @ p)"

section \<open>File names\<close>

definition path_file_name :: "string \<Rightarrow> string option" where
  "path_file_name p = (case rev (path_components p) of Normal s # _ \<Rightarrow> Some s | _ \<Rightarrow> None)"

definition rsplit_file_at_dot :: "string \<Rightarrow> string option \<times> string option" where
  "rsplit_file_at_dot f =
     (if f = ''..'' then (Some f, None)
      else case dropWhile (\<lambda>c. c \<noteq> CHR ''.'') (rev f) of
        [] \<Rightarrow> (None, Some f)
      | _ # b \<Rightarrow> if b = [] then (Some f, None)
                 else (Some (rev b), Some (rev (takeWhile (\<lambda>c. c \<noteq> CHR ''.'') (rev f)))))"

definition path_extension :: "string \<Rightarrow> string option" where
  "path_extension p =
     (case path_file_name p of
        None \<Rightarrow> None
      | Some f \<Rightarrow> (case rsplit_file_at_dot f of (Some b, a) \<Rightarrow> a | (None, a) \<Rightarrow> None))"

definition file_stem :: "string \<Rightarrow> string" where
  "file_stem f = (case rsplit_file_at_dot f of (Some b, a) \<Rightarrow> b | (None, Some a) \<Rightarrow> a | (None, None) \<Rightarrow> f)"

text \<open>The buffer up to the end of its last component.\<close>

fun trim_trailing_rev :: "string \<Rightarrow> string" where
  "trim_trailing_rev (c # d # s) =
     (if c = slash then trim_trailing_rev (d # s)
      else if c = CHR ''.'' \<and> d = slash then trim_trailing_rev s else c # d # s)"
| "trim_trailing_rev [c] = (if c = slash then [] else [c])"
| "trim_trailing_rev [] = []"

text \<open>\<open>set_extension\<close>: the buffer is cut after the file stem, then a dot and the extension are
  pushed. A path without file name is left alone.\<close>

definition path_with_extension :: "string \<Rightarrow> string \<Rightarrow> string" where
  "path_with_extension p e =
     (case path_file_name p of
        None \<Rightarrow> p
      | Some f \<Rightarrow>
          (let q = rev (trim_trailing_rev (rev p))
           in take (length q - length f) q @ file_stem f @ (if e = [] then [] else CHR ''.'' # e)))"

section \<open>Canonical paths\<close>

definition canonical_segment :: "string \<Rightarrow> bool" where
  "canonical_segment s \<longleftrightarrow> s \<noteq> [] \<and> s \<noteq> ''.'' \<and> s \<noteq> ''..'' \<and> slash \<notin> set s"

definition canonical_segments :: "string list \<Rightarrow> bool" where
  "canonical_segments ss \<longleftrightarrow> list_all canonical_segment ss"

definition path_of :: "string list \<Rightarrow> string" where
  "path_of ss = slash # join [slash] ss"

definition canonical_path :: "string \<Rightarrow> bool" where
  "canonical_path p \<longleftrightarrow>
     (case p of [] \<Rightarrow> False
      | c # r \<Rightarrow> c = slash \<and> (r = [] \<or> canonical_segments (split_on slash r)))"

lemma canonical_path_segments:
  assumes "canonical_path p"
  obtains ss where "p = path_of ss" and "canonical_segments ss"
proof (cases "p = [slash]")
  case True
  then have "p = path_of []" "canonical_segments []" by (simp_all add: path_of_def canonical_segments_def)
  then show ?thesis by (rule that)
next
  case False
  with assms obtain r where p: "p = slash # r" and "canonical_segments (split_on slash r)"
    by (auto simp: canonical_path_def split: list.splits)
  moreover have "p = path_of (split_on slash r)" by (simp add: p path_of_def)
  ultimately show ?thesis by (intro that)
qed

lemma split_on_path_of:
  "canonical_segments ss \<Longrightarrow> ss \<noteq> [] \<Longrightarrow> split_on slash (path_of ss) = [] # ss"
  by (auto simp: path_of_def canonical_segments_def canonical_segment_def list_all_iff intro!: split_on_join)

lemma path_components_canonical [simp]:
  assumes "canonical_segments ss"
  shows "path_components (path_of ss) = RootDir # map Normal ss"
proof -
  have "concat (map seg_component ss) = map Normal ss"
    using assms by (induction ss) (auto simp: canonical_segments_def canonical_segment_def seg_component_def)
  moreover have "is_absolute (path_of ss)" by (simp add: is_absolute_def path_of_def starts_with_def)
  moreover have "concat (map seg_component (split_on slash (path_of ss))) = concat (map seg_component ss)"
    using split_on_path_of [OF assms]
    by (cases "ss = []") (simp_all add: path_of_def seg_component_def)
  ultimately show ?thesis by (simp add: path_components_def)
qed

lemma path_starts_with_canonical:
  assumes "canonical_segments ss" and "canonical_segments rs"
  shows "path_starts_with (path_of ss) (path_of rs) \<longleftrightarrow> (\<exists>ts. ss = rs @ ts)"
  using assms
  by (auto simp: path_starts_with_def starts_with_iff map_eq_append_conv inj_map_eq_map inj_def
      path_component.inject dest!: sym [of "map Normal _ @ _"])

lemma path_file_name_canonical:
  "canonical_segments (ss @ [f]) \<Longrightarrow> path_file_name (path_of (ss @ [f])) = Some f"
  by (simp add: path_file_name_def)

lemma path_of_snoc: "path_of (ss @ [f]) = (if ss = [] then [slash] else path_of ss @ [slash]) @ f"
proof -
  have "join [slash] (ss @ [f]) = (if ss = [] then [] else join [slash] ss @ [slash]) @ f"
    by (induction ss) (auto simp: join_Cons)
  then show ?thesis by (auto simp: path_of_def)
qed

lemma trim_trailing_plain:
  assumes "canonical_segment f"
  shows "trim_trailing_rev (rev f @ slash # s) = rev f @ slash # s"
proof -
  obtain c r where f: "rev f = c # r" using assms by (cases "rev f") (auto simp: canonical_segment_def)
  have "slash \<notin> set (rev f)" using assms by (simp add: canonical_segment_def)
  moreover have "r \<noteq> [] \<or> c \<noteq> CHR ''.''"
    using assms f by (metis canonical_segment_def rev_singleton_conv)
  ultimately show ?thesis using f by (cases r) auto
qed

text \<open>Changing the extension of a canonical path keeps its directory.\<close>

lemma path_with_extension_canonical:
  assumes "canonical_segments (ss @ [f])"
  shows "path_with_extension (path_of (ss @ [f])) e =
           path_of (ss @ [file_stem f @ (if e = [] then [] else CHR ''.'' # e)])"
proof -
  let ?pre = "if ss = [] then [] else path_of ss"
  from assms have f: "canonical_segment f" by (simp add: canonical_segments_def)
  have p: "path_of (ss @ [g]) = ?pre @ slash # g" for g by (simp add: path_of_snoc)
  have "rev (trim_trailing_rev (rev (path_of (ss @ [f])))) = path_of (ss @ [f])"
    unfolding p using trim_trailing_plain [OF f, of "rev ?pre"] by (simp del: trim_trailing_rev.simps)
  with path_file_name_canonical [OF assms] show ?thesis
    by (simp add: path_with_extension_def Let_def p)
qed

lemma file_stem_plain:
  assumes "canonical_segment f"
  shows "file_stem f \<noteq> []" and "slash \<notin> set (file_stem f)"
proof -
  have "\<exists>t. f = file_stem f @ t \<and> file_stem f \<noteq> []"
  proof (cases "dropWhile (\<lambda>c. c \<noteq> CHR ''.'') (rev f)")
    case Nil
    have "file_stem f = f"
      by (simp add: file_stem_def rsplit_file_at_dot_def Nil del: dropWhile_eq_Nil_conv)
    with assms show ?thesis by (simp add: canonical_segment_def)
  next
    case (Cons d b)
    have "rev f = takeWhile (\<lambda>c. c \<noteq> CHR ''.'') (rev f) @ d # b"
      using Cons by (metis takeWhile_dropWhile_id)
    then have "f = rev b @ [d] @ rev (takeWhile (\<lambda>c. c \<noteq> CHR ''.'') (rev f))"
      by (metis append.assoc rev.simps(2) rev_append rev_rev_ident)
    with Cons assms show ?thesis
      by (cases "b = []") (auto simp: file_stem_def rsplit_file_at_dot_def canonical_segment_def)
  qed
  then obtain t where t: "f = file_stem f @ t" and "file_stem f \<noteq> []" by blast
  then show "file_stem f \<noteq> []" by simp
  have "set (file_stem f) \<subseteq> set f" by (subst (2) t) simp
  with assms show "slash \<notin> set (file_stem f)" by (auto simp: canonical_segment_def)
qed

lemma path_with_extension_stays:
  assumes "canonical_path p" and "canonical_path root" and "path_starts_with p root" and "p \<noteq> root"
    and "length e > 1" and "slash \<notin> set e"
  shows "canonical_path (path_with_extension p e) \<and> path_starts_with (path_with_extension p e) root"
proof -
  obtain ss where p: "p = path_of ss" and ss: "canonical_segments ss"
    using assms(1) by (rule canonical_path_segments)
  obtain rs where root: "root = path_of rs" and rs: "canonical_segments rs"
    using assms(2) by (rule canonical_path_segments)
  obtain ts where ts: "ss = rs @ ts" "ts \<noteq> []"
    using assms(3,4) path_starts_with_canonical [OF ss rs] p root by (metis append_Nil2)
  define ds f where "ds = rs @ butlast ts" and "f = last ts"
  have split: "ss = ds @ [f]" using ts by (simp add: ds_def f_def)
  let ?g = "file_stem f @ CHR ''.'' # e"
  have f: "canonical_segment f" using ss split by (simp add: canonical_segments_def)
  have "canonical_segment ?g"
    using file_stem_plain [OF f] assms(5,6) by (cases "file_stem f"; cases e) (auto simp: canonical_segment_def)
  then have canon: "canonical_segments (ds @ [?g])" using ss split by (simp add: canonical_segments_def)
  have "path_with_extension p e = path_of (ds @ [?g])"
    unfolding p split using path_with_extension_canonical [of ds f e] ss split assms(5) by auto
  moreover have "path_starts_with (path_of (ds @ [?g])) root"
    using path_starts_with_canonical [OF canon rs] root by (simp add: ds_def)
  moreover have "canonical_path (path_of (ds @ [?g]))"
    using canon split_on_join [of "ds @ [?g]" slash]
    by (auto simp: canonical_path_def path_of_def canonical_segments_def canonical_segment_def list_all_iff)
  ultimately show ?thesis by simp
qed

end
