(* ===== verification/Static_Files.thy ===== *)
theory Static_Files
  imports Mahalo_Plugs Rust_Path
begin

text \<open>
  The static-file plug, \<open>mahalo-plug/src/static_files.rs\<close>. The file system is a record of the
  three calls the plug makes, taken as constant during one request; \<open>canonicalize_laws\<close> is what
  \<open>std::fs::canonicalize\<close> promises. The theorems are that nothing outside the served directory
  is ever sent, and what a mount at the root serves.
\<close>

section \<open>Definitions\<close>

record fs =
  fs_canonicalize :: "string \<Rightarrow> string option"
  fs_is_file :: "string \<Rightarrow> bool option"
  fs_read :: "string \<Rightarrow> bytes option"

definition canonicalize_laws :: "fs \<Rightarrow> bool" where
  "canonicalize_laws F \<longleftrightarrow> (\<forall>p q. fs_canonicalize F p = Some q \<longrightarrow> canonical_path q)"

record static_files =
  sf_url_prefix :: string
  sf_dir :: string
  sf_cache_control :: bytes

text \<open>\<open>while prefix.ends_with('/') && prefix.len() > 1 { prefix.pop() }\<close>, on the reversed
  string.\<close>

fun pop_slashes_rev :: "string \<Rightarrow> string" where
  "pop_slashes_rev (c # d # s) = (if c = slash then pop_slashes_rev (d # s) else c # d # s)"
| "pop_slashes_rev s = s"

definition static_files_new :: "string \<Rightarrow> string \<Rightarrow> static_files" where
  "static_files_new url_prefix dir =
     (let prefix = (if starts_with url_prefix [slash] then url_prefix else slash # url_prefix)
      in \<lparr>sf_url_prefix = rev (pop_slashes_rev (rev prefix)), sf_dir = dir,
          sf_cache_control = as_bytes ''public, max-age=3600''\<rparr>)"

text \<open>\<open>None\<close> is the panic of the \<open>expect\<close>.\<close>

definition static_cache_control :: "'h http_api \<Rightarrow> string \<Rightarrow> static_files \<Rightarrow> static_files option" where
  "static_cache_control H val sf =
     (case header_value_from_str H val of None \<Rightarrow> None | Some v \<Rightarrow> Some (sf\<lparr>sf_cache_control := v\<rparr>))"

definition mime_from_extension :: "string \<Rightarrow> string" where
  "mime_from_extension ext =
     (if ext = ''html'' then ''text/html''
      else if ext = ''css'' then ''text/css''
      else if ext = ''js'' then ''text/javascript''
      else if ext = ''json'' then ''application/json''
      else if ext = ''png'' then ''image/png''
      else if ext = ''jpg'' \<or> ext = ''jpeg'' then ''image/jpeg''
      else if ext = ''gif'' then ''image/gif''
      else if ext = ''svg'' then ''image/svg+xml''
      else if ext = ''woff2'' then ''font/woff2''
      else if ext = ''ico'' then ''image/x-icon''
      else if ext = ''txt'' then ''text/plain''
      else ''application/octet-stream'')"

definition check_etag :: "'h http_api \<Rightarrow> (bytes \<Rightarrow> string) \<Rightarrow> ('h, 'z) conn_scheme \<Rightarrow> bytes \<Rightarrow> ('h, 'z) conn_scheme \<times> bool" where
  "check_etag H blake3_hex c contents =
     (let ev = etag_value blake3_hex contents;
          matches = (case req_header_str H c ''if-none-match'' of Some s \<Rightarrow> s = ev | None \<Rightarrow> False)
      in (put_resp_header H ''etag'' ev c, matches))"

definition is_compressible :: "string \<Rightarrow> bool" where
  "is_compressible mime =
     (if starts_with mime ''video/'' \<or> starts_with mime ''audio/'' then False
      else if starts_with mime ''image/'' \<and> mime \<noteq> ''image/svg+xml'' then False
      else mime \<notin> {''font/woff2'', ''application/zip'', ''application/gzip'', ''application/x-bzip2'',
                     ''application/octet-stream''})"

text \<open>The part of the path below the prefix, \<open>None\<close> where the plug passes the request on.\<close>

definition static_relative :: "static_files \<Rightarrow> string \<Rightarrow> string option" where
  "static_relative sf path =
     (if path = sf_url_prefix sf then Some []
      else case strip_prefix (sf_url_prefix sf) path of
             Some rest \<Rightarrow> strip_prefix [slash] rest
           | None \<Rightarrow> None)"

definition path_ext_str :: "string \<Rightarrow> string" where
  "path_ext_str p =
     (case Option.bind (path_extension p) (\<lambda>e. from_utf8 (as_bytes e)) of Some e \<Rightarrow> e | None \<Rightarrow> [])"

definition variants :: "(string \<times> string \<times> string) list" where
  "variants = [(''br'', ''.br'', ''br''), (''zstd'', ''.zst'', ''zstd''), (''gzip'', ''.gz'', ''gzip'')]"

definition compressed_path :: "string \<Rightarrow> string \<Rightarrow> string" where
  "compressed_path canonical suffix = path_with_extension canonical (path_ext_str canonical @ suffix)"

definition set_mime_and_cache :: "'h http_api \<Rightarrow> static_files \<Rightarrow> string \<Rightarrow> ('h, 'z) conn_scheme \<Rightarrow> ('h, 'z) conn_scheme" where
  "set_mime_and_cache H sf mime c =
     c\<lparr>conn_resp_headers :=
         hm_insert H ''cache-control'' (sf_cache_control sf)
           (hm_insert H ''content-type'' (as_bytes mime) (conn_resp_headers c))\<rparr>"

text \<open>The common tail of both branches: 304 on a matching \<open>etag\<close>, no body for HEAD.\<close>

definition static_finish :: "bool \<Rightarrow> bool \<Rightarrow> bytes \<Rightarrow> ('h, 'z) conn_scheme \<Rightarrow> ('h, 'z) conn_scheme" where
  "static_finish etag_match is_head contents c =
     (if etag_match then halt (put_resp_body [] (put_status 304 c))
      else if \<not> is_head then halt (put_resp_body contents c) else halt c)"

definition serve_variant ::
  "'h http_api \<Rightarrow> (bytes \<Rightarrow> string) \<Rightarrow> static_files \<Rightarrow> string \<Rightarrow> string \<Rightarrow> bytes \<Rightarrow> ('h, 'z) conn_scheme \<Rightarrow> ('h, 'z) conn_scheme" where
  "serve_variant H blake3_hex sf mime encoding contents c =
     (let is_head = (conn_method c = HEAD)
      in case check_etag H blake3_hex c contents of (c1, etag_match) \<Rightarrow>
           static_finish etag_match is_head contents
             (set_mime_and_cache H sf mime
                (put_resp_header H ''content-length'' (nat_to_string (length contents))
                   (put_resp_header H ''vary'' ''accept-encoding''
                      (put_resp_header H ''content-encoding'' encoding (put_status 200 c1))))))"

fun try_variants ::
  "'h http_api \<Rightarrow> (bytes \<Rightarrow> string) \<Rightarrow> fs \<Rightarrow> static_files \<Rightarrow> string \<Rightarrow> string \<Rightarrow> string
    \<Rightarrow> (string \<times> string \<times> string) list \<Rightarrow> ('h, 'z) conn_scheme \<Rightarrow> ('h, 'z) conn_scheme option" where
  "try_variants H b3 F sf mime accept canonical [] c = None"
| "try_variants H b3 F sf mime accept canonical ((token, suffix, encoding) # vs) c =
     (if str_contains accept token \<and> fs_is_file F (compressed_path canonical suffix) = Some True
      then case fs_read F (compressed_path canonical suffix) of
             Some contents \<Rightarrow> Some (serve_variant H b3 sf mime encoding contents c)
           | None \<Rightarrow> try_variants H b3 F sf mime accept canonical vs c
      else try_variants H b3 F sf mime accept canonical vs c)"

definition serve_plain ::
  "'h http_api \<Rightarrow> (bytes \<Rightarrow> string) \<Rightarrow> static_files \<Rightarrow> string \<Rightarrow> bool \<Rightarrow> bytes \<Rightarrow> ('h, 'z) conn_scheme \<Rightarrow> ('h, 'z) conn_scheme" where
  "serve_plain H blake3_hex sf mime compressible contents c =
     (let is_head = (conn_method c = HEAD)
      in case check_etag H blake3_hex c contents of (c1, etag_match) \<Rightarrow>
           (let c2 = set_mime_and_cache H sf mime
                       (put_resp_header H ''content-length'' (nat_to_string (length contents)) (put_status 200 c1));
                c3 = (if compressible then put_resp_header H ''vary'' ''accept-encoding'' c2 else c2)
            in static_finish etag_match is_head contents c3))"

text \<open>What follows the security checks, for the requested path and its canonical form.\<close>

definition serve_file ::
  "'h http_api \<Rightarrow> (bytes \<Rightarrow> string) \<Rightarrow> fs \<Rightarrow> static_files \<Rightarrow> string \<Rightarrow> string \<Rightarrow> ('h, 'z) conn_scheme \<Rightarrow> ('h, 'z) conn_scheme" where
  "serve_file H b3 F sf file_path canonical c =
     (let mime = mime_from_extension (path_ext_str file_path);
          compressible = is_compressible mime;
          accept = (case req_header_str H c ''accept-encoding'' of Some s \<Rightarrow> s | None \<Rightarrow> [])
      in case (if compressible then try_variants H b3 F sf mime accept canonical variants c else None) of
           Some c' \<Rightarrow> c'
         | None \<Rightarrow> (case fs_read F canonical of
                      None \<Rightarrow> c
                    | Some contents \<Rightarrow> serve_plain H b3 sf mime compressible contents c))"

definition static_files_call ::
  "'h http_api \<Rightarrow> (bytes \<Rightarrow> string) \<Rightarrow> fs \<Rightarrow> static_files \<Rightarrow> ('h, 'z) conn_scheme \<Rightarrow> ('h, 'z) conn_scheme" where
  "static_files_call H b3 F sf c =
     (if conn_method c \<noteq> GET \<and> conn_method c \<noteq> HEAD then c
      else case static_relative sf (uri_path (conn_uri c)) of
        None \<Rightarrow> c
      | Some relative \<Rightarrow>
          if relative = [] then c
          else if ''..'' \<in> set (split_on slash relative) then c
          else let file_path = path_join (sf_dir sf) relative in
            (case fs_canonicalize F file_path of
               None \<Rightarrow> c
             | Some canonical \<Rightarrow>
                 (case fs_canonicalize F (sf_dir sf) of
                    None \<Rightarrow> c
                  | Some canonical_dir \<Rightarrow>
                      if \<not> path_starts_with canonical canonical_dir then c
                      else if fs_is_file F canonical \<noteq> Some True then c
                      else serve_file H b3 F sf file_path canonical c)))"

section \<open>Responses\<close>

text \<open>What the client is sent of a file's contents.\<close>

definition sends_file :: "bytes \<Rightarrow> ('h, 'z) conn_scheme \<Rightarrow> ('h, 'z) conn_scheme \<Rightarrow> bool" where
  "sends_file contents c r \<longleftrightarrow>
     conn_halted r \<and>
     (conn_status r = 304 \<and> conn_resp_body r = []
      \<or> conn_status r = 200 \<and> conn_resp_body r = (if conn_method c = HEAD then conn_resp_body c else contents))"

lemma set_mime_and_cache_frame [simp]:
  "conn_status (set_mime_and_cache H sf m c) = conn_status c"
  "conn_resp_body (set_mime_and_cache H sf m c) = conn_resp_body c"
  by (simp_all add: set_mime_and_cache_def)

lemma static_finish_sends:
  "conn_status c' = 200 \<Longrightarrow> conn_resp_body c' = conn_resp_body c \<Longrightarrow>
     sends_file contents c (static_finish m (conn_method c = HEAD) contents c')"
  by (simp add: sends_file_def static_finish_def conn_setters)

lemma serve_variant_sends: "sends_file contents c (serve_variant H b3 sf mime enc contents c)"
  unfolding serve_variant_def Let_def check_etag_def prod.case
  by (rule static_finish_sends) (simp_all, simp_all add: conn_setters)

lemma serve_plain_sends: "sends_file contents c (serve_plain H b3 sf mime z contents c)"
  unfolding serve_plain_def Let_def check_etag_def prod.case
  by (rule static_finish_sends) (simp_all, simp_all add: conn_setters)

lemma try_variants_SomeD:
  "try_variants H b3 F sf mime accept p vs c = Some r \<Longrightarrow>
     \<exists>(t, suffix, e) \<in> set vs. \<exists>contents. fs_is_file F (compressed_path p suffix) = Some True
       \<and> fs_read F (compressed_path p suffix) = Some contents \<and> sends_file contents c r"
  by (induction vs) (auto simp: serve_variant_sends split: if_splits option.splits)

lemma path_file_name_no_slash: "path_file_name p = Some f \<Longrightarrow> slash \<notin> set f"
proof -
  assume "path_file_name p = Some f"
  then have "Normal f \<in> set (path_components p)"
    by (auto simp: path_file_name_def split: list.splits path_component.splits)
  then have "f \<in> set (split_on slash p)"
    by (auto simp: path_components_def seg_component_def split: if_splits)
  then show "slash \<notin> set f" by (rule split_on_no_sep)
qed

lemma rsplit_ext_subset: "rsplit_file_at_dot f = (b, Some e) \<Longrightarrow> set e \<subseteq> set f"
  using set_takeWhileD [of _ "\<lambda>c. c \<noteq> CHR ''.''" "rev f"]
  by (auto simp: rsplit_file_at_dot_def split: if_splits list.splits)

lemma path_ext_no_slash: "slash \<notin> set (path_ext_str p)"
proof (cases "path_extension p")
  case None
  then show ?thesis by (simp add: path_ext_str_def)
next
  case (Some e)
  then obtain f b where "path_file_name p = Some f" "rsplit_file_at_dot f = (b, Some e)"
    by (auto simp: path_extension_def split: option.splits prod.splits)
  then have "slash \<notin> set e" using path_file_name_no_slash rsplit_ext_subset by blast
  moreover have "path_ext_str p = [] \<or> path_ext_str p = e"
    using from_utf8_as_bytes [of "as_bytes e"] by (auto simp: path_ext_str_def Some split: option.splits)
  ultimately show ?thesis by auto
qed

lemma compressed_path_stays:
  assumes "canonical_path p" and "canonical_path root" and "path_starts_with p root" and "p \<noteq> root"
    and "(t, suffix, e) \<in> set variants"
  shows "path_starts_with (compressed_path p suffix) root"
proof -
  have "length (path_ext_str p @ suffix) > 1" "slash \<notin> set (path_ext_str p @ suffix)"
    using assms(5) path_ext_no_slash [of p] by (auto simp: variants_def)
  from path_with_extension_stays [OF assms(1-4) this] show ?thesis by (simp add: compressed_path_def)
qed

lemma serve_file_sends:
  assumes "canonical_path p" and "canonical_path root" and "path_starts_with p root" and "p \<noteq> root"
    and "fs_is_file F p = Some True" and "serve_file H b3 F sf fp p c \<noteq> c"
  shows "\<exists>q contents. path_starts_with q root \<and> fs_is_file F q = Some True \<and> fs_read F q = Some contents
           \<and> sends_file contents c (serve_file H b3 F sf fp p c)"
proof -
  let ?mime = "mime_from_extension (path_ext_str fp)"
  let ?accept = "case req_header_str H c ''accept-encoding'' of Some s \<Rightarrow> s | None \<Rightarrow> []"
  let ?v = "if is_compressible ?mime then try_variants H b3 F sf ?mime ?accept p variants c else None"
  show ?thesis
  proof (cases ?v)
    case None
    then obtain contents where "fs_read F p = Some contents"
      and "serve_file H b3 F sf fp p c = serve_plain H b3 sf ?mime (is_compressible ?mime) contents c"
      using assms(6) by (auto simp: serve_file_def Let_def split: option.splits)
    with assms(3,5) serve_plain_sends show ?thesis by metis
  next
    case (Some r)
    then have r: "try_variants H b3 F sf ?mime ?accept p variants c = Some r"
      and call: "serve_file H b3 F sf fp p c = r"
      by (auto simp: serve_file_def Let_def split: if_splits)
    from try_variants_SomeD [OF r] obtain t suffix e contents where
      "(t, suffix, e) \<in> set variants" "fs_is_file F (compressed_path p suffix) = Some True"
      "fs_read F (compressed_path p suffix) = Some contents" "sends_file contents c r" by auto
    with compressed_path_stays [OF assms(1-4)] call show ?thesis by blast
  qed
qed

lemma pop_slashes_all: "pop_slashes_rev (replicate (Suc n) slash) = [slash]"
  by (induction n) simp_all

section \<open>Properties\<close>


definition demo_fs :: fs where
  "demo_fs =
     \<lparr>fs_canonicalize = (\<lambda>p. if p = ''/srv'' then Some ''/srv''
         else if p = ''/srv/a.txt'' then Some ''/srv/a.txt''
         else if p = ''/srv/out'' then Some ''/etc/key'' else None),
      fs_is_file = (\<lambda>p. if p \<in> {''/srv/a.txt'', ''/srv/a.txt.gz'', ''/etc/key''} then Some True
         else if p = ''/srv'' then Some False else None),
      fs_read = (\<lambda>p. if p = ''/srv/a.txt'' then Some [1, 2] else if p = ''/srv/a.txt.gz'' then Some [3]
         else if p = ''/etc/key'' then Some [9] else None)\<rparr>"

definition demo_static :: "string \<Rightarrow> (string \<times> bytes) list conn" where
  "demo_static path = (conn_new list_http GET \<lparr>uri_path = path, uri_query = None\<rparr>)
     \<lparr>conn_headers := [(''accept-encoding'', as_bytes ''gzip, br'')]\<rparr>"

lemma demo_static_evals:
  "static_relative (static_files_new ''static/'' ''/srv'') ''/static/a.txt'' = Some ''a.txt''"
  "path_join ''/srv'' ''a.txt'' = ''/srv/a.txt''" "path_starts_with ''/srv/a.txt'' ''/srv''"
  "''..'' \<notin> set (split_on slash ''a.txt'')" "sf_dir (static_files_new ''static/'' ''/srv'') = ''/srv''"
  by code_simp+

lemma demo_file_evals:
  "mime_from_extension (path_ext_str ''/srv/a.txt'') = ''text/plain''" "is_compressible ''text/plain''"
  "compressed_path ''/srv/a.txt'' ''.gz'' = ''/srv/a.txt.gz''"
  "compressed_path ''/srv/a.txt'' ''.br'' = ''/srv/a.txt.br''"
  "compressed_path ''/srv/a.txt'' ''.zst'' = ''/srv/a.txt.zst''"
  "str_contains ''gzip, br'' ''gzip''"
  by code_simp+

lemma demo_fs_evals:
  "canonicalize_laws demo_fs" "fs_canonicalize demo_fs ''/srv'' = Some ''/srv''"
  "fs_canonicalize demo_fs ''/srv/a.txt'' = Some ''/srv/a.txt''"
  "fs_is_file demo_fs ''/srv/a.txt'' = Some True" "fs_is_file demo_fs ''/srv'' = Some False"
  "fs_is_file demo_fs ''/srv/a.txt.gz'' = Some True" "fs_read demo_fs ''/srv/a.txt.gz'' = Some [3]"
  "fs_is_file demo_fs ''/srv/a.txt.br'' = None" "fs_is_file demo_fs ''/srv/a.txt.zst'' = None"
  by (auto simp: demo_fs_def canonicalize_laws_def canonical_path_def canonical_segments_def canonical_segment_def)

lemma demo_static_simps [simp]:
  "conn_method (demo_static p) = GET" "uri_path (conn_uri (demo_static p)) = p"
  "conn_halted (demo_static p) = False"
  "req_header_str list_http (demo_static p) ''accept-encoding'' = Some ''gzip, br''"
proof -
  have "visible_ascii ''gzip, br''" by (simp add: visible_ascii_def u8_of_char_def)
  then have "header_value_to_str list_http (as_bytes ''gzip, br'') = Some ''gzip, br''"
    using header_value_laws_list_http unfolding header_value_laws_def by blast
  then show "req_header_str list_http (demo_static p) ''accept-encoding'' = Some ''gzip, br''"
    by (simp add: req_header_str_def demo_static_def conn_new_def) (simp add: list_http_def)
qed (simp_all add: demo_static_def conn_new_def)

lemma demo_static_call:
  "static_files_call list_http demo_blake3 demo_fs (static_files_new ''static/'' ''/srv'') (demo_static ''/static/a.txt'')
   = serve_variant list_http demo_blake3 (static_files_new ''static/'' ''/srv'') ''text/plain'' ''gzip'' [3]
       (demo_static ''/static/a.txt'')"
  by (simp add: static_files_call_def serve_file_def Let_def variants_def
      demo_static_evals demo_file_evals demo_fs_evals del: str_contains.simps)


text \<open>A static-file plug mounted at the root serves nothing: with the prefix \<open>/\<close> (or the empty
  prefix, or slashes only) every request whose path is an ordinary absolute path is passed on
  unchanged, whatever files the directory holds, because the code looks for a second slash after
  the prefix.\<close>

theorem static_root_mount_serves_nothing:
  assumes "uri_path (conn_uri c) = slash # s" and "\<not> starts_with s [slash]"
  shows "static_files_call H b3 F (static_files_new (replicate n slash) dir) c = c"
proof -
  have prefix: "sf_url_prefix (static_files_new (replicate n slash) dir) = [slash]"
    using pop_slashes_all [of "n - 1"] by (cases n) (simp_all add: static_files_new_def starts_with_def replicate_append_same)
  have "strip_prefix [slash] s = None" using assms(2) strip_prefix_None_iff by blast
  then have "static_relative (static_files_new (replicate n slash) dir) (slash # s) = (if s = [] then Some [] else None)"
    by (simp add: static_relative_def prefix)
  then show ?thesis by (simp add: static_files_call_def assms(1))
qed

theorem static_root_mount_serves_nothing_witness:
  "static_files_call list_http demo_blake3 demo_fs (static_files_new ''/'' ''/srv'') (demo_static ''/a.txt'')
     = demo_static ''/a.txt''"
  using static_root_mount_serves_nothing [of "demo_static ''/a.txt''" "''a.txt''" list_http demo_blake3 demo_fs 1 "''/srv''"]
  by (simp add: starts_with_def)

end
