(* ===== verification/Mahalo_Cluster.thy ===== *)
theory Mahalo_Cluster
  imports Mahalo_PubSub
begin

text \<open>
  Cluster membership: the topology strategies of \<open>mahalo-cluster/src/topology.rs\<close> and the polling
  loop of \<open>cluster.rs\<close>, which turns changes of the peer list into broadcasts of \<open>node_up\<close> and
  \<open>node_down\<close> on a PubSub topic. A \<open>SocketAddr\<close> is its text. A \<open>HashSet\<close> is the list
  of its elements in the order in which it iterates; \<open>collect\<close>, which builds one from the polled
  addresses, is an argument, because that order is not specified. The peer lists a strategy returns
  over time are given as a list.
\<close>

section \<open>Topologies\<close>

type_synonym addr = string

definition default_poll_interval :: nat where
  "default_poll_interval = 5"

record static_topology =
  st_peers :: "addr list"

definition static_topology_new :: "addr list \<Rightarrow> static_topology" where
  "static_topology_new peers = \<lparr>st_peers = peers\<rparr>"

definition static_initial_peers :: "static_topology \<Rightarrow> addr list" where
  "static_initial_peers t = st_peers t"

definition static_poll_peers :: "static_topology \<Rightarrow> addr list" where
  "static_poll_peers t = st_peers t"

record dns_topology =
  dns_hostname :: string
  dns_port :: u16

definition dns_topology_new :: "string \<Rightarrow> u16 \<Rightarrow> dns_topology" where
  "dns_topology_new hostname port = \<lparr>dns_hostname = hostname, dns_port = port\<rparr>"

text \<open>\<open>lookup\<close> is the resolver at the time of the call; a failed lookup is an empty list.\<close>

definition dns_resolve :: "(string \<Rightarrow> addr list option) \<Rightarrow> dns_topology \<Rightarrow> addr list" where
  "dns_resolve lookup t =
     (case lookup (dns_hostname t @ '':'' @ nat_to_string (unat (dns_port t))) of
        Some addrs \<Rightarrow> addrs | None \<Rightarrow> [])"

section \<open>The cluster loop\<close>

record node_event =
  ne_node_id :: nat
  ne_addr :: addr

definition cluster_topic :: string where
  "cluster_topic = ''mahalo:cluster''"

definition hash_difference :: "'a list \<Rightarrow> 'a list \<Rightarrow> 'a list" where
  "hash_difference a b = filter (\<lambda>x. x \<notin> set b) a"

fun broadcast_all :: "nat \<Rightarrow> string \<Rightarrow> addr list \<Rightarrow> node_event server_queue \<Rightarrow> node_event server_queue" where
  "broadcast_all node_id ev [] q = q"
| "broadcast_all node_id ev (peer # peers) q =
     broadcast_all node_id ev peers
       (pubsub_broadcast cluster_topic ev \<lparr>ne_node_id = node_id, ne_addr = peer\<rparr> q)"

record cluster =
  cl_node_id :: nat
  cl_known :: "addr list"

definition cluster_start ::
  "(addr list \<Rightarrow> addr list) \<Rightarrow> nat \<Rightarrow> addr list \<Rightarrow> node_event server_queue \<Rightarrow> cluster \<times> node_event server_queue" where
  "cluster_start collect node_id initial q =
     (let initial_peers = collect initial
      in (\<lparr>cl_node_id = node_id, cl_known = initial_peers\<rparr>, broadcast_all node_id ''node_up'' initial_peers q))"

text \<open>One tick of the interval.\<close>

definition cluster_poll ::
  "(addr list \<Rightarrow> addr list) \<Rightarrow> addr list \<Rightarrow> cluster \<times> node_event server_queue \<Rightarrow> cluster \<times> node_event server_queue" where
  "cluster_poll collect polled s =
     (case s of (c, q) \<Rightarrow>
        (let current = collect polled;
             q1 = broadcast_all (cl_node_id c) ''node_up'' (hash_difference current (cl_known c)) q;
             q2 = broadcast_all (cl_node_id c) ''node_down'' (hash_difference (cl_known c) current) q1
         in (c\<lparr>cl_known := current\<rparr>, q2)))"

definition cluster_run ::
  "(addr list \<Rightarrow> addr list) \<Rightarrow> nat \<Rightarrow> addr list \<Rightarrow> addr list list \<Rightarrow> node_event server_queue
    \<Rightarrow> cluster \<times> node_event server_queue" where
  "cluster_run collect node_id initial polls q =
     fold (cluster_poll collect) polls (cluster_start collect node_id initial q)"

definition collect_law :: "(addr list \<Rightarrow> addr list) \<Rightarrow> bool" where
  "collect_law collect \<longleftrightarrow> (\<forall>xs. set (collect xs) = set xs \<and> distinct (collect xs))"

section \<open>The view of a subscriber\<close>

text \<open>A subscriber keeps the set of addresses that are up. \<open>None\<close> records an event that is no
  change: a second \<open>node_up\<close>, or a \<open>node_down\<close> of an address that is not up.\<close>

fun replay :: "node_event pubsub_message list \<Rightarrow> addr set \<Rightarrow> addr set option" where
  "replay [] up = Some up"
| "replay (m # ms) up =
     (let a = ne_addr (pm_payload m) in
      if pm_event m = ''node_up'' then (if a \<in> up then None else replay ms (insert a up))
      else if pm_event m = ''node_down'' then (if a \<in> up then replay ms (up - {a}) else None)
      else None)"

definition node_message :: "nat \<Rightarrow> string \<Rightarrow> addr \<Rightarrow> node_event pubsub_message" where
  "node_message node_id ev a =
     \<lparr>pm_topic = cluster_topic, pm_event = ev, pm_payload = \<lparr>ne_node_id = node_id, ne_addr = a\<rparr>\<rparr>"

lemma replay_append:
  "replay (xs @ ys) up = (case replay xs up of None \<Rightarrow> None | Some u \<Rightarrow> replay ys u)"
  by (induction xs up rule: replay.induct) (auto simp: Let_def)

lemma broadcast_all_cmds:
  "sq_alive q \<Longrightarrow> broadcast_all n ev as q = q\<lparr>sq_cmds := sq_cmds q @ map (\<lambda>a. Broadcast cluster_topic (node_message n ev a)) as\<rparr>"
  by (induction as arbitrary: q)
    (simp_all add: pubsub_broadcast_def broadcast_arc_def cmd_send_def node_message_def)

lemma replay_ups:
  "distinct as \<Longrightarrow> set as \<inter> up = {} \<Longrightarrow> replay (map (node_message n ''node_up'') as) up = Some (set as \<union> up)"
  by (induction as arbitrary: up) (auto simp: node_message_def Let_def)

lemma replay_downs:
  "distinct as \<Longrightarrow> set as \<subseteq> up \<Longrightarrow> replay (map (node_message n ''node_down'') as) up = Some (up - set as)"
proof (induction as arbitrary: up)
  case (Cons a as)
  then have "replay (map (node_message n ''node_down'') as) (up - {a}) = Some (up - {a} - set as)"
    by (intro Cons.IH) auto
  moreover have "up - {a} - set as = up - set (a # as)" by auto
  moreover have "pm_event (node_message n ''node_down'' a) = ''node_down''" "ne_addr (pm_payload (node_message n ''node_down'' a)) = a"
    by (simp_all add: node_message_def)
  ultimately show ?case using Cons.prems by (simp add: Let_def)
qed simp

text \<open>The invariant of the loop: the commands queued so far are broadcasts on the topic, and a
  subscriber that has seen them knows exactly the known peers.\<close>

definition cluster_inv :: "node_event pubsub_command list \<Rightarrow> cluster \<times> node_event server_queue \<Rightarrow> bool" where
  "cluster_inv old s \<longleftrightarrow>
     distinct (cl_known (fst s)) \<and> sq_alive (snd s) \<and>
     (\<exists>ms. sq_cmds (snd s) = old @ map (Broadcast cluster_topic) ms \<and> replay ms {} = Some (set (cl_known (fst s))))"

lemma cluster_inv_start:
  assumes "collect_law collect" and "sq_alive q"
  shows "cluster_inv (sq_cmds q) (cluster_start collect n initial q)"
proof -
  let ?ms = "map (node_message n ''node_up'') (collect initial)"
  have "replay ?ms {} = Some (set (collect initial))"
    using replay_ups [of "collect initial" "{}" n] assms(1) by (simp add: collect_law_def)
  then show ?thesis
    using assms by (auto simp: cluster_inv_def cluster_start_def Let_def broadcast_all_cmds collect_law_def
        intro!: exI [of _ ?ms])
qed

lemma cluster_inv_poll:
  assumes "collect_law collect" and "cluster_inv old s"
  shows "cluster_inv old (cluster_poll collect polled s)"
proof -
  obtain c q where s: "s = (c, q)" by (cases s)
  from assms(2) s obtain ms where known: "distinct (cl_known c)" "sq_alive q"
    and ms: "sq_cmds q = old @ map (Broadcast cluster_topic) ms" "replay ms {} = Some (set (cl_known c))"
    by (auto simp: cluster_inv_def)
  let ?cur = "collect polled"
  let ?up = "hash_difference ?cur (cl_known c)"
  let ?down = "hash_difference (cl_known c) ?cur"
  let ?new = "map (node_message (cl_node_id c) ''node_up'') ?up @ map (node_message (cl_node_id c) ''node_down'') ?down"
  have cur: "distinct ?cur" "set ?cur = set polled" using assms(1) by (simp_all add: collect_law_def)
  have ups: "replay (map (node_message (cl_node_id c) ''node_up'') ?up) (set (cl_known c)) = Some (set ?up \<union> set (cl_known c))"
    using cur by (intro replay_ups) (auto simp: hash_difference_def)
  have downs: "replay (map (node_message (cl_node_id c) ''node_down'') ?down) (set ?up \<union> set (cl_known c))
      = Some (set ?up \<union> set (cl_known c) - set ?down)"
    using known by (intro replay_downs) (auto simp: hash_difference_def)
  have "set ?up \<union> set (cl_known c) - set ?down = set ?cur" by (auto simp: hash_difference_def)
  with ms ups downs have "replay (ms @ ?new) {} = Some (set ?cur)" by (simp add: replay_append)
  moreover have "sq_cmds (snd (cluster_poll collect polled s)) = old @ map (Broadcast cluster_topic) (ms @ ?new)"
    using known ms s by (simp add: cluster_poll_def Let_def broadcast_all_cmds)
  moreover have "cl_known (fst (cluster_poll collect polled s)) = ?cur" "sq_alive (snd (cluster_poll collect polled s))"
    using known s by (simp_all add: cluster_poll_def Let_def broadcast_all_cmds)
  ultimately show ?thesis unfolding cluster_inv_def using cur(1) by metis
qed

lemma cluster_inv_run:
  assumes "collect_law collect" and "sq_alive q"
  shows "cluster_inv (sq_cmds q) (cluster_run collect n initial polls q)"
proof -
  have "cluster_inv old (fold (cluster_poll collect) polls s)" if "cluster_inv old s" for old s
    using that by (induction polls arbitrary: s) (simp_all add: cluster_inv_poll [OF assms(1)])
  then show ?thesis unfolding cluster_run_def by (blast intro: cluster_inv_start [OF assms])
qed

lemma cluster_known_run:
  assumes "collect_law collect"
  shows "set (cl_known (fst (cluster_run collect n initial polls q))) = set (last (initial # polls))"
proof (cases polls rule: rev_cases)
  case Nil
  with assms show ?thesis by (simp add: cluster_run_def cluster_start_def Let_def collect_law_def)
next
  case (snoc ps p)
  with assms show ?thesis
    by (simp add: cluster_run_def cluster_poll_def Let_def collect_law_def split: prod.splits)
qed

text \<open>Commands of other clients between those of the cluster: nothing else is broadcast on its topic,
  nobody unsubscribes from it and the server is not shut down.\<close>

fun touches :: "string \<Rightarrow> 'v ps_event \<Rightarrow> bool" where
  "touches t (Cmd (Broadcast t' m)) = (t' = t)"
| "touches t (Cmd (Unsubscribe t')) = (t' = t)"
| "touches t (Cmd Shutdown) = True"
| "touches t e = False"

lemma expected_interleaved:
  "filter (touches t) es = map Cmd (map (Broadcast t) ms) \<Longrightarrow> expected t es = ms"
proof (induction t es arbitrary: ms rule: expected.induct)
  case (4 t t' m es)
  then show ?case by (cases ms) (auto split: if_splits)
next
  case (5 t t' es)
  then show ?case by (cases ms) (auto split: if_splits)
next
  case (6 t es)
  then show ?case by (cases ms) auto
qed auto

section \<open>Properties\<close>

text \<open>C25: A subscriber of the cluster topic can keep the membership by following the events. It
  subscribes before the cluster starts; then, however the commands of other clients interleave with
  those of the cluster, what it receives are real changes only (no address is reported up twice or
  down without being up) and applying them gives exactly the addresses of the latest poll.\<close>

theorem cluster_view_follows_polls:
  assumes "collect_law collect" and "q = \<lparr>sq_alive = True, sq_cmds = []\<rparr>"
    and "ps = fst (run_server before pubsub_init)" and "DropReceiver (ps_next ps) \<notin> set after"
    and "filter (touches cluster_topic) after =
           map Cmd (sq_cmds (snd (cluster_run collect node_id initial polls q)))"
  shows "replay (ch_queue (ps_chans (fst (run_server (Cmd (Subscribe cluster_topic) # after) ps)) (ps_next ps))) {}
           = Some (set (last (initial # polls)))"
proof -
  have "cluster_inv [] (cluster_run collect node_id initial polls q)"
    using cluster_inv_run [OF assms(1), of q] assms(2) by simp
  then obtain ms where ms: "sq_cmds (snd (cluster_run collect node_id initial polls q)) = map (Broadcast cluster_topic) ms"
    and r: "replay ms {} = Some (set (cl_known (fst (cluster_run collect node_id initial polls q))))"
    by (auto simp: cluster_inv_def)
  have "expected cluster_topic after = ms"
    using assms(5) unfolding ms by (rule expected_interleaved)
  moreover have "ch_queue (ps_chans (fst (run_server (Cmd (Subscribe cluster_topic) # after) ps)) (ps_next ps))
      = expected cluster_topic after"
    by (rule new_subscriber_queue [OF _ assms(4)]) (simp add: assms(3) ps_inv_run ps_inv_init)
  ultimately show ?thesis using r cluster_known_run [OF assms(1)] by simp
qed

theorem cluster_view_follows_polls_witness:
  "replay (ch_queue (ps_chans (fst (run_server (Cmd (Subscribe cluster_topic) # DropReceiver 7 #
      map Cmd (sq_cmds (snd (cluster_run remdups 1 [''a'', ''b''] [[''b'', ''c'']] \<lparr>sq_alive = True, sq_cmds = []\<rparr>))))
      pubsub_init)) 0)) {} = Some {''b'', ''c''}"
proof -
  let ?cmds = "sq_cmds (snd (cluster_run remdups 1 [''a'', ''b''] [[''b'', ''c'']] \<lparr>sq_alive = True, sq_cmds = []\<rparr>))"
  have law: "collect_law remdups" by (simp add: collect_law_def)
  have cmds: "\<exists>ms. ?cmds = map (Broadcast cluster_topic) ms"
    using cluster_inv_run [OF law, of "\<lparr>sq_alive = True, sq_cmds = []\<rparr>" 1 "[''a'', ''b'']" "[[''b'', ''c'']]"]
    by (auto simp: cluster_inv_def)
  then have flt: "filter (touches cluster_topic) (DropReceiver 7 # map Cmd ?cmds) = map Cmd ?cmds" by auto
  from cmds have drop: "DropReceiver (ps_next (pubsub_init :: node_event pubsub)) \<notin> set (DropReceiver 7 # map Cmd ?cmds)"
    by (auto simp: pubsub_init_def)
  have ps: "(pubsub_init :: node_event pubsub) = fst (run_server [] pubsub_init)" by simp
  have "ps_next (pubsub_init :: node_event pubsub) = 0" by (simp add: pubsub_init_def)
  with cluster_view_follows_polls [OF law refl ps drop flt] show ?thesis
    by (simp del: run_server.simps)
qed

end
