(* ===== verification/Mahalo_Telemetry.thy ===== *)
theory Mahalo_Telemetry
  imports Rust_Std
begin

text \<open>
  Telemetry events and their handlers, \<open>mahalo-telemetry/src/telemetry.rs\<close>. The state is the
  \<open>RefCell\<close> of attached handlers with its count of shared borrows, the number of clock reads so
  far and the trace of handler calls. A handler is user code, known by a number; \<open>body\<close> says
  which telemetry calls it makes on an event, so that handlers may emit events themselves or try to
  attach handlers while the table is borrowed. Since handlers may emit for ever, the interpreter has
  fuel for the nesting depth of \<open>execute\<close>. Measurements and metadata are of types \<open>'f\<close>
  and \<open>'v\<close>.
\<close>

section \<open>Definitions\<close>

record ('f, 'v) telemetry_event =
  te_name :: "string list"
  te_measurements :: "string \<rightharpoonup> 'f"
  te_metadata :: "string \<rightharpoonup> 'v"
  te_timestamp :: nat

definition ENDPOINT_START :: "string list" where
  "ENDPOINT_START = [''mahalo'', ''endpoint'', ''start'']"

definition ENDPOINT_STOP :: "string list" where
  "ENDPOINT_STOP = [''mahalo'', ''endpoint'', ''stop'']"

definition ROUTER_DISPATCH :: "string list" where
  "ROUTER_DISPATCH = [''mahalo'', ''router'', ''dispatch'']"

definition CHANNEL_JOIN :: "string list" where
  "CHANNEL_JOIN = [''mahalo'', ''channel'', ''join'']"

definition CHANNEL_HANDLE_IN :: "string list" where
  "CHANNEL_HANDLE_IN = [''mahalo'', ''channel'', ''handle_in'']"

definition event_name :: "string list \<Rightarrow> string list" where
  "event_name segments = map (\<lambda>s. s) segments"

definition event_matches :: "string list \<Rightarrow> string list \<Rightarrow> bool" where
  "event_matches name prefix =
     (if length name < length prefix then False else take (length prefix) name = prefix)"

datatype tel_fault = BorrowMutError | ClockBeforeEpoch | OutOfFuel

text \<open>\<open>tl_shared\<close> counts the live shared borrows of the handler table.\<close>

record ('f, 'v) telemetry =
  tl_handlers :: "(string list \<times> nat) list"
  tl_shared :: nat
  tl_ticks :: nat
  tl_trace :: "(nat \<times> ('f, 'v) telemetry_event) list"

definition telemetry_new :: "nat \<Rightarrow> ('f, 'v) telemetry" where
  "telemetry_new capacity = \<lparr>tl_handlers = [], tl_shared = 0, tl_ticks = 0, tl_trace = []\<rparr>"

definition telemetry_default :: "('f, 'v) telemetry" where
  "telemetry_default = telemetry_new 512"

text \<open>\<open>clk n\<close> is the time of the \<open>n\<close>-th read, in milliseconds since the epoch;
  \<open>duration_since\<close> fails before it, and \<open>as u64\<close> truncates.\<close>

definition now_ms :: "(nat \<Rightarrow> int) \<Rightarrow> ('f, 'v) telemetry \<Rightarrow> (nat \<times> ('f, 'v) telemetry, tel_fault) result" where
  "now_ms clk t =
     (if clk (tl_ticks t) < 0 then Err ClockBeforeEpoch
      else Ok (nat (clk (tl_ticks t)) mod 2 ^ 64, t\<lparr>tl_ticks := Suc (tl_ticks t)\<rparr>))"

text \<open>\<open>borrow_mut\<close> panics while the table is borrowed.\<close>

definition attach :: "string list \<Rightarrow> nat \<Rightarrow> ('f, 'v) telemetry \<Rightarrow> (('f, 'v) telemetry, tel_fault) result" where
  "attach name h t =
     (if tl_shared t > 0 then Err BorrowMutError
      else Ok (t\<lparr>tl_handlers := tl_handlers t @ [(event_name name, h)]\<rparr>))"

text \<open>The calls a handler may make.\<close>

datatype ('f, 'v) tel_call =
  CallExecute "string list" "string \<rightharpoonup> 'f" "string \<rightharpoonup> 'v"
| CallAttach "string list" nat

type_synonym ('f, 'v) handlers = "nat \<Rightarrow> ('f, 'v) telemetry_event \<Rightarrow> ('f, 'v) tel_call list"

function (sequential)
  execute :: "nat \<Rightarrow> ('f, 'v) handlers \<Rightarrow> (nat \<Rightarrow> int) \<Rightarrow> string list \<Rightarrow> (string \<rightharpoonup> 'f) \<Rightarrow> (string \<rightharpoonup> 'v)
    \<Rightarrow> ('f, 'v) telemetry \<Rightarrow> (('f, 'v) telemetry, tel_fault) result"
and invoke :: "nat \<Rightarrow> ('f, 'v) handlers \<Rightarrow> (nat \<Rightarrow> int) \<Rightarrow> ('f, 'v) telemetry_event \<Rightarrow> (string list \<times> nat) list
    \<Rightarrow> ('f, 'v) telemetry \<Rightarrow> (('f, 'v) telemetry, tel_fault) result"
and run_calls :: "nat \<Rightarrow> ('f, 'v) handlers \<Rightarrow> (nat \<Rightarrow> int) \<Rightarrow> ('f, 'v) tel_call list
    \<Rightarrow> ('f, 'v) telemetry \<Rightarrow> (('f, 'v) telemetry, tel_fault) result"
where
  "execute 0 body clk name meas meta t = Err OutOfFuel"
| "execute (Suc n) body clk name meas meta t =
     (case now_ms clk t of
        Err e \<Rightarrow> Err e
      | Ok (ts, t1) \<Rightarrow>
          (case invoke n body clk \<lparr>te_name = event_name name, te_measurements = meas, te_metadata = meta, te_timestamp = ts\<rparr>
                  (tl_handlers t1) (t1\<lparr>tl_shared := Suc (tl_shared t1)\<rparr>) of
             Err e \<Rightarrow> Err e
           | Ok t2 \<Rightarrow> Ok (t2\<lparr>tl_shared := tl_shared t2 - 1\<rparr>)))"
| "invoke n body clk ev [] t = Ok t"
| "invoke n body clk ev ((prefix, h) # hs) t =
     (if event_matches (te_name ev) prefix
      then (case run_calls n body clk (body h ev) (t\<lparr>tl_trace := tl_trace t @ [(h, ev)]\<rparr>) of
              Err e \<Rightarrow> Err e
            | Ok t' \<Rightarrow> invoke n body clk ev hs t')
      else invoke n body clk ev hs t)"
| "run_calls n body clk [] t = Ok t"
| "run_calls n body clk (CallExecute name meas meta # cs) t =
     (case execute n body clk name meas meta t of Err e \<Rightarrow> Err e | Ok t' \<Rightarrow> run_calls n body clk cs t')"
| "run_calls n body clk (CallAttach name h # cs) t =
     (case attach name h t of Err e \<Rightarrow> Err e | Ok t' \<Rightarrow> run_calls n body clk cs t')"
  by pat_completeness auto
termination
  by (relation "inv_image (less_than <*lex*> less_than <*lex*> less_than)
      (\<lambda>x. case x of Inl (n, _) \<Rightarrow> (n, 0, 0)
         | Inr (Inl (n, _, _, _, hs, _)) \<Rightarrow> (n, 2, length hs)
         | Inr (Inr (n, _, _, cs, _)) \<Rightarrow> (n, 1, length cs))") auto

text \<open>A span runs \<open>f\<close>, which may use the same telemetry, between a start and a stop event;
  \<open>duration\<close> is the measured time.\<close>

definition span ::
  "nat \<Rightarrow> ('f, 'v) handlers \<Rightarrow> (nat \<Rightarrow> int) \<Rightarrow> string list \<Rightarrow> (string \<rightharpoonup> 'v) \<Rightarrow> 'f
    \<Rightarrow> (('f, 'v) telemetry \<Rightarrow> ('r \<times> ('f, 'v) telemetry, tel_fault) result)
    \<Rightarrow> ('f, 'v) telemetry \<Rightarrow> ('r \<times> ('f, 'v) telemetry, tel_fault) result" where
  "span n body clk name meta duration f t =
     result_bind (execute n body clk (name @ [''start'']) Map.empty meta t) (\<lambda>t1.
       result_bind (f t1) (\<lambda>(r, t2).
         result_bind (execute n body clk (name @ [''stop'']) [''duration_ms'' \<mapsto> duration] meta t2) (\<lambda>t3.
           Ok (r, t3))))"

section \<open>Lemmas\<close>

lemma event_matches_iff: "event_matches name prefix \<longleftrightarrow> (\<exists>r. name = prefix @ r)"
  by (auto simp: event_matches_def) (metis append_take_drop_id)

text \<open>While handlers run, the table is borrowed, so no call can change it.\<close>

definition tel_extends :: "('f, 'v) telemetry \<Rightarrow> ('f, 'v) telemetry \<Rightarrow> bool" where
  "tel_extends t t' \<longleftrightarrow>
     tl_handlers t' = tl_handlers t \<and> tl_shared t' = tl_shared t \<and> (\<exists>tr. tl_trace t' = tl_trace t @ tr)"

lemma tel_extends_refl [simp]: "tel_extends t t"
  by (simp add: tel_extends_def)

lemma tel_extends_trans: "tel_extends t u \<Longrightarrow> tel_extends u v \<Longrightarrow> tel_extends t v"
  by (auto simp: tel_extends_def)

lemma tel_extends_trace: "tel_extends t (t\<lparr>tl_trace := tl_trace t @ tr\<rparr>)"
  by (simp add: tel_extends_def)

lemma tel_extends_shared: "tel_extends t u \<Longrightarrow> tl_shared u = tl_shared t"
  by (simp add: tel_extends_def)

lemma tel_frame:
  "execute n body clk name meas meta t = Ok t' \<Longrightarrow> tel_extends t t'"
  "invoke n body clk ev hs u = Ok u' \<Longrightarrow> tl_shared u > 0 \<Longrightarrow> tel_extends u u'"
  "run_calls n body clk cs v = Ok v' \<Longrightarrow> tl_shared v > 0 \<Longrightarrow> tel_extends v v'"
proof (induction n body clk name meas meta t and n body clk ev hs u and n body clk cs v
    arbitrary: t' and u' and v' rule: execute_invoke_run_calls.induct)
  case (2 n body clk name meas meta t)
  from 2(2) obtain ts t1 t2 where now: "now_ms clk t = Ok (ts, t1)"
    and inv: "invoke n body clk \<lparr>te_name = event_name name, te_measurements = meas, te_metadata = meta, te_timestamp = ts\<rparr>
                  (tl_handlers t1) (t1\<lparr>tl_shared := Suc (tl_shared t1)\<rparr>) = Ok t2"
    and t': "t' = t2\<lparr>tl_shared := tl_shared t2 - 1\<rparr>"
    by (auto split: result.splits prod.splits)
  have "tel_extends (t1\<lparr>tl_shared := Suc (tl_shared t1)\<rparr>) t2" using 2(1) [OF now refl inv] by simp
  with t' now show ?case
    by (auto simp: now_ms_def tel_extends_def split: if_splits)
next
  case (4 n body clk ev prefix h hs t)
  show ?case
  proof (cases "event_matches (te_name ev) prefix")
    case True
    let ?t0 = "t\<lparr>tl_trace := tl_trace t @ [(h, ev)]\<rparr>"
    from True 4(4) obtain t1 where run: "run_calls n body clk (body h ev) ?t0 = Ok t1"
      and rest: "invoke n body clk ev hs t1 = Ok u'"
      by (auto split: result.splits)
    have t1: "tel_extends ?t0 t1" using 4(1) [OF True run] 4(5) by simp
    then have "tl_shared t1 > 0" using tel_extends_shared [OF t1] 4(5) by simp
    then have "tel_extends t1 u'" by (rule 4(2) [OF True run rest])
    with t1 show ?thesis using tel_extends_trace tel_extends_trans by blast
  next
    case False
    from False 4(4) have "invoke n body clk ev hs t = Ok u'" by simp
    from 4(3) [OF False this 4(5)] show ?thesis .
  qed
next
  case (6 n body clk name meas meta cs t)
  from 6(3) obtain t1 where exec: "execute n body clk name meas meta t = Ok t1"
    and rest: "run_calls n body clk cs t1 = Ok v'" by (auto split: result.splits)
  have t1: "tel_extends t t1" by (rule 6(1) [OF exec])
  then have "tl_shared t1 > 0" using tel_extends_shared [OF t1] 6(4) by simp
  then have "tel_extends t1 v'" by (rule 6(2) [OF exec rest])
  with t1 show ?case by (rule tel_extends_trans)
qed (auto simp: attach_def)

lemma invoke_plain:
  assumes "\<forall>(p, h) \<in> set hs. body h ev = []"
  shows "invoke n body clk ev hs t =
    Ok (t\<lparr>tl_trace := tl_trace t @ map (\<lambda>(p, h). (h, ev)) (filter (\<lambda>(p, h). event_matches (te_name ev) p) hs)\<rparr>)"
  using assms by (induction hs arbitrary: t) (auto split: prod.splits)

text \<open>The entries that an event adds to the trace, in the order of attachment.\<close>

definition dispatched ::
  "(string list \<times> nat) list \<Rightarrow> ('f, 'v) telemetry_event \<Rightarrow> (nat \<times> ('f, 'v) telemetry_event) list" where
  "dispatched hs ev = map (\<lambda>(p, h). (h, ev)) (filter (\<lambda>(p, h). event_matches (te_name ev) p) hs)"

lemma event_name_id [simp]: "event_name name = name"
  by (simp add: event_name_def)

lemma execute_plain:
  assumes "\<forall>(p, h) \<in> set (tl_handlers t). \<forall>ev. body h ev = []" and "0 \<le> clk (tl_ticks t)" and "0 < n"
  shows "execute n body clk name meas meta t =
    Ok (t\<lparr>tl_ticks := Suc (tl_ticks t),
          tl_trace := tl_trace t @ dispatched (tl_handlers t)
            \<lparr>te_name = name, te_measurements = meas, te_metadata = meta, te_timestamp = nat (clk (tl_ticks t)) mod 2 ^ 64\<rparr>\<rparr>)"
proof -
  obtain m where "n = Suc m" using assms(3) by (cases n) auto
  moreover have "\<forall>(p, h) \<in> set (tl_handlers t). body h ev = []" for ev using assms(1) by auto
  ultimately show ?thesis using assms(2) by (simp add: now_ms_def invoke_plain dispatched_def)
qed

lemma run_calls_attach:
  assumes "tl_shared v > 0" and "CallAttach p h \<in> set cs"
  shows "run_calls n body clk cs v \<noteq> Ok v'"
  using assms
proof (induction cs arbitrary: v)
  case (Cons c cs)
  show ?case
  proof (cases c)
    case (CallExecute name meas meta)
    have "tl_shared t1 > 0" if "execute n body clk name meas meta v = Ok t1" for t1
      using tel_extends_shared [OF tel_frame(1) [OF that]] Cons.prems(1) by simp
    with CallExecute Cons show ?thesis by (auto split: result.splits)
  next
    case (CallAttach q k)
    with Cons.prems show ?thesis by (simp add: attach_def)
  qed
qed simp

lemma invoke_attach:
  assumes "tl_shared u > 0" and "(p, h) \<in> set hs" and "event_matches (te_name ev) p"
    and "CallAttach q k \<in> set (body h ev)"
  shows "invoke n body clk ev hs u \<noteq> Ok u'"
  using assms
proof (induction hs arbitrary: u)
  case (Cons e hs)
  obtain p' h' where e: "e = (p', h')" by (cases e)
  let ?u = "u\<lparr>tl_trace := tl_trace u @ [(h', ev)]\<rparr>"
  have shared: "tl_shared u1 > 0" if "run_calls n body clk (body h' ev) ?u = Ok u1" for u1
    using tel_extends_shared [OF tel_frame(3) [OF that]] Cons.prems(1) by simp
  show ?case
  proof (cases "(p, h) = e")
    case True
    then show ?thesis using e Cons.prems run_calls_attach [of ?u q k "body h ev" n body clk]
      by (auto split: result.splits)
  next
    case False
    then show ?thesis using Cons e shared by (auto split: result.splits)
  qed
qed simp

section \<open>Properties\<close>

text \<open>C38: An event is given, once each and in the order of attachment, to exactly the handlers whose
  prefix is a prefix of its name, with its name, measurements, metadata and the time of the call.
  Nothing else changes. This holds for handlers that make no telemetry calls of their own.\<close>

theorem telemetry_dispatch:
  assumes "\<forall>(p, h) \<in> set (tl_handlers t). \<forall>ev. body h ev = []" and "0 \<le> clk (tl_ticks t)" and "0 < n"
  shows "\<exists>ts. execute n body clk name meas meta t =
    Ok (t\<lparr>tl_ticks := Suc (tl_ticks t),
          tl_trace := tl_trace t @
            [(h, \<lparr>te_name = name, te_measurements = meas, te_metadata = meta, te_timestamp = ts\<rparr>).
             (p, h) \<leftarrow> tl_handlers t, \<exists>r. name = p @ r]\<rparr>)"
proof -
  have "dispatched hs ev = [(h, ev). (p, h) \<leftarrow> hs, \<exists>r. te_name ev = p @ r]" for hs and ev :: "('a, 'b) telemetry_event"
    by (induction hs) (auto simp: dispatched_def event_matches_iff)
  then show ?thesis using execute_plain [of t body clk n, OF assms] by auto
qed

definition demo_telemetry :: "(nat, nat) telemetry" where
  "demo_telemetry =
     \<lparr>tl_handlers = [([''mahalo''], 1), ([''mahalo'', ''router''], 2), ([''other''], 3)],
      tl_shared = 0, tl_ticks = 0, tl_trace = []\<rparr>"

theorem telemetry_dispatch_witness:
  "\<exists>t'. execute 1 (\<lambda>h ev. []) (\<lambda>n. 5) ENDPOINT_START Map.empty Map.empty demo_telemetry = Ok t'
     \<and> map fst (tl_trace t') = [1]"
proof -
  have h: "\<forall>(p, h) \<in> set (tl_handlers demo_telemetry). \<forall>ev :: (nat, nat) telemetry_event. (\<lambda>h ev. []) h ev = ([] :: (nat, nat) tel_call list)"
    by simp
  have "(0 :: int) \<le> (\<lambda>n :: nat. 5) (tl_ticks demo_telemetry)" by simp
  from telemetry_dispatch [OF h this, of 1 ENDPOINT_START Map.empty Map.empty] show ?thesis
    by (auto simp: demo_telemetry_def ENDPOINT_START_def)
qed

text \<open>Handlers cannot attach handlers: the table is borrowed while an event is dispatched, so if any
  handler that the event reaches calls \<open>attach\<close>, \<open>execute\<close> does not return normally,
  whatever the other handlers do and however deep events nest. When it does return, the handler
  table and its borrow count are as before and the trace has only grown.\<close>

theorem telemetry_attach_in_handler_panics:
  assumes "(p, h) \<in> set (tl_handlers t)" and "name = p @ r" and "\<And>ev. te_name ev = name \<Longrightarrow> CallAttach q k \<in> set (body h ev)"
  shows "execute n body clk name meas meta t \<noteq> Ok t'
       \<and> (execute n body' clk name meas meta t = Ok t' \<longrightarrow>
            tl_handlers t' = tl_handlers t \<and> tl_shared t' = tl_shared t \<and> (\<exists>tr. tl_trace t' = tl_trace t @ tr))"
proof -
  have "execute (Suc m) body clk name meas meta t \<noteq> Ok t'" for m
  proof
    assume "execute (Suc m) body clk name meas meta t = Ok t'"
    then obtain ts t1 t2 where now: "now_ms clk t = Ok (ts, t1)"
      and inv: "invoke m body clk \<lparr>te_name = name, te_measurements = meas, te_metadata = meta, te_timestamp = ts\<rparr>
          (tl_handlers t1) (t1\<lparr>tl_shared := Suc (tl_shared t1)\<rparr>) = Ok t2"
      by (auto split: result.splits prod.splits)
    have mem: "(p, h) \<in> set (tl_handlers t1)" using assms(1) now by (auto simp: now_ms_def split: if_splits)
    from inv show False
      using invoke_attach [OF _ mem, of "t1\<lparr>tl_shared := Suc (tl_shared t1)\<rparr>" _ q k body m clk] assms(2,3)
      by (auto simp: event_matches_iff)
  qed
  then have "execute n body clk name meas meta t \<noteq> Ok t'" by (cases n) auto
  then show ?thesis using tel_frame(1) [of n body' clk name meas meta t t'] by (auto simp: tel_extends_def)
qed

theorem telemetry_attach_in_handler_panics_witness:
  "\<forall>t'. execute 1 (\<lambda>h ev. [CallAttach [] 9]) (\<lambda>n. 5) ENDPOINT_START Map.empty Map.empty demo_telemetry \<noteq> Ok t'"
proof
  fix t'
  show "execute 1 (\<lambda>h ev. [CallAttach [] 9]) (\<lambda>n. 5) ENDPOINT_START Map.empty Map.empty demo_telemetry \<noteq> Ok t'"
    using telemetry_attach_in_handler_panics [of "[''mahalo'']" 1 demo_telemetry ENDPOINT_START "[''endpoint'', ''start'']"
        "[]" 9 "\<lambda>h ev. [CallAttach [] 9]" 1 "\<lambda>n. 5" Map.empty Map.empty t']
    by (simp add: demo_telemetry_def ENDPOINT_START_def)
qed

text \<open>A span emits its start event, runs the closure, and emits its stop event with the duration.\<close>

theorem span_brackets:
  assumes plain: "\<forall>(p, h) \<in> set (tl_handlers t). \<forall>ev. body h ev = []"
    and clock: "\<And>i. 0 \<le> clk i" and fuel: "0 < n"
    and start: "execute n body clk (name @ [''start'']) Map.empty meta t = Ok t1"
    and f: "f t1 = Ok (r, t2)" and keep: "tl_handlers t2 = tl_handlers t"
  shows "\<exists>t3 ts ts'. span n body clk name meta d f t = Ok (r, t3)
    \<and> tl_trace t1 = tl_trace t @ dispatched (tl_handlers t)
        \<lparr>te_name = name @ [''start''], te_measurements = Map.empty, te_metadata = meta, te_timestamp = ts\<rparr>
    \<and> tl_trace t3 = tl_trace t2 @ dispatched (tl_handlers t)
        \<lparr>te_name = name @ [''stop''], te_measurements = [''duration_ms'' \<mapsto> d], te_metadata = meta, te_timestamp = ts'\<rparr>"
proof -
  have plain2: "\<forall>(p, h) \<in> set (tl_handlers t2). \<forall>ev. body h ev = []" using plain keep by simp
  show ?thesis
    using start f execute_plain [of t body clk n "name @ [''start'']" Map.empty meta, OF plain clock fuel]
      execute_plain [of t2 body clk n "name @ [''stop'']" "[''duration_ms'' \<mapsto> d]" meta, OF plain2 clock fuel]
    by (auto simp: span_def keep)
qed

end
