(* ===== verification/Mahalo_Supervision.thy ===== *)
theory Mahalo_Supervision
  imports Mahalo_PubSub
begin

text \<open>
  Supervised children: \<open>mahalo-channel/src/supervisor.rs\<close> and the entry that
  \<open>PubSub::new_supervised\<close> makes. The supervision engine is a third-party crate: adding a child is
  an operation of the record \<open>sup_api\<close> and \<open>restarts\<close>, an argument, says whether it starts a
  child again after an exit. A factory is a function from the contents of its cells to what one call
  does; \<open>child_life\<close> is the sequence of factory calls that the engine makes of one entry.
\<close>

section \<open>Definitions\<close>

datatype restart_type = Permanent | Transient | Temporary

datatype restart_strategy = OneForOne | OneForAll | RestForOne

datatype exit_reason = ExitNormal | ExitAbnormal

datatype supervisor_error = Gone

text \<open>One call of a factory: the child runs until it exits, never exits, or the call panics.\<close>

datatype child_run = Exits exit_reason | RunsForever | FactoryPanic string

record 's child_entry =
  ce_id :: string
  ce_restart :: restart_type
  ce_cell :: "'s option"
  ce_factory :: "'s option \<Rightarrow> child_run \<times> 's option"

record ('s, 'w) sup_api =
  start_supervisor :: "restart_strategy \<Rightarrow> 's child_entry list \<Rightarrow> 'w \<Rightarrow> nat \<times> 'w"
  add_child :: "nat \<Rightarrow> 's child_entry \<Rightarrow> 'w \<Rightarrow> (nat, supervisor_error) result \<times> 'w"
  sup_shutdown :: "nat \<Rightarrow> 'w \<Rightarrow> 'w"

definition channel_supervisor_start :: "('s, 'w) sup_api \<Rightarrow> 'w \<Rightarrow> nat \<times> 'w" where
  "channel_supervisor_start S w = start_supervisor S OneForOne [] w"

definition add_connection ::
  "('s, 'w) sup_api \<Rightarrow> nat \<Rightarrow> 's child_entry \<Rightarrow> 'w \<Rightarrow> (unit, supervisor_error) result \<times> 'w" where
  "add_connection S handle entry w =
     (case add_child S handle entry w of
        (Ok pid, w') \<Rightarrow> (Ok (), w') | (Err e, w') \<Rightarrow> (Err e, w'))"

definition channel_supervisor_shutdown :: "('s, 'w) sup_api \<Rightarrow> nat \<Rightarrow> 'w \<Rightarrow> 'w" where
  "channel_supervisor_shutdown S handle w = sup_shutdown S handle w"

text \<open>The supervisor is started before the entry is made; the factory only keeps its child alive. The
  cell of the proxy handle holds the supervisor from the start.\<close>

definition supervisor_child_entry ::
  "('s, 'w) sup_api \<Rightarrow> 'w \<Rightarrow> (nat option \<times> 'c child_entry) \<times> 'w" where
  "supervisor_child_entry S w =
     (case start_supervisor S OneForOne [] w of
        (handle, w') \<Rightarrow>
          ((Some handle,
            \<lparr>ce_id = ''mahalo_channel_supervisor'', ce_restart = Permanent, ce_cell = None,
             ce_factory = (\<lambda>c. (RunsForever, c))\<rparr>), w'))"

definition handle_add_connection ::
  "('s, 'w) sup_api \<Rightarrow> nat option \<Rightarrow> 's child_entry \<Rightarrow> 'w \<Rightarrow> (unit, supervisor_error) result \<times> 'w" where
  "handle_add_connection S cell entry w =
     (case cell of None \<Rightarrow> (Err Gone, w) | Some handle \<Rightarrow> add_connection S handle entry w)"

text \<open>\<open>factory.borrow_mut().take().expect(..)\<close> around the closure of one connection, whose run is
  the contents of the cell.\<close>

definition connection_child_entry :: "child_run \<Rightarrow> child_run child_entry" where
  "connection_child_entry run =
     \<lparr>ce_id = ''conn'', ce_restart = Temporary, ce_cell = Some run,
      ce_factory = (\<lambda>cell. case cell of
         Some r \<Rightarrow> (r, None) | None \<Rightarrow> (FactoryPanic ''connection factory called twice'', None))\<rparr>"

text \<open>\<open>handle_websocket_supervised\<close> (\<open>socket.rs\<close>): the connection's entry is added to the
  supervisor, whose refusal is only logged. The child exits normally when its client disconnects.\<close>

definition websocket_run :: "bool \<Rightarrow> child_run" where
  "websocket_run disconnects = (if disconnects then Exits ExitNormal else RunsForever)"

definition handle_websocket_supervised :: "(child_run, 'w) sup_api \<Rightarrow> nat \<Rightarrow> bool \<Rightarrow> 'w \<Rightarrow> 'w" where
  "handle_websocket_supervised S supervisor disconnects w =
     snd (add_connection S supervisor (connection_child_entry (websocket_run disconnects)) w)"

text \<open>The supervised PubSub server: the cell holds the receiving end, here the events the server will
  see; the child exits normally when the server thread is done. \<open>rt\<close> is the restart type that
  \<open>ChildSpec::new\<close> sets.\<close>

definition pubsub_child_entry :: "restart_type \<Rightarrow> 'v ps_event list \<Rightarrow> 'v ps_event list child_entry" where
  "pubsub_child_entry rt es =
     \<lparr>ce_id = ''mahalo_pubsub'', ce_restart = rt, ce_cell = Some es,
      ce_factory = (\<lambda>cell. case supervised_factory cell of
         (Ok rx, cell') \<Rightarrow> (case run_server rx pubsub_init of _ \<Rightarrow> (Exits ExitNormal, cell'))
       | (Err m, cell') \<Rightarrow> (FactoryPanic m, cell'))\<rparr>"

text \<open>The runs of a child, at most \<open>n\<close> of them.\<close>

fun child_life ::
  "(restart_type \<Rightarrow> exit_reason \<Rightarrow> bool) \<Rightarrow> restart_type \<Rightarrow> ('s option \<Rightarrow> child_run \<times> 's option) \<Rightarrow> 's option \<Rightarrow> nat
    \<Rightarrow> child_run list" where
  "child_life restarts rt f cell 0 = []"
| "child_life restarts rt f cell (Suc n) =
     (case f cell of
        (Exits x, cell') \<Rightarrow> Exits x # (if restarts rt x then child_life restarts rt f cell' n else [])
      | (r, cell') \<Rightarrow> [r])"

definition entry_life :: "(restart_type \<Rightarrow> exit_reason \<Rightarrow> bool) \<Rightarrow> 's child_entry \<Rightarrow> nat \<Rightarrow> child_run list" where
  "entry_life restarts e n = child_life restarts (ce_restart e) (ce_factory e) (ce_cell e) n"

section \<open>Properties\<close>

text \<open>A WebSocket connection is started exactly once: with an engine that does not restart temporary
  children, the closure of a connection entry is called once, however the connection ends, and the
  panic of a second call is never reached.\<close>

theorem connection_runs_once:
  assumes "\<And>x. \<not> restarts Temporary x"
  shows "entry_life restarts (connection_child_entry run) (Suc n) = [run]"
  using assms by (simp add: entry_life_def connection_child_entry_def split: child_run.splits)

theorem connection_runs_once_witness:
  "entry_life (\<lambda>rt x. rt = Permanent \<or> rt = Transient \<and> x = ExitAbnormal) (connection_child_entry (Exits ExitAbnormal)) 3
     = [Exits ExitAbnormal]"
  using connection_runs_once [of "\<lambda>rt x. rt = Permanent \<or> rt = Transient \<and> x = ExitAbnormal" "Exits ExitAbnormal" 2]
  by (simp add: numeral_3_eq_3)

text \<open>A supervised PubSub server cannot be restarted: if the engine starts it again after the server
  loop ended, the factory panics.\<close>

lemma pubsub_restart_panics:
  assumes "restarts rt ExitNormal"
  shows "entry_life restarts (pubsub_child_entry rt es) (Suc (Suc n)) =
    [Exits ExitNormal, FactoryPanic ''PubSub factory called twice'']"
  using assms by (simp add: entry_life_def pubsub_child_entry_def supervised_factory_def)

text \<open>The channel supervisor's own entry can be restarted any number of times, and its handle is
  usable before the entry is started.\<close>

lemma supervisor_entry_ready:
  assumes "supervisor_child_entry S w = ((cell, entry), w')"
  shows "\<exists>handle. cell = Some handle \<and> handle_add_connection S cell e w' = add_connection S handle e w'"
    and "ce_restart entry = Permanent \<and> entry_life restarts entry (Suc n) = [RunsForever]"
  using assms by (auto simp: supervisor_child_entry_def handle_add_connection_def entry_life_def split: prod.splits)

end
