(* ===== verification/Cargo_Templates.thy ===== *)
theory Cargo_Templates
  imports Rust_Std
begin

text \<open>
  The files that \<open>cargo mahalo\<close> writes: \<open>cargo-mahalo/src/templates/controller.rs\<close>,
  \<open>channel.rs\<close> and \<open>project.rs\<close>, line by line.
\<close>

abbreviation (input) nl :: char where
  "nl \<equiv> CHR 0x0A"

definition text_lines :: "string list \<Rightarrow> string" where
  "text_lines ls = concat (map (\<lambda>l. l @ [nl]) ls)"

definition replace_char :: "char \<Rightarrow> char \<Rightarrow> string \<Rightarrow> string" where
  "replace_char a b s = map (\<lambda>c. if c = a then b else c) s"

section \<open>Templates\<close>

definition controller_file :: "string \<Rightarrow> string" where
  \<open>controller_file pascal =
     text_lines
       [''use mahalo::{BoxFuture, Conn, Controller};'',
        ''use http::StatusCode;'',
        [],
        ''pub struct '' @ pascal @ ''Controller;'',
        [],
        ''impl Controller for '' @ pascal @ ''Controller {'',
        ''    fn index(&self, conn: Conn) -> BoxFuture<'_, Conn> {'',
        ''        Box::pin(async move {'',
        ''            conn.put_status(StatusCode::OK)'',
        ''                .put_resp_body("'' @ pascal @ '' index")'',
        ''        })'',
        ''    }'',
        [],
        ''    fn show(&self, conn: Conn) -> BoxFuture<'_, Conn> {'',
        ''        Box::pin(async move {'',
        ''            conn.put_status(StatusCode::OK)'',
        ''                .put_resp_body("'' @ pascal @ '' show")'',
        ''        })'',
        ''    }'',
        [],
        ''    fn create(&self, conn: Conn) -> BoxFuture<'_, Conn> {'',
        ''        Box::pin(async move {'',
        ''            conn.put_status(StatusCode::CREATED)'',
        ''                .put_resp_body("'' @ pascal @ '' created")'',
        ''        })'',
        ''    }'',
        ''}'']\<close>

definition channel_file :: "string \<Rightarrow> string \<Rightarrow> string" where
  \<open>channel_file pascal snake =
     text_lines
       [''use async_trait::async_trait;'',
        ''use mahalo::{Channel, ChannelError, ChannelSocket, Reply};'',
        ''use serde_json::Value;'',
        [],
        ''pub struct '' @ pascal @ ''Channel;'',
        [],
        ''#[async_trait]'',
        ''impl Channel for '' @ pascal @ ''Channel {'',
        ''    async fn join('',
        ''        &self,'',
        ''        topic: &str,'',
        ''        _payload: &Value,'',
        ''        _socket: &mut ChannelSocket,'',
        ''    ) -> Result<Value, ChannelError> {'',
        ''        tracing::info!("'' @ pascal @ ''Channel joined: {topic}");'',
        ''        Ok(serde_json::json!({"'' @ snake @ ''": "joined"}))'',
        ''    }'',
        [],
        ''    async fn handle_in('',
        ''        &self,'',
        ''        event: &str,'',
        ''        payload: &Value,'',
        ''        _socket: &mut ChannelSocket,'',
        ''    ) -> Result<Option<Reply>, ChannelError> {'',
        ''        tracing::debug!("'' @ pascal @ ''Channel received {event}: {payload}");'',
        ''        Ok(Some(Reply::ok(payload.clone())))'',
        ''    }'',
        [],
        ''    async fn handle_info('',
        ''        &self,'',
        ''        _msg: &mahalo::PubSubMessage,'',
        ''        _socket: &mut ChannelSocket,'',
        ''    ) -> Result<(), ChannelError> {'',
        ''        Ok(())'',
        ''    }'',
        [],
        ''    async fn terminate(&self, reason: &str, _socket: &mut ChannelSocket) {'',
        ''        tracing::info!("'' @ pascal @ ''Channel terminated: {reason}");'',
        ''    }'',
        ''}'']\<close>

definition workspace_cargo_toml :: "string \<Rightarrow> string" where
  \<open>workspace_cargo_toml name =
     text_lines
       [''[workspace]'',
        ''resolver = "2"'',
        ''members = ['',
        ''    "crates/'' @ name @ ''",'',
        ''    "crates/'' @ name @ ''_models",'',
        ''    "crates/'' @ name @ ''_web",'',
        '']'',
        [],
        ''[workspace.package]'',
        ''edition = "2024"'',
        [],
        ''[workspace.dependencies]'',
        ''mahalo = { git = "https://github.com/your-org/mahalo.git" }'',
        ''rebar-core = { git = "https://github.com/your-org/rebar.git" }'',
        ''tokio = { version = "1", features = ["full"] }'',
        ''tracing = "0.1"'',
        ''tracing-subscriber = "0.3"'',
        ''serde = { version = "1", features = ["derive"] }'',
        ''serde_json = "1"'',
        ''async-trait = "0.1"'',
        ''http = "1"'',
        ''mimalloc = "0.1"'']\<close>

definition app_cargo_toml :: "string \<Rightarrow> string" where
  \<open>app_cargo_toml name =
     text_lines
       [''[package]'',
        ''name = "'' @ name @ ''"'',
        ''version = "0.1.0"'',
        ''edition.workspace = true'',
        [],
        ''[dependencies]'',
        name @ ''_web = { path = "../'' @ name @ ''_web" }'',
        ''mahalo.workspace = true'',
        ''rebar-core.workspace = true'',
        ''tokio.workspace = true'',
        ''tracing.workspace = true'',
        ''tracing-subscriber.workspace = true'',
        ''mimalloc.workspace = true'']\<close>

definition app_main_rs :: "string \<Rightarrow> string" where
  \<open>app_main_rs name =
     (let web_crate = replace_char (CHR ''-'') (CHR ''_'') name in
      text_lines
       [''#[global_allocator]'',
        ''static GLOBAL: mimalloc::MiMalloc = mimalloc::MiMalloc;'',
        [],
        ''use std::net::SocketAddr;'',
        ''use std::sync::Arc;'',
        [],
        ''use mahalo::MahaloEndpoint;'',
        ''use rebar_core::Runtime;'',
        ''use '' @ web_crate @ ''::router::build_router;'',
        [],
        ''#[tokio::main]'',
        ''async fn main() -> Result<(), Box<dyn std::error::Error + Send + Sync>> {'',
        ''    tracing_subscriber::fmt::init();'',
        [],
        ''    let router = build_router();'',
        ''    let addr: SocketAddr = "127.0.0.1:4000".parse()?;'',
        ''    let runtime = Runtime::new();'',
        [],
        ''    tracing::info!("Starting '' @ name @ '' on {addr}");'',
        [],
        ''    let endpoint = MahaloEndpoint::new(router, addr, Arc::new(runtime));'',
        ''    endpoint.start().await?;'',
        [],
        ''    Ok(())'',
        ''}''])\<close>

definition models_cargo_toml :: "string \<Rightarrow> string" where
  \<open>models_cargo_toml name =
     text_lines
       [''[package]'',
        ''name = "'' @ name @ ''_models"'',
        ''version = "0.1.0"'',
        ''edition.workspace = true'',
        [],
        ''[dependencies]'',
        ''serde.workspace = true'',
        ''serde_json.workspace = true'']\<close>

definition models_lib_rs :: "string" where
  \<open>models_lib_rs =
     text_lines
       [''// Models go here'']\<close>

definition web_cargo_toml :: "string \<Rightarrow> string" where
  \<open>web_cargo_toml name =
     text_lines
       [''[package]'',
        ''name = "'' @ name @ ''_web"'',
        ''version = "0.1.0"'',
        ''edition.workspace = true'',
        [],
        ''[dependencies]'',
        name @ ''_models = { path = "../'' @ name @ ''_models" }'',
        ''mahalo.workspace = true'',
        ''async-trait.workspace = true'',
        ''serde_json.workspace = true'',
        ''tracing.workspace = true'',
        ''http = "1"'']\<close>

definition web_lib_rs :: "string" where
  \<open>web_lib_rs =
     text_lines
       [''pub mod channels;'',
        ''pub mod controllers;'',
        ''pub mod router;'']\<close>

definition web_router_rs :: "string \<Rightarrow> string" where
  \<open>web_router_rs name =
     text_lines
       [''use std::sync::Arc;'',
        [],
        ''use mahalo::{Conn, MahaloRouter, plug_fn};'',
        ''use http::StatusCode;'',
        ''// mahalo:imports'',
        [],
        ''pub fn build_router() -> MahaloRouter {'',
        ''    MahaloRouter::new()'',
        ''        .get("/health", plug_fn(health))'',
        ''        // mahalo:routes'',
        ''}'',
        [],
        ''async fn health(conn: Conn) -> Conn {'',
        ''    conn.put_status(StatusCode::OK)'',
        ''        .put_resp_body("ok")'',
        ''}'']\<close>

definition controllers_mod_rs :: "string" where
  \<open>controllers_mod_rs =
     text_lines
       [''// mahalo:modules'']\<close>

definition channels_mod_rs :: "string" where
  \<open>channels_mod_rs =
     text_lines
       [''// mahalo:modules'']\<close>

section \<open>Texts by lines\<close>

lemma text_lines_Cons: "text_lines (l # ls) = l @ nl # text_lines ls"
  by (simp add: text_lines_def)

lemma text_lines_append: "text_lines (ls @ ls') = text_lines ls @ text_lines ls'"
  by (simp add: text_lines_def)

text \<open>A pattern without line break is searched and replaced line by line.\<close>

lemma str_contains_text_lines:
  assumes "nl \<notin> set m" and "m \<noteq> []"
  shows "str_contains (text_lines ls) m \<longleftrightarrow> (\<exists>l \<in> set ls. str_contains l m)"
proof (induction ls)
  case (Cons l ls)
  then show ?case by (simp add: text_lines_Cons str_contains_sep [OF assms])
qed (simp add: text_lines_def assms(2))

lemma replace_first_text_lines:
  assumes "nl \<notin> set m" and "m \<noteq> []" and "\<forall>l \<in> set ls. \<not> str_contains l m" and "str_contains l m"
  shows "replace_first m r (text_lines (ls @ l # ls')) = text_lines ls @ replace_first m r l @ nl # text_lines ls'"
  using assms(3)
  by (induction ls) (simp_all add: text_lines_Cons replace_first_sep [OF assms(1,2)] assms(4) text_lines_def [of "[]"])

end
