(* ===== verification/Cargo_Mahalo.thy ===== *)
theory Cargo_Mahalo
  imports Cargo_Templates Rust_Path Mahalo_Router "HOL-Library.AList" "HOL-Library.Char_ord" "HOL-Library.List_Lexorder"
begin

text \<open>
  The command-line tool, \<open>cargo-mahalo/src\<close>: project creation (\<open>commands/new.rs\<close>), the
  generators (\<open>commands/generate.rs\<close>) and the dispatch of \<open>main.rs\<close>. The file system is a
  list of directories and a list of files with their contents; relative paths are resolved against
  the working directory \<open>cwd\<close>; \<open>pf_fails\<close> says for which paths an operation fails for some
  other reason. Of what the tool prints, the listing of a new project is modelled, since reading the
  directories for it can fail; the fixed messages are left out. The case functions are those of ASCII, so the
  definitions speak about ASCII names.
\<close>

section \<open>File system\<close>

datatype cli_error = AlreadyExists string | NoCratesDir | NoWebCrate | IoError string

record pfs =
  pf_dirs :: "string list"
  pf_files :: "(string \<times> string) list"
  pf_fails :: "string \<Rightarrow> bool"

definition fs_exists :: "string \<Rightarrow> pfs \<Rightarrow> bool" where
  "fs_exists p fs \<longleftrightarrow> p \<in> set (pf_dirs fs) \<or> map_of (pf_files fs) p \<noteq> None"

definition path_parent :: "string \<Rightarrow> string" where
  "path_parent p = rev (drop 1 (dropWhile (\<lambda>c. c \<noteq> slash) (rev p)))"

definition path_base :: "string \<Rightarrow> string" where
  "path_base p = rev (takeWhile (\<lambda>c. c \<noteq> slash) (rev p))"

definition dir_exists :: "string \<Rightarrow> pfs \<Rightarrow> bool" where
  "dir_exists d fs \<longleftrightarrow> d = [] \<or> d \<in> set (pf_dirs fs)"

text \<open>A command changes the file system and gives a value or an error; an error (the \<open>?\<close> operator)
  ends the command but keeps the changes made before it.\<close>

type_synonym 'a command = "pfs \<Rightarrow> ('a, cli_error) result \<times> pfs"

definition cmd_return :: "'a \<Rightarrow> 'a command" where
  "cmd_return a fs = (Ok a, fs)"

definition cmd_fail :: "cli_error \<Rightarrow> 'a command" where
  "cmd_fail e fs = (Err e, fs)"

definition cmd_bind :: "'a command \<Rightarrow> ('a \<Rightarrow> 'b command) \<Rightarrow> 'b command" where
  "cmd_bind m f fs = (case m fs of (Ok a, fs') \<Rightarrow> f a fs' | (Err e, fs') \<Rightarrow> (Err e, fs'))"

fun each :: "('a \<Rightarrow> unit command) \<Rightarrow> 'a list \<Rightarrow> unit command" where
  "each f [] = cmd_return ()"
| "each f (x # xs) = cmd_bind (f x) (\<lambda>_. each f xs)"

definition fs_write :: "string \<Rightarrow> string \<Rightarrow> unit command" where
  "fs_write p c fs =
     (if pf_fails fs p \<or> \<not> dir_exists (path_parent p) fs \<or> p \<in> set (pf_dirs fs) then (Err (IoError p), fs)
      else (Ok (), fs\<lparr>pf_files := AList.update p c (pf_files fs)\<rparr>))"

definition fs_read_to_string :: "string \<Rightarrow> string command" where
  "fs_read_to_string p fs =
     (if pf_fails fs p then (Err (IoError p), fs)
      else case map_of (pf_files fs) p of None \<Rightarrow> (Err (IoError p), fs) | Some c \<Rightarrow> (Ok c, fs))"

text \<open>Every ancestor is created; one that is a file is an error.\<close>

definition ancestors :: "string \<Rightarrow> string list" where
  "ancestors p = (let ss = split_on slash p in map (\<lambda>i. join [slash] (take i ss)) [1..<Suc (length ss)])"

definition fs_create_dir_all :: "string \<Rightarrow> unit command" where
  "fs_create_dir_all p fs =
     (if pf_fails fs p \<or> (\<exists>a \<in> set (ancestors p). map_of (pf_files fs) a \<noteq> None) then (Err (IoError p), fs)
      else (Ok (), fs\<lparr>pf_dirs := pf_dirs fs @ filter (\<lambda>a. a \<notin> set (pf_dirs fs)) (ancestors p)\<rparr>))"

text \<open>\<open>read_dir\<close>: the entries of a directory in the order \<open>ord\<close> of the file system.\<close>

definition fs_children :: "string \<Rightarrow> pfs \<Rightarrow> string list" where
  "fs_children d fs =
     map path_base (filter (\<lambda>p. path_parent p = d) (pf_dirs fs @ map fst (pf_files fs)))"

definition fs_read_dir :: "(string list \<Rightarrow> string list) \<Rightarrow> string \<Rightarrow> string list command" where
  "fs_read_dir ord d fs =
     (if pf_fails fs d \<or> d \<notin> set (pf_dirs fs) then (Err (IoError d), fs) else (Ok (ord (fs_children d fs)), fs))"

section \<open>Names\<close>

definition is_lower :: "char \<Rightarrow> bool" where
  "is_lower c \<longleftrightarrow> 97 \<le> (of_char c :: nat) \<and> (of_char c :: nat) \<le> 122"

definition is_upper :: "char \<Rightarrow> bool" where
  "is_upper c \<longleftrightarrow> 65 \<le> (of_char c :: nat) \<and> (of_char c :: nat) \<le> 90"

definition to_lower :: "char \<Rightarrow> char" where
  "to_lower c = (if is_upper c then char_of ((of_char c :: nat) + 32) else c)"

definition to_upper :: "char \<Rightarrow> char" where
  "to_upper c = (if is_lower c then char_of ((of_char c :: nat) - 32) else c)"

fun capitalize :: "string \<Rightarrow> string" where
  "capitalize [] = []"
| "capitalize (c # cs) = to_upper c # cs"

text \<open>The loop over the characters of a Pascal-case name; the flag is \<open>i > 0\<close>.\<close>

fun snake_chars :: "bool \<Rightarrow> string \<Rightarrow> string" where
  "snake_chars later [] = []"
| "snake_chars later (c # cs) =
     (if is_upper c \<and> later then [CHR ''_''] else []) @ to_lower c # snake_chars True cs"

definition normalize_name :: "string \<Rightarrow> string \<times> string" where
  "normalize_name name =
     (if CHR ''_'' \<in> set name \<or> list_all (\<lambda>c. is_lower c \<or> c = CHR ''_'') name
      then let snake = map to_lower name
           in (snake, concat (map capitalize (split_on (CHR ''_'') snake)))
      else (snake_chars False name, name))"

definition pluralize :: "string \<Rightarrow> string" where
  "pluralize s = s @ ''s''"

section \<open>Generators\<close>

definition find_web_crate :: "(string list \<Rightarrow> string list) \<Rightarrow> string \<Rightarrow> string command" where
  "find_web_crate ord cwd fs =
     (let crates_dir = path_join cwd ''crates'' in
      if \<not> fs_exists crates_dir fs then cmd_fail NoCratesDir fs
      else cmd_bind (fs_read_dir ord crates_dir) (\<lambda>entries.
        case List.find (\<lambda>n. ends_with n ''_web'' \<and> path_join crates_dir n \<in> set (pf_dirs fs)) entries of
          Some n \<Rightarrow> cmd_return (path_join crates_dir n)
        | None \<Rightarrow> cmd_fail NoWebCrate) fs)"

definition inject_module :: "string \<Rightarrow> string \<Rightarrow> unit command" where
  "inject_module mod_path module_name =
     cmd_bind (fs_read_to_string mod_path) (\<lambda>content.
       let mod_line = ''pub mod '' @ module_name @ '';'';
           marker = ''// mahalo:modules''
       in if str_contains content mod_line then cmd_return ()
          else fs_write mod_path
                 (if str_contains content marker
                  then replace_first marker (marker @ nl # mod_line) content
                  else content @ mod_line @ [nl]))"

definition inject_router :: "string \<Rightarrow> string \<Rightarrow> string \<Rightarrow> string \<Rightarrow> unit command" where
  "inject_router router_path import_line route_line snake =
     cmd_bind (fs_read_to_string router_path) (\<lambda>content.
       if str_contains content (snake @ ''_controller'') then cmd_return ()
       else let imports_marker = ''// mahalo:imports'';
                routes_marker = ''// mahalo:routes''
            in if \<not> str_contains content imports_marker \<or> \<not> str_contains content routes_marker then cmd_return ()
               else let content1 = replace_first imports_marker (imports_marker @ nl # import_line) content;
                        content2 = replace_first routes_marker (routes_marker @ nl # route_line) content1
                    in fs_write router_path content2)"

definition controller_path :: "string \<Rightarrow> string \<Rightarrow> string" where
  "controller_path web_crate snake = path_join web_crate (''src/controllers/'' @ snake @ ''_controller.rs'')"

definition channel_path :: "string \<Rightarrow> string \<Rightarrow> string" where
  "channel_path web_crate snake = path_join web_crate (''src/channels/'' @ snake @ ''_channel.rs'')"

text \<open>\<open>if file_path.exists() { return Err(..) }\<close>, then the file is written.\<close>

definition create_file :: "string \<Rightarrow> string \<Rightarrow> unit command" where
  "create_file p c fs = (if fs_exists p fs then (Err (AlreadyExists p), fs) else fs_write p c fs)"

definition gen_controller :: "(string list \<Rightarrow> string list) \<Rightarrow> string \<Rightarrow> string \<Rightarrow> unit command" where
  "gen_controller ord cwd name =
     (case normalize_name name of (snake, pascal) \<Rightarrow>
        cmd_bind (find_web_crate ord cwd) (\<lambda>web_crate.
          cmd_bind (create_file (controller_path web_crate snake) (controller_file pascal)) (\<lambda>_.
            inject_module (path_join web_crate ''src/controllers/mod.rs'') (snake @ ''_controller''))))"

definition gen_channel :: "(string list \<Rightarrow> string list) \<Rightarrow> string \<Rightarrow> string \<Rightarrow> unit command" where
  "gen_channel ord cwd name =
     (case normalize_name name of (snake, pascal) \<Rightarrow>
        cmd_bind (find_web_crate ord cwd) (\<lambda>web_crate.
          cmd_bind (create_file (channel_path web_crate snake) (channel_file pascal snake)) (\<lambda>_.
            inject_module (path_join web_crate ''src/channels/mod.rs'') (snake @ ''_channel''))))"

definition import_line :: "string \<Rightarrow> string \<Rightarrow> string" where
  "import_line snake pascal = ''use crate::controllers::'' @ snake @ ''_controller::'' @ pascal @ ''Controller;''"

definition route_line :: "string \<Rightarrow> string \<Rightarrow> string" where
  \<open>route_line plural pascal =
     ''        .scope("/'' @ plural @ ''", &[], |s| { s.resources("/'' @ plural @ ''", std::sync::Arc::new(''
     @ pascal @ ''Controller)); })''\<close>

definition gen_resource :: "(string list \<Rightarrow> string list) \<Rightarrow> string \<Rightarrow> string \<Rightarrow> unit command" where
  "gen_resource ord cwd name =
     (case normalize_name name of (snake, pascal) \<Rightarrow>
        cmd_bind (find_web_crate ord cwd) (\<lambda>web_crate.
          cmd_bind (create_file (controller_path web_crate snake) (controller_file pascal)) (\<lambda>_.
            cmd_bind (inject_module (path_join web_crate ''src/controllers/mod.rs'') (snake @ ''_controller'')) (\<lambda>_.
              inject_router (path_join web_crate ''src/router.rs'') (import_line snake pascal)
                (route_line (pluralize snake) pascal) snake))))"

section \<open>New projects\<close>

definition project_dirs :: "string \<Rightarrow> string list" where
  "project_dirs name =
     [''crates/'' @ name @ ''/src'', ''crates/'' @ name @ ''_models/src'',
      ''crates/'' @ name @ ''_web/src/controllers'', ''crates/'' @ name @ ''_web/src/channels'']"

definition project_files :: "string \<Rightarrow> (string \<times> string) list" where
  "project_files name =
     [(''Cargo.toml'', workspace_cargo_toml name),
      (''crates/'' @ name @ ''/Cargo.toml'', app_cargo_toml name),
      (''crates/'' @ name @ ''/src/main.rs'', app_main_rs name),
      (''crates/'' @ name @ ''_models/Cargo.toml'', models_cargo_toml name),
      (''crates/'' @ name @ ''_models/src/lib.rs'', models_lib_rs),
      (''crates/'' @ name @ ''_web/Cargo.toml'', web_cargo_toml name),
      (''crates/'' @ name @ ''_web/src/lib.rs'', web_lib_rs),
      (''crates/'' @ name @ ''_web/src/router.rs'', web_router_rs name),
      (''crates/'' @ name @ ''_web/src/controllers/mod.rs'', controllers_mod_rs),
      (''crates/'' @ name @ ''_web/src/channels/mod.rs'', channels_mod_rs)]"

text \<open>The listing of the created tree: the lines printed, and how it ended. The entries of a
  directory are sorted by their names; the recursion ends because an entry's path is longer than its
  directory's.\<close>

definition tree_entries :: "string \<Rightarrow> pfs \<Rightarrow> string list" where
  "tree_entries d fs =
     sort_key path_base (filter (\<lambda>p. p \<noteq> [] \<and> path_parent p = d) (pf_dirs fs @ map fst (pf_files fs)))"

definition longest_path :: "pfs \<Rightarrow> nat" where
  "longest_path fs = foldr (\<lambda>p. max (length p)) (pf_dirs fs @ map fst (pf_files fs)) 0"

type_synonym printed = "string list \<times> (unit, cli_error) result"

fun printed_all :: "printed list \<Rightarrow> printed" where
  "printed_all [] = ([], Ok ())"
| "printed_all ((out, Ok _) # rs) = (case printed_all rs of (out', r) \<Rightarrow> (out @ out', r))"
| "printed_all ((out, Err e) # rs) = (out, Err e)"

definition box_tee :: string where "box_tee = [CHR 0xE2, CHR 0x94, CHR 0x9C, CHR 0xE2, CHR 0x94, CHR 0x80, CHR 0xE2, CHR 0x94, CHR 0x80, CHR '' '']"
definition box_corner :: string where "box_corner = [CHR 0xE2, CHR 0x94, CHR 0x94, CHR 0xE2, CHR 0x94, CHR 0x80, CHR 0xE2, CHR 0x94, CHR 0x80, CHR '' '']"
definition box_bar :: string where "box_bar = [CHR 0xE2, CHR 0x94, CHR 0x82] @ ''   ''"

definition tree_line :: "bool \<Rightarrow> string \<Rightarrow> bool \<Rightarrow> string \<Rightarrow> string" where
  "tree_line is_dir prefix is_last name =
     (if prefix = [] then ''  '' @ name @ ''/''
      else ''  '' @ prefix @ (if is_last then box_corner else box_tee) @ name @ (if is_dir then ''/'' else []))"

definition child_prefix :: "string \<Rightarrow> bool \<Rightarrow> string" where
  "child_prefix prefix is_last = (if prefix = [] then ''  '' else prefix @ (if is_last then ''    '' else box_bar))"

lemma longest_path_ge: "p \<in> set (pf_dirs fs @ map fst (pf_files fs)) \<Longrightarrow> length p \<le> longest_path fs"
proof -
  have "p \<in> set ps \<Longrightarrow> length p \<le> foldr (\<lambda>p. max (length p)) ps 0" for ps by (induction ps) auto
  then show "p \<in> set (pf_dirs fs @ map fst (pf_files fs)) \<Longrightarrow> ?thesis" unfolding longest_path_def by blast
qed

lemma path_parent_shorter: "p \<noteq> [] \<Longrightarrow> length (path_parent p) < length p"
proof -
  assume "p \<noteq> []"
  then have "0 < length p" by simp
  moreover have "length (path_parent p) = length (dropWhile (\<lambda>c. c \<noteq> slash) (rev p)) - 1"
    by (simp only: path_parent_def length_rev length_drop)
  ultimately show ?thesis using length_dropWhile_le [of "\<lambda>c. c \<noteq> slash" "rev p"] unfolding length_rev by arith
qed

lemma tree_entries_iff:
  "p \<in> set (tree_entries d fs) \<longleftrightarrow> p \<noteq> [] \<and> path_parent p = d \<and> p \<in> set (pf_dirs fs @ map fst (pf_files fs))"
  unfolding tree_entries_def set_sort set_filter by blast

function print_tree :: "pfs \<Rightarrow> string \<Rightarrow> string \<Rightarrow> bool \<Rightarrow> printed" where
  "print_tree fs dir prefix is_last =
     (let is_dir = dir \<in> set (pf_dirs fs);
          line = tree_line is_dir prefix is_last (case path_file_name dir of Some n \<Rightarrow> n | None \<Rightarrow> [])
      in if \<not> is_dir then ([line], Ok ())
         else if pf_fails fs dir then ([line], Err (IoError dir))
         else let entries = tree_entries dir fs
              in printed_all (([line], Ok ()) #
                   map (\<lambda>(i, entry). print_tree fs entry (child_prefix prefix is_last) (i = length entries - 1))
                     (enumerate 0 entries)))"
  by pat_completeness auto
termination
proof (relation "measure (\<lambda>(fs, dir, _). Suc (longest_path fs) - length dir)")
  fix fs dir prefix is_last is_dir line entries z i entry
  assume entries: "entries = tree_entries dir fs" and "z \<in> set (enumerate 0 entries)" and "(i, entry) = z"
  then have "entry \<in> set entries" by (auto simp: in_set_enumerate_eq)
  then have e: "entry \<noteq> []" "path_parent entry = dir" "entry \<in> set (pf_dirs fs @ map fst (pf_files fs))"
    unfolding entries tree_entries_iff by blast+
  from path_parent_shorter [OF e(1)] longest_path_ge [OF e(3)] e(2)
  show "((fs, entry, child_prefix prefix is_last, i = length entries - 1), fs, dir, prefix, is_last)
      \<in> measure (\<lambda>(fs, dir, _). Suc (longest_path fs) - length dir)" by auto
qed simp

declare print_tree.simps [simp del]

definition new_run :: "string \<Rightarrow> string \<Rightarrow> unit command" where
  "new_run cwd name fs =
     (let root = path_join cwd name in
      if fs_exists root fs then (Err (AlreadyExists root), fs)
      else cmd_bind (each (\<lambda>d. fs_create_dir_all (path_join root d)) (project_dirs name)) (\<lambda>_.
        cmd_bind (each (\<lambda>(p, c). fs_write (path_join root p) c) (project_files name)) (\<lambda>_.
          \<lambda>fs'. (snd (print_tree fs' root [] True), fs'))) fs)"

section \<open>Command dispatch\<close>

datatype mahalo_command = New string | GenerateController string | GenerateChannel string | GenerateResource string

text \<open>The exit code of the process and the file system it leaves.\<close>

definition cli_main :: "(string list \<Rightarrow> string list) \<Rightarrow> string \<Rightarrow> mahalo_command \<Rightarrow> pfs \<Rightarrow> nat \<times> pfs" where
  "cli_main ord cwd command fs =
     (case (case command of
              New name \<Rightarrow> new_run cwd name
            | GenerateController name \<Rightarrow> gen_controller ord cwd name
            | GenerateChannel name \<Rightarrow> gen_channel ord cwd name
            | GenerateResource name \<Rightarrow> gen_resource ord cwd name) fs of
        (Ok _, fs') \<Rightarrow> (0, fs') | (Err _, fs') \<Rightarrow> (1, fs'))"

section \<open>Names\<close>

definition snake_name :: "string \<Rightarrow> bool" where
  "snake_name s \<longleftrightarrow> list_all (\<lambda>p. p \<noteq> [] \<and> list_all is_lower p) (split_on (CHR ''_'') s)"

lemma case_chars:
  assumes "is_lower c"
  shows "is_upper (to_upper c)" and "to_lower (to_upper c) = c" and "to_lower c = c" and "\<not> is_upper c"
    and "c \<noteq> CHR ''_''" and "to_upper c \<noteq> CHR ''_''" and "\<not> is_lower (to_upper c)"
proof -
  have n: "97 \<le> (of_char c :: nat)" "(of_char c :: nat) \<le> 122" using assms by (simp_all add: is_lower_def)
  then have u: "(of_char (to_upper c) :: nat) = of_char c - 32" using assms by (simp add: to_upper_def)
  show up: "is_upper (to_upper c)" unfolding is_upper_def u using n by linarith
  show "\<not> is_upper c" using n by (simp add: is_upper_def)
  then show "to_lower c = c" by (simp add: to_lower_def)
  have "to_lower (to_upper c) = char_of ((of_char (to_upper c) :: nat) + 32)" using up by (simp add: to_lower_def)
  also have "\<dots> = char_of (of_char c :: nat)" using n unfolding u by simp
  finally show "to_lower (to_upper c) = c" by simp
  show "c \<noteq> CHR ''_''" using n by auto
  show "to_upper c \<noteq> CHR ''_''" using n u by auto
  show "\<not> is_lower (to_upper c)" using n unfolding is_lower_def u by simp
qed

lemma underscore_chars [simp]: "\<not> is_lower (CHR ''_'')" "\<not> is_upper (CHR ''_'')"
  by (simp_all add: is_lower_def is_upper_def)

lemma snake_chars_lower: "list_all is_lower p \<Longrightarrow> snake_chars True (p @ r) = p @ snake_chars True r"
  by (induction p) (simp_all add: case_chars)

lemma snake_chars_part:
  "p \<noteq> [] \<Longrightarrow> list_all is_lower p \<Longrightarrow>
     snake_chars later (capitalize p @ r) = (if later then [CHR ''_''] else []) @ p @ snake_chars True r"
  by (cases p) (simp_all add: case_chars snake_chars_lower)

lemma snake_chars_parts:
  "list_all (\<lambda>p. p \<noteq> [] \<and> list_all is_lower p) ps \<Longrightarrow> ps \<noteq> [] \<Longrightarrow>
     snake_chars later (concat (map capitalize ps)) = (if later then [CHR ''_''] else []) @ join [CHR ''_''] ps"
proof (induction ps arbitrary: later)
  case (Cons p ps)
  show ?case
  proof (cases "ps = []")
    case True
    then show ?thesis using Cons.prems snake_chars_part [of p later "[]"] by simp
  next
    case False
    then show ?thesis using Cons snake_chars_part [of p later "concat (map capitalize ps)"] by (simp add: join_Cons)
  qed
qed simp

lemma capitalize_chars:
  "p \<noteq> [] \<Longrightarrow> list_all is_lower p \<Longrightarrow> CHR ''_'' \<notin> set (capitalize p) \<and> \<not> list_all is_lower (capitalize p)"
  by (cases p) (auto simp: case_chars list_all_iff dest: case_chars(6))

lemma set_join_sub: "set (join sep ps) \<subseteq> set sep \<union> \<Union> (set ` set ps)"
  by (induction sep ps rule: join.induct) auto

lemma snake_name_chars:
  assumes "snake_name s"
  shows "list_all (\<lambda>c. is_lower c \<or> c = CHR ''_'') s"
proof -
  have "set s \<subseteq> {CHR ''_''} \<union> \<Union> (set ` set (split_on (CHR ''_'') s))"
    using set_join_sub [of "[CHR ''_'']" "split_on (CHR ''_'') s"] by simp
  with assms show ?thesis by (fastforce simp: snake_name_def list_all_iff)
qed

section \<open>Properties of names\<close>

text \<open>The two spellings of a name agree: for a snake-case name of lower-case words the generator
  computes a Pascal-case name from which it computes the same snake-case name again, so
  \<open>generate controller room_message\<close> and \<open>generate controller RoomMessage\<close> write the same
  files.\<close>

theorem normalize_name_agrees:
  assumes "snake_name s"
  shows "fst (normalize_name s) = s \<and> normalize_name (snd (normalize_name s)) = normalize_name s"
proof -
  let ?ps = "split_on (CHR ''_'') s"
  let ?pascal = "concat (map capitalize ?ps)"
  have parts: "list_all (\<lambda>p. p \<noteq> [] \<and> list_all is_lower p) ?ps" using assms by (simp add: snake_name_def)
  have "to_lower c = c" if "c \<in> set s" for c
  proof -
    have "is_lower c \<or> c = CHR ''_''" using snake_name_chars [OF assms] that by (simp add: list_all_iff)
    then have "\<not> is_upper c" using case_chars(4) by auto
    then show ?thesis by (simp add: to_lower_def)
  qed
  then have low: "map to_lower s = s" by (simp add: map_idI)
  with snake_name_chars [OF assms] have s: "normalize_name s = (s, ?pascal)"
    by (simp add: normalize_name_def Let_def)
  have no: "CHR ''_'' \<notin> set ?pascal"
    using parts capitalize_chars by (auto simp: list_all_iff)
  obtain q qs where q: "?ps = q # qs" by (meson list.exhaust split_on_not_Nil)
  have "\<not> list_all is_lower (capitalize q)" using capitalize_chars [of q] parts q by simp
  then have "\<not> list_all (\<lambda>c. is_lower c \<or> c = CHR ''_'') ?pascal"
    using no q by (auto simp: list_all_iff)
  with no have "normalize_name ?pascal = (snake_chars False ?pascal, ?pascal)"
    by (simp add: normalize_name_def)
  also have "snake_chars False ?pascal = s" using snake_chars_parts [OF parts, of False] by simp
  finally show ?thesis using s by simp
qed

theorem normalize_name_agrees_witness:
  "normalize_name ''RoomMessage'' = normalize_name ''room_message''"
proof -
  have "snake_name ''room_message''" by code_simp
  moreover have "normalize_name ''room_message'' = (''room_message'', ''RoomMessage'')" by code_simp
  ultimately show ?thesis using normalize_name_agrees [of "''room_message''"] by simp
qed

end
