(* ===== verification/Cargo_Project.thy ===== *)
theory Cargo_Project
  imports Cargo_Mahalo
begin

text \<open>
  What the command-line tool does to a project: a new project can be extended by the generators
  (its files carry the markers they look for), a second generation is refused, and what the
  generated text means for the router of \<open>Mahalo_Router\<close>.
\<close>

section \<open>Paths\<close>

lemma path_parent_base:
  "slash \<notin> set b \<Longrightarrow> path_parent (d @ slash # b) = d \<and> path_base (d @ slash # b) = b"
  by (simp add: path_parent_def path_base_def dropWhile_append takeWhile_append)

lemma path_parent_split: "slash \<in> set p \<Longrightarrow> p = path_parent p @ slash # path_base p"
proof -
  assume "slash \<in> set p"
  then obtain d b where "p = d @ slash # b" "slash \<notin> set b" by (metis split_list_last)
  then show ?thesis by (simp add: path_parent_base)
qed

lemma path_parent_none: "slash \<notin> set p \<Longrightarrow> path_parent p = []"
proof -
  assume "slash \<notin> set p"
  then have none: "dropWhile (\<lambda>c. c \<noteq> slash) (rev p) = []" by auto
  show ?thesis unfolding path_parent_def none by simp
qed

definition project_name :: "string \<Rightarrow> bool" where
  "project_name name \<longleftrightarrow> canonical_segment name \<and> \<not> ends_with name ''_web''"

lemma path_join_below:
  assumes "canonical_segment name" and "\<not> is_absolute p"
  shows "path_join name p = name @ slash # p"
proof -
  have "last name \<noteq> slash" using assms(1) by (metis canonical_segment_def last_in_set)
  with assms show ?thesis by (simp add: path_join_def canonical_segment_def)
qed

lemma path_join_dir:
  assumes "d \<noteq> []" and "last d \<noteq> slash" and "\<not> is_absolute p"
  shows "path_join d p = d @ slash # p"
  using assms by (simp add: path_join_def)

section \<open>Creating a project\<close>

definition below :: "string \<Rightarrow> string \<Rightarrow> bool" where
  "below name p \<longleftrightarrow> p = name \<or> starts_with p (name @ [slash])"

text \<open>Nothing is there under the name of the project, and no operation fails.\<close>

definition fresh_root :: "string \<Rightarrow> pfs \<Rightarrow> bool" where
  "fresh_root name fs \<longleftrightarrow>
     (\<forall>p. pf_fails fs p = False) \<and> (\<forall>p \<in> set (pf_dirs fs). \<not> below name p) \<and>
     (\<forall>p. below name p \<longrightarrow> map_of (pf_files fs) p = None)"

lemma each_create:
  assumes "\<forall>p. \<not> pf_fails fs p" and "\<forall>d \<in> set ds. \<forall>a \<in> set (ancestors (f d)). map_of (pf_files fs) a = None"
  shows "\<exists>D. each (\<lambda>d. fs_create_dir_all (f d)) ds fs = (Ok (), fs\<lparr>pf_dirs := D\<rparr>)
    \<and> set D = set (pf_dirs fs) \<union> (\<Union>d \<in> set ds. set (ancestors (f d)))"
  using assms
proof (induction ds arbitrary: fs)
  case (Cons d ds)
  let ?D = "pf_dirs fs @ filter (\<lambda>a. a \<notin> set (pf_dirs fs)) (ancestors (f d))"
  have one: "fs_create_dir_all (f d) fs = (Ok (), fs\<lparr>pf_dirs := ?D\<rparr>)"
    using Cons.prems by (simp add: fs_create_dir_all_def)
  obtain D where "each (\<lambda>d. fs_create_dir_all (f d)) ds (fs\<lparr>pf_dirs := ?D\<rparr>) = (Ok (), fs\<lparr>pf_dirs := D\<rparr>)"
    "set D = set ?D \<union> (\<Union>d \<in> set ds. set (ancestors (f d)))"
    using Cons.IH [of "fs\<lparr>pf_dirs := ?D\<rparr>"] Cons.prems by auto
  with one show ?case by (intro exI [of _ D]) (auto simp: cmd_bind_def)
next
  case Nil
  show ?case by (intro exI [of _ "pf_dirs fs"]) (simp add: cmd_return_def)
qed

lemma each_write:
  assumes "\<forall>p. \<not> pf_fails fs p" and "\<forall>(p, c) \<in> set pcs. dir_exists (path_parent (f p)) fs \<and> f p \<notin> set (pf_dirs fs)"
  shows "\<exists>F. each (\<lambda>(p, c). fs_write (f p) c) pcs fs = (Ok (), fs\<lparr>pf_files := F\<rparr>)
    \<and> map_of F = map_of (pf_files fs) ++ map_of (rev (map (\<lambda>(p, c). (f p, c)) pcs))"
  using assms
proof (induction pcs arbitrary: fs)
  case (Cons pc pcs)
  obtain p c where pc: "pc = (p, c)" by (cases pc)
  let ?F = "AList.update (f p) c (pf_files fs)"
  have one: "fs_write (f p) c fs = (Ok (), fs\<lparr>pf_files := ?F\<rparr>)"
    using Cons.prems pc by (simp add: fs_write_def)
  have "\<forall>(p, c) \<in> set pcs. dir_exists (path_parent (f p)) (fs\<lparr>pf_files := ?F\<rparr>) \<and> f p \<notin> set (pf_dirs fs)"
    using Cons.prems(2) by (auto simp: dir_exists_def)
  then obtain F where F: "each (\<lambda>(p, c). fs_write (f p) c) pcs (fs\<lparr>pf_files := ?F\<rparr>) = (Ok (), fs\<lparr>pf_files := F\<rparr>)"
    "map_of F = map_of ?F ++ map_of (rev (map (\<lambda>(p, c). (f p, c)) pcs))"
    using Cons.IH [of "fs\<lparr>pf_files := ?F\<rparr>"] Cons.prems(1) by auto
  have "map_of F = map_of (pf_files fs) ++ map_of (rev (map (\<lambda>(p, c). (f p, c)) (pc # pcs)))"
    unfolding F(2) by (simp add: pc update_conv')
  with one F(1) pc show ?case by (intro exI [of _ F]) (simp add: cmd_bind_def)
next
  case Nil
  show ?case by (intro exI [of _ "pf_files fs"]) (simp add: cmd_return_def)
qed

text \<open>The directories of a new project.\<close>

definition project_dir_set :: "string \<Rightarrow> string set" where
  "project_dir_set name =
     (let crates = name @ ''/crates'' in
      {name, crates, crates @ slash # name, crates @ slash # name @ ''/src'',
       crates @ slash # name @ ''_models'', crates @ slash # name @ ''_models/src'',
       crates @ slash # name @ ''_web'', crates @ slash # name @ ''_web/src'',
       crates @ slash # name @ ''_web/src/controllers'', crates @ slash # name @ ''_web/src/channels''})"

lemma ancestors_join:
  assumes "\<forall>s \<in> set ss. slash \<notin> set s" and "ss \<noteq> []"
  shows "ancestors (join [slash] ss) = map (\<lambda>i. join [slash] (take i ss)) [1..<Suc (length ss)]"
  using split_on_join [OF assms(2,1)] by (simp add: ancestors_def)

lemma dir_atoms:
  "{a, b, c, d} \<union> ({a, b, e, f} \<union> ({a, b, g, h, i} \<union> {a, b, g, h, k})) = {a, b, c, d, e, f, g, h, i, k}"
  by auto

lemma project_ancestors:
  assumes "canonical_segment name"
  shows "(\<Union>d \<in> set (project_dirs name). set (ancestors (path_join name d))) = project_dir_set name"
proof -
  have n: "slash \<notin> set name" using assms by (simp add: canonical_segment_def)
  have j: "path_join name (''crates/'' @ r) = name @ slash # ''crates/'' @ r" for r
    using assms by (intro path_join_below) (simp_all add: is_absolute_def starts_with_def)
  have a1: "ancestors (name @ slash # ''crates/'' @ name @ x @ slash # ''src'') =
      [name, name @ ''/crates'', name @ ''/crates/'' @ name @ x, name @ ''/crates/'' @ name @ x @ ''/src'']"
    if "slash \<notin> set x" for x
    using ancestors_join [of "[name, ''crates'', name @ x, ''src'']"] n that by (simp add: numeral_eq_Suc)
  have a2: "ancestors (name @ slash # ''crates/'' @ name @ x @ slash # ''src/'' @ y) =
      [name, name @ ''/crates'', name @ ''/crates/'' @ name @ x, name @ ''/crates/'' @ name @ x @ ''/src'',
       name @ ''/crates/'' @ name @ x @ ''/src/'' @ y]"
    if "slash \<notin> set x" "slash \<notin> set y" for x y
    using ancestors_join [of "[name, ''crates'', name @ x, ''src'', y]"] n that by (simp add: numeral_eq_Suc)
  let ?c = "name @ ''/crates''"
  let ?A = "\<lambda>x. [name, ?c, ?c @ slash # name @ x, ?c @ slash # name @ x @ ''/src'']"
  have "ancestors (path_join name (''crates/'' @ name @ ''/src'')) = ?A []"
    "ancestors (path_join name (''crates/'' @ name @ ''_models/src'')) = ?A ''_models''"
    "ancestors (path_join name (''crates/'' @ name @ ''_web/src/controllers'')) = ?A ''_web'' @ [?c @ slash # name @ ''_web/src/controllers'']"
    "ancestors (path_join name (''crates/'' @ name @ ''_web/src/channels'')) = ?A ''_web'' @ [?c @ slash # name @ ''_web/src/channels'']"
    unfolding j
    using a1 [of "[]"] a1 [of "''_models''"] a2 [of "''_web''" "''controllers''"] a2 [of "''_web''" "''channels''"]
    by simp_all
  then show ?thesis
    unfolding project_dirs_def project_dir_set_def Let_def
    by (simp only: list.set UN_insert UN_empty append.simps append_Nil2 dir_atoms Un_empty_right)
qed

lemma below_path [simp]: "below name (name @ slash # p)"
  by (simp add: below_def starts_with_def)

lemma project_dir_below: "d \<in> project_dir_set name \<Longrightarrow> below name d"
  by (auto simp: project_dir_set_def Let_def below_def starts_with_def)

lemma project_file_parents:
  assumes "canonical_segment name" and "(p, c) \<in> set (project_files name)"
  shows "path_parent (name @ slash # p) \<in> project_dir_set name"
proof -
  let ?c = "name @ ''/crates''"
  have n: "slash \<notin> set name" using assms(1) by (simp add: canonical_segment_def)
  have "path_parent (name @ slash # ''Cargo.toml'') = name"
    "path_parent (?c @ slash # name @ x @ slash # ''Cargo.toml'') = ?c @ slash # name @ x"
    "path_parent (?c @ slash # name @ x @ ''/src'' @ slash # b) = ?c @ slash # name @ x @ ''/src''"
    "path_parent (?c @ slash # name @ x @ ''/src/'' @ y @ slash # b) = ?c @ slash # name @ x @ ''/src/'' @ y"
    if "slash \<notin> set b" for x y b
    using path_parent_base [of "''Cargo.toml''" name] path_parent_base [of "''Cargo.toml''" "?c @ slash # name @ x"]
      path_parent_base [OF that, of "?c @ slash # name @ x @ ''/src''"] path_parent_base [OF that, of "?c @ slash # name @ x @ ''/src/'' @ y"]
    by simp_all
  note parents = this(1) [of "[]"] this(2) [of "[]" "[]"] this(2) [of "[]" "''_models''"] this(2) [of "[]" "''_web''"]
    this(3) [of "''main.rs''" "[]"] this(3) [of "''lib.rs''" "''_models''"] this(3) [of "''lib.rs''" "''_web''"]
    this(3) [of "''router.rs''" "''_web''"] this(4) [of "''mod.rs''" "''_web''" "''controllers''"]
    this(4) [of "''mod.rs''" "''_web''" "''channels''"]
  have "p \<in> {''Cargo.toml'', ''crates/'' @ name @ ''/Cargo.toml'', ''crates/'' @ name @ ''/src/main.rs'',
      ''crates/'' @ name @ ''_models/Cargo.toml'', ''crates/'' @ name @ ''_models/src/lib.rs'',
      ''crates/'' @ name @ ''_web/Cargo.toml'', ''crates/'' @ name @ ''_web/src/lib.rs'',
      ''crates/'' @ name @ ''_web/src/router.rs'', ''crates/'' @ name @ ''_web/src/controllers/mod.rs'',
      ''crates/'' @ name @ ''_web/src/channels/mod.rs''}"
    using assms(2) by (auto simp: project_files_def)
  then show ?thesis using parents unfolding project_dir_set_def Let_def
    by (elim insertE emptyE) simp_all
qed

lemma project_file_not_dir:
  assumes "(p, c) \<in> set (project_files name)"
  shows "name @ slash # p \<notin> project_dir_set name"
  using assms unfolding project_files_def project_dir_set_def Let_def
  by (simp only: list.set, elim insertE emptyE) simp_all

lemma path_join_root: "canonical_segment name \<Longrightarrow> path_join [] name = name"
  by (cases name) (auto simp: path_join_def canonical_segment_def is_absolute_def starts_with_def)

lemma project_file_relative: "(p, c) \<in> set (project_files name) \<Longrightarrow> \<not> is_absolute p"
  by (auto simp: project_files_def is_absolute_def starts_with_def)

text \<open>The listing succeeds when every directory can be read.\<close>

lemma printed_all_ok: "snd (printed_all rs) = Ok () \<longleftrightarrow> (\<forall>r \<in> set rs. snd r = Ok ())"
  by (induction rs rule: printed_all.induct) (auto split: prod.splits)

lemma print_tree_ok: "\<forall>p. \<not> pf_fails fs p \<Longrightarrow> snd (print_tree fs dir prefix is_last) = Ok ()"
proof (induction fs dir prefix is_last rule: print_tree.induct)
  case (1 fs dir prefix is_last)
  let ?entries = "tree_entries dir fs"
  have "snd (print_tree fs entry (child_prefix prefix is_last) (i = length ?entries - 1)) = Ok ()"
    if "dir \<in> set (pf_dirs fs)" "(i, entry) \<in> set (enumerate 0 ?entries)" for i entry
    using "1.IH" [OF refl refl _ _ refl that(2) refl] "1.prems" that(1) by simp
  with "1.prems" show ?case
    by (subst print_tree.simps) (auto simp: Let_def printed_all_ok simp del: printed_all.simps)
qed

lemma new_run_ok:
  assumes "canonical_segment name" and "fresh_root name fs"
  shows "\<exists>D F. new_run [] name fs = (Ok (), fs\<lparr>pf_dirs := D, pf_files := F\<rparr>)
    \<and> set D = set (pf_dirs fs) \<union> project_dir_set name
    \<and> map_of F = map_of (pf_files fs) ++ map_of (rev (map (\<lambda>(p, c). (name @ slash # p, c)) (project_files name)))"
proof -
  have nofail: "\<forall>p. \<not> pf_fails fs p" using assms(2) by (simp add: fresh_root_def)
  have "\<not> fs_exists name fs"
    using assms(2) by (auto simp: fs_exists_def fresh_root_def below_def)
  moreover have "\<forall>d \<in> set (project_dirs name). \<forall>a \<in> set (ancestors (path_join name d)). map_of (pf_files fs) a = None"
    using project_ancestors [OF assms(1)] project_dir_below [of _ name] assms(2) by (fastforce simp: fresh_root_def)
  from each_create [OF nofail this] obtain D where
    D: "each (\<lambda>d. fs_create_dir_all (path_join name d)) (project_dirs name) fs = (Ok (), fs\<lparr>pf_dirs := D\<rparr>)"
    "set D = set (pf_dirs fs) \<union> project_dir_set name"
    using project_ancestors [OF assms(1)] by auto
  have join: "path_join name p = name @ slash # p" if "(p, c) \<in> set (project_files name)" for p c
    using assms(1) project_file_relative [OF that] by (rule path_join_below)
  have "\<forall>(p, c) \<in> set (project_files name).
      dir_exists (path_parent (path_join name p)) (fs\<lparr>pf_dirs := D\<rparr>) \<and> path_join name p \<notin> set (pf_dirs (fs\<lparr>pf_dirs := D\<rparr>))"
    using project_file_parents [OF assms(1)] project_file_not_dir join assms(2) D(2)
    by (auto simp: dir_exists_def fresh_root_def)
  from each_write [OF _ this] nofail obtain F where
    F: "each (\<lambda>(p, c). fs_write (path_join name p) c) (project_files name) (fs\<lparr>pf_dirs := D\<rparr>)
         = (Ok (), fs\<lparr>pf_dirs := D, pf_files := F\<rparr>)"
    "map_of F = map_of (pf_files fs) ++ map_of (rev (map (\<lambda>(p, c). (path_join name p, c)) (project_files name)))"
    by auto
  have "map (\<lambda>(p, c). (path_join name p, c)) (project_files name) = map (\<lambda>(p, c). (name @ slash # p, c)) (project_files name)"
    using join by auto
  with D F calculation show ?thesis
    by (intro exI [of _ D] exI [of _ F])
      (simp add: new_run_def path_join_root [OF assms(1)] Let_def cmd_bind_def print_tree_ok nofail)
qed

section \<open>Finding the web crate\<close>

lemma find_unique:
  assumes "a \<in> set xs" and "P a" and unique: "\<And>x. x \<in> set xs \<Longrightarrow> P x \<Longrightarrow> x = a"
  shows "List.find P xs = Some a"
proof (cases "List.find P xs")
  case None
  with assms(1,2) show ?thesis by (auto simp: find_None_iff)
next
  case (Some x)
  from find_Some_mem [OF this] have "x = a" by (intro unique) simp_all
  with Some show ?thesis by simp
qed

definition web_crate :: "string \<Rightarrow> string" where
  "web_crate name = name @ ''/crates/'' @ name @ ''_web''"

lemma find_web_crate_ok:
  assumes "project_name name" and "fresh_root name fs" and ord: "\<And>xs. set (ord xs) = set xs"
    and D: "set (pf_dirs fs1) = set (pf_dirs fs) \<union> project_dir_set name" and fails: "\<forall>p. \<not> pf_fails fs1 p"
  shows "find_web_crate ord name fs1 = (Ok (web_crate name), fs1)"
proof -
  let ?c = "name @ ''/crates''"
  have name: "canonical_segment name" and web: "\<not> ends_with name ''_web''" using assms(1) by (simp_all add: project_name_def)
  have n: "slash \<notin> set name" using name by (simp add: canonical_segment_def)
  have crates: "path_join name ''crates'' = ?c"
    using path_join_below [OF name, of "''crates''"] by (simp add: is_absolute_def starts_with_def)
  have join: "path_join ?c x = ?c @ slash # x" if "slash \<notin> set x" for x
    using that by (intro path_join_dir) (auto simp: is_absolute_def starts_with_iff)
  have cD: "?c \<in> set (pf_dirs fs1)" "?c @ slash # name @ ''_web'' \<in> set (pf_dirs fs1)"
    using D by (simp_all add: project_dir_set_def Let_def)
  have child: "slash \<notin> set x" if "x \<in> set (fs_children ?c fs1)" for x
    using that by (auto simp: fs_children_def path_base_def dest: set_takeWhileD)
  have only: "x = name @ ''_web''"
    if "ends_with x ''_web''" "?c @ slash # x \<in> set (pf_dirs fs1)" "slash \<notin> set x" for x
  proof -
    have "?c @ slash # x \<notin> set (pf_dirs fs)" using assms(2) by (auto simp: fresh_root_def)
    then have "?c @ slash # x \<in> project_dir_set name" using that(2) D by auto
    then have "x \<in> {name, name @ ''_models'', name @ ''_web''}"
      using that(3) n by (auto simp: project_dir_set_def Let_def)
    with that(1) web show ?thesis by (auto simp: ends_with_def starts_with_def)
  qed
  have mem: "name @ ''_web'' \<in> set (fs_children ?c fs1)"
  proof -
    have "path_parent (?c @ slash # name @ ''_web'') = ?c" "path_base (?c @ slash # name @ ''_web'') = name @ ''_web''"
      using path_parent_base [of "name @ ''_web''" ?c] n by simp_all
    with cD(2) show ?thesis unfolding fs_children_def by (force simp: image_iff)
  qed
  have "List.find (\<lambda>x. ends_with x ''_web'' \<and> path_join ?c x \<in> set (pf_dirs fs1)) (ord (fs_children ?c fs1)) = Some (name @ ''_web'')"
  proof (rule find_unique)
    show "name @ ''_web'' \<in> set (ord (fs_children ?c fs1))" using mem ord by simp
    show "ends_with (name @ ''_web'') ''_web'' \<and> path_join ?c (name @ ''_web'') \<in> set (pf_dirs fs1)"
      using cD(2) join [of "name @ ''_web''"] n by (auto simp: ends_with_iff)
  next
    fix x assume "x \<in> set (ord (fs_children ?c fs1))" "ends_with x ''_web'' \<and> path_join ?c x \<in> set (pf_dirs fs1)"
    with child [of x] ord only [of x] join [of x] show "x = name @ ''_web''" by auto
  qed
  moreover have "fs_exists ?c fs1" using cD by (simp add: fs_exists_def)
  moreover have "path_join ?c (name @ ''_web'') = web_crate name" using join [of "name @ ''_web''"] n by (simp add: web_crate_def)
  ultimately show ?thesis
    using cD fails by (simp add: find_web_crate_def Let_def crates cmd_bind_def fs_read_dir_def cmd_return_def)
qed

section \<open>Injection\<close>

lemma web_crate_join: "\<not> is_absolute p \<Longrightarrow> path_join (web_crate name) p = web_crate name @ slash # p"
  by (rule path_join_dir) (simp_all add: web_crate_def)

lemma project_lookups:
  assumes "fresh_root name fs"
    and F: "map_of F = map_of (pf_files fs) ++ map_of (rev (map (\<lambda>(p, c). (name @ slash # p, c)) (project_files name)))"
  shows "map_of F (web_crate name @ ''/src/router.rs'') = Some (web_router_rs name)"
    and "map_of F (web_crate name @ ''/src/controllers/mod.rs'') = Some controllers_mod_rs"
    and "slash \<notin> set x \<Longrightarrow> map_of F (web_crate name @ ''/src/controllers/'' @ x @ ''_controller.rs'') = None"
proof -
  have old: "map_of (pf_files fs) (name @ slash # p) = None" for p using assms(1) by (simp add: fresh_root_def)
  show "map_of F (web_crate name @ ''/src/router.rs'') = Some (web_router_rs name)"
    "map_of F (web_crate name @ ''/src/controllers/mod.rs'') = Some controllers_mod_rs"
    by (simp_all add: F web_crate_def project_files_def)
  have "length (x @ ''_controller.rs'') \<noteq> length ''mod.rs''" by simp
  then have "x @ ''_controller.rs'' \<noteq> ''mod.rs''" by metis
  then show "map_of F (web_crate name @ ''/src/controllers/'' @ x @ ''_controller.rs'') = None"
    using old [of "''crates/'' @ name @ ''_web/src/controllers/'' @ x @ ''_controller.rs''"]
    by (simp add: F web_crate_def project_files_def map_add_def)
qed

lemma inject_module_new:
  assumes "map_of (pf_files fs) p = Some (text_lines [''// mahalo:modules''])" and "\<forall>q. \<not> pf_fails fs q"
    and "dir_exists (path_parent p) fs" and "p \<notin> set (pf_dirs fs)"
  shows "inject_module p m fs =
    (Ok (), fs\<lparr>pf_files := AList.update p (text_lines [''// mahalo:modules'', ''pub mod '' @ m @ '';'']) (pf_files fs)\<rparr>)"
proof -
  let ?old = "text_lines [''// mahalo:modules'']"
  have "CHR ''p'' \<notin> set ?old" by (simp add: text_lines_def)
  then have no: "\<not> str_contains ?old (''pub mod '' @ m @ '';'')" by (auto dest: str_contains_subset)
  have yes: "str_contains ?old ''// mahalo:modules''" by code_simp
  have new: "replace_first ''// mahalo:modules'' (''// mahalo:modules'' @ nl # r) ?old = text_lines [''// mahalo:modules'', r]" for r
    by (simp add: text_lines_def starts_with_def)
  show ?thesis
    using assms no yes by (simp add: inject_module_def cmd_bind_def fs_read_to_string_def Let_def fs_write_def new [simplified]
        del: str_contains.simps replace_first.simps)
qed

text \<open>The lines of the generated router, around its two markers.\<close>

definition router_head :: "string list" where
  "router_head =
     [''use std::sync::Arc;'', [], ''use mahalo::{Conn, MahaloRouter, plug_fn};'', ''use http::StatusCode;'']"

definition router_body :: "string list" where
  \<open>router_body =
     [[], ''pub fn build_router() -> MahaloRouter {'', ''    MahaloRouter::new()'',
      ''        .get("/health", plug_fn(health))'']\<close>

definition router_tail :: "string list" where
  \<open>router_tail =
     [''}'', [], ''async fn health(conn: Conn) -> Conn {'', ''    conn.put_status(StatusCode::OK)'',
      ''        .put_resp_body("ok")'', ''}'']\<close>

lemma web_router_rs_lines:
  "web_router_rs name = text_lines (router_head @ ''// mahalo:imports'' # router_body @ ''        // mahalo:routes'' # router_tail)"
  by (simp add: web_router_rs_def router_head_def router_body_def router_tail_def)

lemma router_markers:
  "\<forall>l \<in> set router_head. \<not> str_contains l ''// mahalo:imports''"
  "\<forall>l \<in> set router_head. \<not> str_contains l ''// mahalo:routes''"
  "\<forall>l \<in> set router_body. \<not> str_contains l ''// mahalo:routes''"
  "str_contains ''// mahalo:imports'' ''// mahalo:imports''" "\<not> str_contains ''// mahalo:imports'' ''// mahalo:routes''"
  "str_contains ''        // mahalo:routes'' ''// mahalo:routes''"
  "\<forall>l \<in> set (router_head @ ''// mahalo:imports'' # router_body @ ''        // mahalo:routes'' # router_tail).
     \<not> str_contains l ''_controller''"
  by code_simp+

lemma router_replace:
  assumes "slash \<notin> set import_ln"
  shows "replace_first ''// mahalo:routes'' (''// mahalo:routes'' @ nl # route_ln)
      (replace_first ''// mahalo:imports'' (''// mahalo:imports'' @ nl # import_ln) (web_router_rs name)) =
    text_lines (router_head @ [''// mahalo:imports'', import_ln] @ router_body @ [''        // mahalo:routes'', route_ln] @ router_tail)"
proof -
  have m: "nl \<notin> set ''// mahalo:imports''" "''// mahalo:imports'' \<noteq> []"
    "nl \<notin> set ''// mahalo:routes''" "''// mahalo:routes'' \<noteq> []" by simp_all
  have l1: "replace_first ''// mahalo:imports'' (''// mahalo:imports'' @ nl # import_ln) ''// mahalo:imports'' = ''// mahalo:imports'' @ nl # import_ln"
    by (simp add: starts_with_def)
  have l2: "replace_first ''// mahalo:routes'' (''// mahalo:routes'' @ nl # route_ln) ''        // mahalo:routes'' = ''        // mahalo:routes'' @ nl # route_ln"
    by (simp add: starts_with_def)
  have no: "\<not> str_contains import_ln ''// mahalo:routes''" using assms by (auto dest!: str_contains_subset)
  have first: "replace_first ''// mahalo:imports'' (''// mahalo:imports'' @ nl # import_ln) (web_router_rs name) =
      text_lines ((router_head @ [''// mahalo:imports'', import_ln] @ router_body) @ ''        // mahalo:routes'' # router_tail)"
    unfolding web_router_rs_lines replace_first_text_lines [OF m(1,2) router_markers(1,4)] l1
    by (simp add: text_lines_append text_lines_Cons)
  have none: "\<forall>l \<in> set (router_head @ [''// mahalo:imports'', import_ln] @ router_body). \<not> str_contains l ''// mahalo:routes''"
    using router_markers(2,3,5) no by auto
  show ?thesis
    unfolding first replace_first_text_lines [OF m(3,4) none router_markers(6)] l2
    by (simp add: text_lines_append text_lines_Cons)
qed

lemma inject_router_new:
  assumes "map_of (pf_files fs) p = Some (web_router_rs name)" and "\<forall>q. \<not> pf_fails fs q"
    and "dir_exists (path_parent p) fs" and "p \<notin> set (pf_dirs fs)" and "slash \<notin> set import_ln"
  shows "inject_router p import_ln route_ln snake fs =
    (Ok (), fs\<lparr>pf_files := AList.update p
       (text_lines (router_head @ [''// mahalo:imports'', import_ln] @ router_body @ [''        // mahalo:routes'', route_ln] @ router_tail))
       (pf_files fs)\<rparr>)"
proof -
  have c: "\<not> str_contains (web_router_rs name) (snake @ ''_controller'')"
  proof
    assume "str_contains (web_router_rs name) (snake @ ''_controller'')"
    then have "str_contains (web_router_rs name) ''_controller''" by (rule str_contains_suffix)
    then show False unfolding web_router_rs_lines using router_markers(7)
      by (subst (asm) str_contains_text_lines) auto
  qed
  have m: "str_contains (web_router_rs name) ''// mahalo:imports''" "str_contains (web_router_rs name) ''// mahalo:routes''"
    unfolding web_router_rs_lines using router_markers(4,6) by (subst str_contains_text_lines; auto)+
  show ?thesis
    using assms c m router_replace [OF assms(5), simplified]
    by (simp add: inject_router_def cmd_bind_def fs_read_to_string_def Let_def fs_write_def
        del: str_contains.simps replace_first.simps)
qed

section \<open>Generating into a new project\<close>

text \<open>What the steps of \<open>gen_resource\<close> find in a new project.\<close>

lemma web_paths:
  "path_join (web_crate name) ''src/controllers/mod.rs'' = web_crate name @ ''/src/controllers/mod.rs''"
  "path_join (web_crate name) ''src/router.rs'' = web_crate name @ ''/src/router.rs''"
  "controller_path (web_crate name) snake = web_crate name @ ''/src/controllers/'' @ snake @ ''_controller.rs''"
  using web_crate_join [of "''src/controllers/mod.rs''"] web_crate_join [of "''src/router.rs''"]
    web_crate_join [of "''src/controllers/'' @ snake @ ''_controller.rs''"]
  by (simp_all add: controller_path_def is_absolute_def starts_with_def)

lemma web_parents:
  "path_parent (web_crate name @ ''/src/router.rs'') = web_crate name @ ''/src''"
  "path_parent (web_crate name @ ''/src/controllers/mod.rs'') = web_crate name @ ''/src/controllers''"
  "slash \<notin> set x \<Longrightarrow> path_parent (web_crate name @ ''/src/controllers/'' @ x @ ''_controller.rs'') = web_crate name @ ''/src/controllers''"
  using path_parent_base [of "''router.rs''" "web_crate name @ ''/src''"]
    path_parent_base [of "''mod.rs''" "web_crate name @ ''/src/controllers''"]
    path_parent_base [of "x @ ''_controller.rs''" "web_crate name @ ''/src/controllers''"]
  by simp_all

lemma web_dirs:
  assumes "fresh_root name fs" and "set D = set (pf_dirs fs) \<union> project_dir_set name"
  shows "web_crate name @ ''/src'' \<in> set D" and "web_crate name @ ''/src/controllers'' \<in> set D"
    and "web_crate name @ ''/src/router.rs'' \<notin> set D" and "web_crate name @ ''/src/controllers/mod.rs'' \<notin> set D"
    and "web_crate name @ ''/src/controllers/'' @ x @ ''_controller.rs'' \<notin> set D"
proof -
  have old: "web_crate name @ p \<notin> set (pf_dirs fs)" for p
    using assms(1) by (auto simp: fresh_root_def web_crate_def)
  show "web_crate name @ ''/src'' \<in> set D" "web_crate name @ ''/src/controllers'' \<in> set D"
    "web_crate name @ ''/src/router.rs'' \<notin> set D" "web_crate name @ ''/src/controllers/mod.rs'' \<notin> set D"
    "web_crate name @ ''/src/controllers/'' @ x @ ''_controller.rs'' \<notin> set D"
    using old [of "''/src/router.rs''"] old [of "''/src/controllers/mod.rs''"]
      old [of "''/src/controllers/'' @ x @ ''_controller.rs''"] assms(2)
    by (simp_all add: project_dir_set_def Let_def web_crate_def)
qed

lemma create_file_new:
  assumes "map_of (pf_files fs) p = None" and "\<forall>q. \<not> pf_fails fs q" and "dir_exists (path_parent p) fs" and "p \<notin> set (pf_dirs fs)"
  shows "create_file p c fs = (Ok (), fs\<lparr>pf_files := AList.update p c (pf_files fs)\<rparr>)"
  using assms by (simp add: create_file_def fs_exists_def fs_write_def)

lemma import_line_no_slash: "slash \<notin> set snake \<Longrightarrow> slash \<notin> set pascal \<Longrightarrow> slash \<notin> set (import_line snake pascal)"
  by (simp add: import_line_def)

lemma gen_resource_new:
  assumes "project_name name" and "fresh_root name fs" and "\<And>xs. set (ord xs) = set xs"
    and r: "normalize_name r = (snake, pascal)" and "slash \<notin> set snake" and "slash \<notin> set pascal"
    and D: "set D = set (pf_dirs fs) \<union> project_dir_set name"
    and F: "map_of F = map_of (pf_files fs) ++ map_of (rev (map (\<lambda>(p, c). (name @ slash # p, c)) (project_files name)))"
  shows "\<exists>G. gen_resource ord name r (fs\<lparr>pf_dirs := D, pf_files := F\<rparr>) = (Ok (), fs\<lparr>pf_dirs := D, pf_files := G\<rparr>)
    \<and> map_of G = (map_of F)
        (web_crate name @ ''/src/controllers/'' @ snake @ ''_controller.rs'' \<mapsto> controller_file pascal,
         web_crate name @ ''/src/controllers/mod.rs'' \<mapsto> text_lines [''// mahalo:modules'', ''pub mod '' @ snake @ ''_controller;''],
         web_crate name @ ''/src/router.rs'' \<mapsto>
           text_lines (router_head @ [''// mahalo:imports'', import_line snake pascal] @ router_body
             @ [''        // mahalo:routes'', route_line (pluralize snake) pascal] @ router_tail))"
proof -
  let ?P = "web_crate name @ ''/src/controllers/'' @ snake @ ''_controller.rs''"
  let ?M = "web_crate name @ ''/src/controllers/mod.rs''"
  let ?R = "web_crate name @ ''/src/router.rs''"
  let ?F1 = "AList.update ?P (controller_file pascal) F"
  let ?F2 = "AList.update ?M (text_lines [''// mahalo:modules'', ''pub mod '' @ (snake @ ''_controller'') @ '';'']) ?F1"
  let ?fs = "\<lambda>G. fs\<lparr>pf_dirs := D, pf_files := G\<rparr>"
  note look = project_lookups [OF assms(2) F] and dirs = web_dirs [OF assms(2) D]
  have nofail: "\<forall>q. \<not> pf_fails (?fs G) q" for G using assms(2) by (simp add: fresh_root_def)
  have parents: "dir_exists (path_parent ?P) (?fs G)" "dir_exists (path_parent ?M) (?fs G)" "dir_exists (path_parent ?R) (?fs G)" for G
    unfolding web_parents(1,2) web_parents(3) [OF assms(5)] using dirs by (simp_all add: dir_exists_def)
  have ne: "?R \<noteq> ?P" "?R \<noteq> ?M" "?M \<noteq> ?P" using dirs look(2) look(3) [OF assms(5)] by auto
  have web: "find_web_crate ord name (?fs F) = (Ok (web_crate name), ?fs F)"
    using D nofail by (intro find_web_crate_ok [OF assms(1-3)]) simp_all
  have c: "create_file ?P (controller_file pascal) (?fs F) = (Ok (), ?fs ?F1)"
    using create_file_new [of "?fs F" ?P] look(3) [OF assms(5)] nofail parents dirs(5) by simp
  have m: "inject_module ?M (snake @ ''_controller'') (?fs ?F1) = (Ok (), ?fs ?F2)"
    using inject_module_new [of "?fs ?F1" ?M "snake @ ''_controller''"] look(2) ne(3) nofail parents dirs(4)
    by (simp add: update_conv' controllers_mod_rs_def)
  have i: "inject_router ?R (import_line snake pascal) rl snake (?fs ?F2) = (Ok (), ?fs (AList.update ?R
      (text_lines (router_head @ [''// mahalo:imports'', import_line snake pascal] @ router_body
        @ [''        // mahalo:routes'', rl] @ router_tail)) ?F2))" for rl
    using inject_router_new [of "?fs ?F2" ?R name "import_line snake pascal" rl snake] look(1) ne nofail parents dirs(3)
      import_line_no_slash [OF assms(5,6)]
    by (simp add: update_conv')
  let ?F3 = "AList.update ?R (text_lines (router_head @ [''// mahalo:imports'', import_line snake pascal] @ router_body
        @ [''        // mahalo:routes'', route_line (pluralize snake) pascal] @ router_tail)) ?F2"
  have "gen_resource ord name r (?fs F) = (Ok (), ?fs ?F3)"
    unfolding gen_resource_def r prod.case cmd_bind_def web result.case web_paths c m i ..
  then show ?thesis by (intro exI [of _ ?F3] conjI) (simp_all only: update_conv' append.assoc append.simps)
qed

section \<open>What the generated text means\<close>

text \<open>The scope that the injected route line builds.\<close>

definition generated_scope :: "string \<Rightarrow> ('h, 'z) controller \<Rightarrow> ('h, 'z, 'r) mahalo_router \<Rightarrow> ('h, 'z, 'r) mahalo_router" where
  "generated_scope plural ctl r = router_scope (slash # plural) [] (\<lambda>s. sb_resources (slash # plural) ctl s) r"

text \<open>A resource whose name is the end of another resource's name is not routed: the router that
  already mentions \<open>blog_post_controller\<close> is taken to have the route of \<open>post\<close>.\<close>

lemma inject_router_skips_suffix:
  assumes "map_of (pf_files fs) p = Some content" and "\<not> pf_fails fs p"
    and "str_contains content (other @ snake @ ''_controller'')"
  shows "inject_router p import_ln route_ln snake fs = (Ok (), fs)"
  using assms str_contains_suffix [OF assms(3)]
  by (simp add: inject_router_def cmd_bind_def fs_read_to_string_def cmd_return_def del: str_contains.simps)

text \<open>The generated \<open>main.rs\<close> imports the router from a crate of the project's own name, while the
  manifest beside it declares the crate with the suffix \<open>_web\<close>.\<close>

lemma main_rs_imports_wrong_crate:
  assumes "CHR ''-'' \<notin> set name" and "nl \<notin> set name"
  shows "\<exists>pre post. app_main_rs name = text_lines (pre @ (''use '' @ name @ ''::router::build_router;'') # post)"
    and "\<exists>pre post. app_cargo_toml name =
      text_lines (pre @ (name @ ''_web = { path = \"../'' @ name @ ''_web\" }'') # post)"
proof -
  have n: "replace_char (CHR ''-'') (CHR ''_'') name = name"
    using assms(1) by (auto simp: replace_char_def intro!: map_idI)
  have split: "\<exists>pre post. text_lines ls = text_lines (pre @ l # post)" if "l \<in> set ls" for l ls
    using that by (metis split_list)
  show "\<exists>pre post. app_main_rs name = text_lines (pre @ (''use '' @ name @ ''::router::build_router;'') # post)"
    unfolding app_main_rs_def Let_def n by (rule split) simp
  show "\<exists>pre post. app_cargo_toml name =
      text_lines (pre @ (name @ ''_web = { path = \"../'' @ name @ ''_web\" }'') # post)"
    unfolding app_cargo_toml_def by (rule split) simp
qed

section \<open>Properties\<close>

text \<open>C37: The generators work on the projects that the tool creates. In a place where nothing of that
  name exists, \<open>new\<close> succeeds; \<open>generate resource\<close> in the new project then succeeds, writes the
  controller, declares its module and puts the import and the route behind the markers of the
  generated router; and a second \<open>generate resource\<close> of that name fails and changes nothing. The
  project name must not end in \<open>_web\<close>.\<close>

theorem new_project_takes_resource:
  assumes "project_name name" and "fresh_root name fs" and "\<And>xs. set (ord xs) = set xs"
    and "normalize_name r = (snake, pascal)" and "slash \<notin> set snake" and "slash \<notin> set pascal"
  shows "\<exists>fs1 fs2. cli_main ord [] (New name) fs = (0, fs1) \<and> cli_main ord name (GenerateResource r) fs1 = (0, fs2)
    \<and> map_of (pf_files fs2) (name @ ''/crates/'' @ name @ ''_web/src/controllers/'' @ snake @ ''_controller.rs'')
        = Some (controller_file pascal)
    \<and> map_of (pf_files fs2) (name @ ''/crates/'' @ name @ ''_web/src/controllers/mod.rs'')
        = Some (text_lines [''// mahalo:modules'', ''pub mod '' @ snake @ ''_controller;''])
    \<and> map_of (pf_files fs2) (name @ ''/crates/'' @ name @ ''_web/src/router.rs'')
        = Some (text_lines (router_head @ [''// mahalo:imports'', import_line snake pascal] @ router_body
            @ [''        // mahalo:routes'', route_line (pluralize snake) pascal] @ router_tail))
    \<and> cli_main ord name (GenerateResource r) fs2 = (1, fs2)"
proof -
  have name: "canonical_segment name" using assms(1) by (simp add: project_name_def)
  obtain D F where new: "new_run [] name fs = (Ok (), fs\<lparr>pf_dirs := D, pf_files := F\<rparr>)"
    and D: "set D = set (pf_dirs fs) \<union> project_dir_set name"
    and F: "map_of F = map_of (pf_files fs) ++ map_of (rev (map (\<lambda>(p, c). (name @ slash # p, c)) (project_files name)))"
    using new_run_ok [OF name assms(2)] by blast
  let ?P = "web_crate name @ ''/src/controllers/'' @ snake @ ''_controller.rs''"
  let ?M = "web_crate name @ ''/src/controllers/mod.rs''"
  let ?R = "web_crate name @ ''/src/router.rs''"
  obtain G where gen: "gen_resource ord name r (fs\<lparr>pf_dirs := D, pf_files := F\<rparr>) = (Ok (), fs\<lparr>pf_dirs := D, pf_files := G\<rparr>)"
    and G: "map_of G = (map_of F)(?P \<mapsto> controller_file pascal,
        ?M \<mapsto> text_lines [''// mahalo:modules'', ''pub mod '' @ snake @ ''_controller;''],
        ?R \<mapsto> text_lines (router_head @ [''// mahalo:imports'', import_line snake pascal] @ router_body
             @ [''        // mahalo:routes'', route_line (pluralize snake) pascal] @ router_tail))"
    using gen_resource_new [OF assms D F] by blast
  let ?fs2 = "fs\<lparr>pf_dirs := D, pf_files := G\<rparr>"
  have look: "map_of F ?P = None" "map_of F ?M = Some controllers_mod_rs" "map_of F ?R = Some (web_router_rs name)"
    using project_lookups [OF assms(2) F] assms(5) by blast+
  have ne: "?P \<noteq> ?M" "?P \<noteq> ?R" "?M \<noteq> ?R" using look by auto
  have files: "map_of G ?P = Some (controller_file pascal)"
    "map_of G ?M = Some (text_lines [''// mahalo:modules'', ''pub mod '' @ snake @ ''_controller;''])"
    "map_of G ?R = Some (text_lines (router_head @ [''// mahalo:imports'', import_line snake pascal] @ router_body
       @ [''        // mahalo:routes'', route_line (pluralize snake) pascal] @ router_tail))"
    unfolding G using ne by (simp_all only: fun_upd_apply if_True if_False simp_thms)
  have web: "find_web_crate ord name ?fs2 = (Ok (web_crate name), ?fs2)"
    using D assms(2) by (intro find_web_crate_ok [OF assms(1-3)]) (simp_all add: fresh_root_def)
  have "create_file ?P c ?fs2 = (Err (AlreadyExists ?P), ?fs2)" for c
    using files(1) by (simp add: create_file_def fs_exists_def)
  then have again: "gen_resource ord name r ?fs2 = (Err (AlreadyExists ?P), ?fs2)"
    unfolding gen_resource_def assms(4) prod.case cmd_bind_def web result.case web_paths by (simp only: prod.case result.case)
  show ?thesis
    using new gen again files unfolding web_crate_def
    by (intro exI [of _ "fs\<lparr>pf_dirs := D, pf_files := F\<rparr>"] exI [of _ ?fs2]) (simp add: cli_main_def)
qed

theorem new_project_takes_resource_witness:
  "\<exists>fs1 fs2. cli_main (\<lambda>xs. xs) [] (New ''shop'') \<lparr>pf_dirs = [''other''], pf_files = [], pf_fails = (\<lambda>_. False)\<rparr> = (0, fs1)
     \<and> cli_main (\<lambda>xs. xs) ''shop'' (GenerateResource ''post'') fs1 = (0, fs2)
     \<and> cli_main (\<lambda>xs. xs) ''shop'' (GenerateResource ''post'') fs2 = (1, fs2)"
proof -
  have name: "project_name ''shop''" by code_simp
  have fresh: "fresh_root ''shop'' \<lparr>pf_dirs = [''other''], pf_files = [], pf_fails = (\<lambda>_. False)\<rparr>"
    by (simp add: fresh_root_def below_def starts_with_def)
  have r: "normalize_name ''post'' = (''post'', ''Post'')" by code_simp
  from new_project_takes_resource [OF name fresh _ r, of "\<lambda>xs. xs"] show ?thesis by auto
qed

text \<open>A generated resource is not served where the tool says. The route line puts the plural both into
  the scope and into \<open>resources\<close>, so the five routes are registered under the doubled path
  \<open>/posts/posts\<close>, and none of them under \<open>/posts\<close>.\<close>

theorem generated_resource_doubles_path:
  assumes "slash \<notin> set snake" and "plural = pluralize snake"
  shows "\<exists>rts. mr_routes (generated_scope plural ctl r) = mr_routes r @ rts \<and>
     map (\<lambda>rt. (rt_method rt, rt_segments rt)) rts =
       [(GET, [plural, plural]), (GET, [plural, plural, '':id'']), (POST, [plural, plural]),
        (PUT, [plural, plural, '':id'']), (DELETE, [plural, plural, '':id''])]
     \<and> (\<forall>rt \<in> set rts. rt_segments rt \<noteq> [plural] \<and> rt_segments rt \<noteq> [plural, '':id''])"
proof -
  have p: "plural \<noteq> []" "slash \<notin> set plural" "plural \<noteq> '':id''"
    using assms by (auto simp: pluralize_def append_eq_Cons_conv)
  let ?sb = "scope_builder_new (normalize_prefix (slash # plural)) (parse_segments (slash # plural)) [] :: ('a, 'b) scope_builder"
  let ?rts = "sb_routes (sb_resources (slash # plural) ctl ?sb)"
  have seg: "parse_segments (slash # plural) = [plural]" using p parse_segments_plain [of plural] by simp
  have seg_id: "parse_segments (slash # plural @ ''/:id'') = [plural, '':id'']"
    using parse_segments_append [of "slash # plural" "'':id''"] parse_segments_plain [of "'':id''"] seg by simp
  have segs: "map (\<lambda>rt. (rt_method rt, rt_segments rt)) ?rts =
       [(GET, [plural, plural]), (GET, [plural, plural, '':id'']), (POST, [plural, plural]),
        (PUT, [plural, plural, '':id'']), (DELETE, [plural, plural, '':id''])]"
    using seg seg_id by (simp add: sb_resources_def sb_add_named_route_def Let_def scope_builder_new_def)
  have "map rt_segments ?rts = map snd (map (\<lambda>rt. (rt_method rt, rt_segments rt)) ?rts)" by simp
  then have "set (map rt_segments ?rts) \<subseteq> {[plural, plural], [plural, plural, '':id'']}" unfolding segs by simp
  then have "\<forall>rt \<in> set ?rts. rt_segments rt \<in> {[plural, plural], [plural, plural, '':id'']}" unfolding set_map by blast
  with segs p(3) show ?thesis
    by (intro exI [of _ ?rts]) (auto simp: generated_scope_def router_scope_def Let_def)
qed

theorem generated_resource_doubles_path_witness:
  "\<exists>rts. mr_routes (generated_scope ''posts'' default_controller demo_router) = mr_routes demo_router @ rts
     \<and> map rt_segments rts ! 0 = [''posts'', ''posts'']"
proof -
  obtain rts where "mr_routes (generated_scope ''posts'' default_controller demo_router) = mr_routes demo_router @ rts"
    and segs: "map (\<lambda>rt. (rt_method rt, rt_segments rt)) rts =
       [(GET, [''posts'', ''posts'']), (GET, [''posts'', ''posts'', '':id'']), (POST, [''posts'', ''posts'']),
        (PUT, [''posts'', ''posts'', '':id'']), (DELETE, [''posts'', ''posts'', '':id''])]"
    using generated_resource_doubles_path [of "''post''" "''posts''" default_controller demo_router]
    by (auto simp: pluralize_def)
  moreover have "map rt_segments rts = map snd (map (\<lambda>rt. (rt_method rt, rt_segments rt)) rts)" by simp
  then have "map rt_segments rts ! 0 = [''posts'', ''posts'']" unfolding segs by simp
  ultimately show ?thesis by blast
qed

end
