(* ===== verification/Shop_Data.thy ===== *)
theory Shop_Data
  imports Mahalo_Channel
begin

text \<open>
  The data of the ice cream store, \<open>mahalo-test-app/src/main.rs\<close>: its structs, the seed data,
  the helpers that read request JSON and format prices, the chat responder and the error page.

  A \<open>u64\<close> is a 64-bit word. Prices are formatted through \<open>f64\<close>, whose rounding is
  written out: \<open>f64_ratio\<close> is the nearest double to a ratio of integers, ties to even, in the
  range the code can reach. The accessors of \<open>serde_json::Value\<close> are those of its documented
  variants. \<open>str::to_lowercase\<close> follows the Unicode tables and is an argument.
\<close>

section \<open>Data models\<close>

type_synonym u64 = "64 word"

record flavor =
  fv_id :: u64
  fv_name :: string
  fv_summary :: string
  fv_description :: string
  fv_price_cents :: u64
  fv_in_stock :: bool

record order_item =
  oi_scoop_flavors :: "u64 list"
  oi_vessel :: string
  oi_toppings :: "string list"

record order =
  od_id :: u64
  od_customer_name :: string
  od_items :: "order_item list"
  od_status :: string
  od_created_at :: string

record topping =
  tp_name :: string
  tp_price_cents :: u64

record special =
  sp_name :: string
  sp_description :: string
  sp_days :: string

section \<open>JSON values\<close>

text \<open>Indexing with a string gives null when there is no such member.\<close>

definition json_index :: "json \<Rightarrow> string \<Rightarrow> json" where
  "json_index v k = (case v of JObj ms \<Rightarrow> (case map_of ms k of Some x \<Rightarrow> x | None \<Rightarrow> JNull) | _ \<Rightarrow> JNull)"

definition as_str :: "json \<Rightarrow> string option" where
  "as_str v = (case v of JStr s \<Rightarrow> Some s | _ \<Rightarrow> None)"

definition as_bool :: "json \<Rightarrow> bool option" where
  "as_bool v = (case v of JBool b \<Rightarrow> Some b | _ \<Rightarrow> None)"

definition as_u64 :: "json \<Rightarrow> u64 option" where
  "as_u64 v = (case v of JNum n \<Rightarrow> if 0 \<le> n \<and> n < 2 ^ 64 then Some (word_of_int n) else None | _ \<Rightarrow> None)"

definition as_array :: "json \<Rightarrow> json list option" where
  "as_array v = (case v of JArr vs \<Rightarrow> Some vs | _ \<Rightarrow> None)"

definition unwrap_or :: "'a option \<Rightarrow> 'a \<Rightarrow> 'a" where
  "unwrap_or x d = (case x of Some y \<Rightarrow> y | None \<Rightarrow> d)"

text \<open>The derived \<open>Serialize\<close> instances.\<close>

definition json_u64 :: "u64 \<Rightarrow> json" where
  "json_u64 n = JNum (uint n)"

definition flavor_to_json :: "flavor \<Rightarrow> json" where
  "flavor_to_json f =
     JObj [(''id'', json_u64 (fv_id f)), (''name'', JStr (fv_name f)), (''summary'', JStr (fv_summary f)),
       (''description'', JStr (fv_description f)), (''price_cents'', json_u64 (fv_price_cents f)),
       (''in_stock'', JBool (fv_in_stock f))]"

definition order_item_to_json :: "order_item \<Rightarrow> json" where
  "order_item_to_json i =
     JObj [(''scoop_flavors'', JArr (map json_u64 (oi_scoop_flavors i))), (''vessel'', JStr (oi_vessel i)),
       (''toppings'', JArr (map JStr (oi_toppings i)))]"

definition order_to_json :: "order \<Rightarrow> json" where
  "order_to_json d =
     JObj [(''id'', json_u64 (od_id d)), (''customer_name'', JStr (od_customer_name d)),
       (''items'', JArr (map order_item_to_json (od_items d))), (''status'', JStr (od_status d)),
       (''created_at'', JStr (od_created_at d))]"

section \<open>Helpers\<close>

text \<open>\<open>str::parse::<u64>\<close> has the syntax and the range of \<open>usize\<close>.\<close>

definition parse_u64 :: "string \<Rightarrow> u64 option" where
  "parse_u64 s = map_option word_of_nat (parse_usize s)"

definition parse_id_param :: "('h, 'z) conn_scheme \<Rightarrow> u64" where
  "parse_id_param c = unwrap_or (Option.bind (path_param c ''id'') parse_u64) 0"

definition parse_order_id :: "string \<Rightarrow> u64" where
  "parse_order_id topic = unwrap_or (Option.bind (strip_prefix ''order:'' topic) parse_u64) 0"

text \<open>The clock, in nanoseconds since the epoch; \<open>duration_since\<close> fails before it.\<close>

definition chrono_now :: "int \<Rightarrow> string option" where
  "chrono_now now = (if now < 0 then None else Some (nat_to_string (nat now div 10 ^ 9) @ ''s''))"

definition MAX_SCOOPS :: nat where "MAX_SCOOPS = 3"

definition parse_order_item :: "json \<Rightarrow> order_item option" where
  "parse_order_item item =
     (let scoop_flavors = unwrap_or (map_option (List.map_filter as_u64) (as_array (json_index item ''scoop_flavors''))) []
      in if scoop_flavors = [] then None
         else Some
           \<lparr>oi_scoop_flavors = take MAX_SCOOPS scoop_flavors,
            oi_vessel = (if as_str (json_index item ''vessel'') = Some ''cone'' then ''cone'' else ''cup''),
            oi_toppings = unwrap_or (map_option (List.map_filter as_str) (as_array (json_index item ''toppings''))) []\<rparr>)"

subsection \<open>Prices\<close>

definition div_half_even :: "nat \<Rightarrow> nat \<Rightarrow> nat" where
  "div_half_even n d =
     (let q = n div d; r = n mod d
      in if 2 * r < d \<or> (2 * r = d \<and> even q) then q else Suc q)"

text \<open>The binary exponent of a positive ratio below \<open>2 ^ 53\<close>: how often it can be doubled.\<close>

function f64_shift :: "nat \<Rightarrow> nat \<Rightarrow> nat" where
  "f64_shift n d = (if 0 < n \<and> 2 * n < 2 ^ 53 * d then Suc (f64_shift (2 * n) d) else 0)"
  by auto
termination
  by (relation "measure (\<lambda>(n, d). 2 ^ 53 * d - n)") auto

text \<open>And how often one above must be halved.\<close>

function f64_unshift :: "nat \<Rightarrow> nat \<Rightarrow> nat" where
  "f64_unshift n d = (if 0 < d \<and> 2 ^ 53 * d \<le> n then Suc (f64_unshift n (2 * d)) else 0)"
  by auto
termination
  by (relation "measure (\<lambda>(n, d). n - d)") (auto simp: Suc_le_eq intro!: diff_less_mono2)

declare f64_shift.simps [simp del] f64_unshift.simps [simp del]

text \<open>The nearest double to \<open>n / d\<close>, as a fraction.\<close>

definition f64_ratio :: "nat \<Rightarrow> nat \<Rightarrow> nat \<times> nat" where
  "f64_ratio n d =
     (if n < 2 ^ 53 * d then (div_half_even (n * 2 ^ f64_shift n d) d, 2 ^ f64_shift n d)
      else (div_half_even n (d * 2 ^ f64_unshift n d) * 2 ^ f64_unshift n d, 1))"

text \<open>\<open>format!("${:.2}", cents as f64 / 100.0)\<close>: the exact decimal expansion, rounded half to
  even to two places.\<close>

definition format_price :: "u64 \<Rightarrow> string" where
  "format_price cents =
     (case f64_ratio (unat cents) 1 of (n, d) \<Rightarrow>
        (case f64_ratio n (100 * d) of (m, k) \<Rightarrow>
           let h = div_half_even (100 * m) k
           in ''$'' @ nat_to_string (h div 100) @ ''.'' @ [digit_char (h mod 100 div 10), digit_char (h mod 10)]))"

definition price_update_payload :: "u64 \<Rightarrow> string \<Rightarrow> u64 \<Rightarrow> json" where
  "price_update_payload flavor_id flavor_name price_cents =
     JObj [(''flavor_id'', json_u64 flavor_id), (''price'', JStr (format_price price_cents)),
       (''flavor_name'', JStr flavor_name)]"

definition format_flavor :: "flavor \<Rightarrow> json" where
  "format_flavor f =
     JObj [(''id'', json_u64 (fv_id f)), (''name'', JStr (fv_name f)), (''summary'', JStr (fv_summary f)),
       (''description'', JStr (fv_description f)), (''price'', JStr (format_price (fv_price_cents f))),
       (''in_stock'', JBool (fv_in_stock f))]"

section \<open>Seed data and texts\<close>

definition StoreData_new :: "flavor list \<times> order list" where
  \<open>StoreData_new =
    ([\<lparr>fv_id = 1, fv_name = ''Coconut Dream'', fv_summary = ''Creamy coconut with toasted flakes'',
       fv_description =
        ''We source our coconuts from a small grove in Moloa'' @ [CHR 0xE2, CHR 0x80, CHR 0x98]
        @ ''a on Kaua'' @ [CHR 0xE2, CHR 0x80, CHR 0x98] @ ''i'' @ [CHR 0xE2, CHR 0x80, CHR 0x99]
        @ ''s north shore, where the trees catch the trade winds rolling off Kalihiwai Ridge. ''
        @ ''The meat is hand-pressed the same morning it'' @ [CHR 0xE2, CHR 0x80, CHR 0x99]
        @ ''s picked, then slow-churned with a pinch of Hawaiian sea salt from Hanapepe. Each ''
        @ ''scoop is finished with toasted coconut flakes roasted low and slow at our shop in ''
        @ ''Kapa'' @ [CHR 0xE2, CHR 0x80, CHR 0x98] @ ''a'' @ [CHR 0xE2, CHR 0x80, CHR 0x94]
        @ ''crunchy, buttery, and impossible to stop eating.'',
       fv_price_cents = 450, fv_in_stock = True\<rparr>,
      \<lparr>fv_id = 2, fv_name = ''Pineapple Paradise'', fv_summary = ''Tangy pineapple sorbet'',
       fv_description =
        ''This bright, dairy-free sorbet starts with Sugarloaf pineapples grown on the red ''
        @ ''dirt hillsides above Po'' @ [CHR 0xE2, CHR 0x80, CHR 0x98] @ ''ip'' @ [CHR 0xC5, CHR 0xAB]
        @ ''. They'' @ [CHR 0xE2, CHR 0x80, CHR 0x99] @ ''re sweeter and less acidic than anything you''
        @ [CHR 0xE2, CHR 0x80, CHR 0x99]
        @ ''ll find on the mainland, with a floral perfume that hits you the second we crack ''
        @ ''one open. We juice them whole'' @ [CHR 0xE2, CHR 0x80, CHR 0x94] @ ''core and all''
        @ [CHR 0xE2, CHR 0x80, CHR 0x94]
        @ ''and freeze the base fast to lock in that just-picked tang. It tastes like standing ''
        @ ''barefoot in a Kaua'' @ [CHR 0xE2, CHR 0x80, CHR 0x98]
        @ ''i pineapple field with the sun on your shoulders.'',
       fv_price_cents = 400, fv_in_stock = True\<rparr>,
      \<lparr>fv_id = 3, fv_name = ''Passion Fruit Swirl'', fv_summary = ''Tart passion fruit with vanilla swirl'',
       fv_description =
        ''Liliko'' @ [CHR 0xE2, CHR 0x80, CHR 0x98]
        @ ''i vines grow wild along the fences and trailheads all over Kaua''
        @ [CHR 0xE2, CHR 0x80, CHR 0x98]
        @ ''i, and our neighbors in Kilauea drop off bags of ripe fruit at our back door every ''
        @ ''week. We strain the seeds out (mostly) and fold that electric-yellow pulp into a ''
        @ ''tart, custardy base. The vanilla swirl comes from real Tahitian vanilla beans''
        @ [CHR 0xE2, CHR 0x80, CHR 0x94] @ ''the same variety that thrives in Kaua''
        @ [CHR 0xE2, CHR 0x80, CHR 0x98] @ ''i'' @ [CHR 0xE2, CHR 0x80, CHR 0x99]
        @ ''s humid valleys. One bite and you'' @ [CHR 0xE2, CHR 0x80, CHR 0x99]
        @ ''ll taste the wild, untamed side of the Garden Isle.'',
       fv_price_cents = 500, fv_in_stock = True\<rparr>,
      \<lparr>fv_id = 4, fv_name = ''Guava Sunset'', fv_summary = ''Sweet guava with a hint of lime'',
       fv_description =
        ''Pink guava trees line the back roads from Wailua to Anahola, dropping fruit so ripe ''
        @ ''it perfumes the whole neighborhood. We collect ours from a family farm tucked ''
        @ ''behind Sleeping Giant, where the volcanic soil gives the fruit an almost candy-like ''
        @ ''sweetness. A squeeze of fresh lime from our own trees in Kapa''
        @ [CHR 0xE2, CHR 0x80, CHR 0x98]
        @ ''a cuts through the richness and keeps every spoonful bright. The color is a deep ''
        @ ''sunset pink'' @ [CHR 0xE2, CHR 0x80, CHR 0x94] @ ''no dye needed, just pure Kaua''
        @ [CHR 0xE2, CHR 0x80, CHR 0x98] @ ''i guava doing its thing.'',
       fv_price_cents = 475, fv_in_stock = True\<rparr>,
      \<lparr>fv_id = 5, fv_name = ''Mango Tango'', fv_summary = ''Rich mango with chili flakes'',
       fv_description =
        ''Every summer, the Hayden and Rapoza mango trees across Kaua'' @ [CHR 0xE2, CHR 0x80, CHR 0x98]
        @ ''i go absolutely wild, and we stockpile the best of the harvest from orchards along ''
        @ ''the Coconut Coast. The base is thick, almost chewy with real mango fiber''
        @ [CHR 0xE2, CHR 0x80, CHR 0x94]
        @ ''none of that thin, syrupy stuff. We finish each batch with a dusting of dried ''
        @ ''Hawaiian chili flakes from a small farm in Hanapepe Valley. The heat sneaks up on ''
        @ ''you after the sweetness fades, like the afternoon sun breaking through the clouds ''
        @ ''over Waimea Canyon.'',
       fv_price_cents = 450, fv_in_stock = True\<rparr>,
      \<lparr>fv_id = 6, fv_name = ''Lychee Blossom'', fv_summary = ''Delicate lychee with rose water'',
       fv_description =
        ''Kaua'' @ [CHR 0xE2, CHR 0x80, CHR 0x98] @ ''i'' @ [CHR 0xE2, CHR 0x80, CHR 0x99]
        @ ''s lychee season is short and frantic'' @ [CHR 0xE2, CHR 0x80, CHR 0x94]
        @ ''the trees around '' @ [CHR 0xE2, CHR 0x80, CHR 0x98, CHR 0xC5, CHR 0x8C]
        @ ''lelo and Kalaheo burst with fruit for just a few weeks in June, and everyone races ''
        @ ''to pick before the birds get them all. We peel and pit each one by hand, keeping ''
        @ ''that translucent, floral sweetness intact. A few drops of rose water made from ''
        @ ''Damask roses grown at a small botanical garden near Princeville give it an almost ''
        @ ''perfume-like elegance. This is our most delicate flavor, and regulars plan their ''
        @ ''visits around lychee season.'',
       fv_price_cents = 525, fv_in_stock = True\<rparr>,
      \<lparr>fv_id = 7, fv_name = ''Papaya Cream'', fv_summary = ''Smooth papaya with coconut cream'',
       fv_description =
        ''Sunrise papayas from the east side of Kaua'' @ [CHR 0xE2, CHR 0x80, CHR 0x98]
        @ ''i are the heart of this flavor'' @ [CHR 0xE2, CHR 0x80, CHR 0x94]
        @ ''smaller and sweeter than the big ones you see at the supermarket, with ''
        @ ''salmon-orange flesh that melts on your tongue. We blend them with rich coconut ''
        @ ''cream from the same Moloa'' @ [CHR 0xE2, CHR 0x80, CHR 0x98]
        @ ''a grove that supplies our Coconut Dream, creating something silky and tropical that ''
        @ ''tastes like breakfast on a lanai overlooking Kalapak'' @ [CHR 0xC4, CHR 0xAB]
        @ '' Bay. When it'' @ [CHR 0xE2, CHR 0x80, CHR 0x99] @ ''s in stock, it goes fast''
        @ [CHR 0xE2, CHR 0x80, CHR 0x94] @ ''so grab a scoop while you can.'',
       fv_price_cents = 450, fv_in_stock = False\<rparr>], [])\<close>

definition toppings_data :: "topping list" where
  "toppings_data =
    [\<lparr>tp_name = ''Macadamia Nuts'', tp_price_cents = 75\<rparr>,
     \<lparr>tp_name = ''Toasted Coconut'', tp_price_cents = 50\<rparr>,
     \<lparr>tp_name = ''Mochi Bits'', tp_price_cents = 100\<rparr>,
     \<lparr>tp_name = ''Li Hing Mui Powder'', tp_price_cents = 50\<rparr>,
     \<lparr>tp_name = ''Hot Fudge'', tp_price_cents = 75\<rparr>,
     \<lparr>tp_name = ''Passion Fruit Drizzle'', tp_price_cents = 75\<rparr>]"

definition specials_data :: "special list" where
  "specials_data =
    [\<lparr>sp_name = ''Mahalo Monday'', sp_description = ''Buy 2 scoops, get 1 free!'', sp_days = ''Monday''\<rparr>,
     \<lparr>sp_name = ''Tropical Thursday'', sp_description = ''All tropical flavors 20% off'', sp_days = ''Thursday''\<rparr>,
     \<lparr>sp_name = ''Aloha Hour'', sp_description = ''Half-price single scoops from 3-5pm daily'', sp_days = ''Every day''\<rparr>]"

definition respond :: "(string \<Rightarrow> string) \<Rightarrow> string \<Rightarrow> string" where
  \<open>respond to_lowercase message =
     (let msg = to_lowercase message in
      if str_contains msg ''hour'' \<or> str_contains msg ''open'' \<or> str_contains msg ''close''
      then [CHR 0xF0, CHR 0x9F, CHR 0x95, CHR 0x90]
        @ '' We're open Mon-Wed 10am-9pm, Thu 10am-10pm, Fri 10am-11pm, Sat 9am-11pm, Sun ''
        @ ''9am-8pm! '' @ [CHR 0xF0, CHR 0x9F, CHR 0x8C, CHR 0x9E]
      else if str_contains msg ''flavor'' \<or> str_contains msg ''menu''
      then [CHR 0xF0, CHR 0x9F, CHR 0x8D, CHR 0xA6]
        @ '' We have 7 amazing flavors! Check out /menu for the full list! ''
        @ [CHR 0xF0, CHR 0x9F, CHR 0x8C, CHR 0xB4]
      else if str_contains msg ''price'' \<or> str_contains msg ''cost''
      then [CHR 0xF0, CHR 0x9F, CHR 0x92, CHR 0xB0]
        @ '' Scoops range from $4.00 to $5.25! Check our specials for deals! ''
        @ [CHR 0xF0, CHR 0x9F, CHR 0x8E, CHR 0x89]
      else if str_contains msg ''special'' \<or> str_contains msg ''deal''
      then [CHR 0xF0, CHR 0x9F, CHR 0x8C, CHR 0x9F]
        @ '' Mahalo Monday: Buy 2 get 1 free! Tropical Thursday: 20% off! Aloha Hour: ''
        @ ''Half-price 3-5pm! '' @ [CHR 0xF0, CHR 0x9F, CHR 0x8E, CHR 0x89]
      else if str_contains msg ''order''
      then [CHR 0xF0, CHR 0x9F, CHR 0x9B, CHR 0x92]
        @ '' Head to /order to place your order! We'll get scooping right away! ''
        @ [CHR 0xF0, CHR 0x9F, CHR 0x8D, CHR 0xA8]
      else if str_contains msg ''thank'' \<or> str_contains msg ''mahalo''
      then [CHR 0xF0, CHR 0x9F, CHR 0xA4, CHR 0x99] @ '' Mahalo to YOU! Come back anytime! ''
        @ [CHR 0xF0, CHR 0x9F, CHR 0x8C, CHR 0xBA, CHR 0xE2, CHR 0x9C, CHR 0xA8]
      else if str_contains msg ''hello'' \<or> str_contains msg ''hi'' \<or> str_contains msg ''aloha''
      then [CHR 0xF0, CHR 0x9F, CHR 0x8C, CHR 0xBA]
        @ '' Aloha! Welcome to Mahalo Ice Cream! Ask me about flavors, hours, or specials! ''
        @ [CHR 0xF0, CHR 0x9F, CHR 0x8D, CHR 0xA6]
      else [CHR 0xF0, CHR 0x9F, CHR 0x8D, CHR 0xA6]
        @ '' Great question! Ask me about our flavors, hours, specials, or toppings! ''
        @ [CHR 0xF0, CHR 0x9F, CHR 0x8C, CHR 0xB4])\<close>

definition error_page :: "string \<Rightarrow> string" where
  \<open>error_page code =
     ''<!DOCTYPE html><html><head><title>'' @ code @
     '' - Mahalo Ice Cream</title>'' @ [CHR 0x0A]
     @ ''<link rel="stylesheet" href="/static/css/style.css"></head>'' @ [CHR 0x0A]
     @ ''<body><nav class="nav"><div class="nav-content"><a href="/" class="nav-logo">''
     @ [CHR 0xF0, CHR 0x9F, CHR 0x8D, CHR 0xA6] @ '' Mahalo Ice Cream</a>'' @ [CHR 0x0A]
     @ ''<div class="nav-links"><a href="/">'' @ [CHR 0xF0, CHR 0x9F, CHR 0x8F, CHR 0xA0]
     @ '' Home</a><a href="/menu">'' @ [CHR 0xF0, CHR 0x9F, CHR 0x93, CHR 0x8B]
     @ '' Menu</a><a href="/order">'' @ [CHR 0xF0, CHR 0x9F, CHR 0x9B, CHR 0x92]
     @ '' Order</a><a href="/about">'' @ [CHR 0xF0, CHR 0x9F, CHR 0x8C, CHR 0xBA]
     @ '' About</a></div></div></nav>'' @ [CHR 0x0A]
     @ ''<div class="container" style="text-align:center;padding:4rem 1rem">'' @ [CHR 0x0A]
     @ ''<h1>'' @ [CHR 0xF0, CHR 0x9F, CHR 0x8F, CHR 0x9D, CHR 0xEF, CHR 0xB8, CHR 0x8F] @ '' '' @ code @
     ''</h1><p>Oops! We couldn't find what you're looking for. ''
     @ [CHR 0xF0, CHR 0x9F, CHR 0x98, CHR 0x85] @ ''</p>'' @ [CHR 0x0A]
     @ ''<a href="/" class="btn">'' @ [CHR 0xF0, CHR 0x9F, CHR 0x8F, CHR 0xA0]
     @ '' Back to Home</a></div>'' @ [CHR 0x0A] @ ''<footer class="footer"><p>''
     @ [CHR 0xF0, CHR 0x9F, CHR 0x8C, CHR 0xB4] @ '' &copy; 2024 Mahalo Ice Cream Store ''
     @ [CHR 0xF0, CHR 0x9F, CHR 0x8C, CHR 0xB4] @ ''</p></footer></body></html>''\<close>

definition support_greeting :: "string \<Rightarrow> string" where
  "support_greeting customer = [CHR 0xF0, CHR 0x9F, CHR 0x8C, CHR 0xBA] @ '' Aloha '' @ customer @ ''! How can we help you today?''"

definition flavor_missing_page :: string where
  \<open>flavor_missing_page =
     ''<h1>'' @ [CHR 0xF0, CHR 0x9F, CHR 0x8D, CHR 0xA6]
     @ '' Flavor not found!</h1><p><a href="/menu">Back to Menu</a></p>''\<close>

definition format_specials :: "json list" where
  "format_specials =
     map (\<lambda>s. JObj [(''name'', JStr (sp_name s)), (''description'', JStr (sp_description s)),
       (''days'', JStr (sp_days s))]) specials_data"

definition format_toppings :: "json list" where
  "format_toppings =
     map (\<lambda>t. JObj [(''name'', JStr (tp_name t)), (''price'', JStr (format_price (tp_price_cents t)))]) toppings_data"

definition toppings_json :: json where
  "toppings_json =
     JObj [(''toppings'', JArr (map (\<lambda>t. JObj [(''name'', JStr (tp_name t)),
       (''price_cents'', json_u64 (tp_price_cents t))]) toppings_data))]"

definition specials_json :: json where
  "specials_json =
     JObj [(''specials'', JArr (map (\<lambda>s. JObj [(''name'', JStr (sp_name s)),
       (''description'', JStr (sp_description s)), (''days'', JArr [JStr (sp_days s)])]) specials_data))]"

section \<open>Rounding\<close>

lemma div_half_even_close:
  assumes "0 < d"
  shows "2 * (div_half_even n d * d) \<le> 2 * n + d \<and> 2 * n \<le> 2 * (div_half_even n d * d) + d"
proof -
  define q r where "q = n div d" and "r = n mod d"
  have "n = q * d + r" "r < d" using assms by (simp_all add: q_def r_def)
  then show ?thesis by (auto simp: div_half_even_def Let_def q_def [symmetric] r_def [symmetric])
qed

lemma div_half_even_exact:
  assumes "2 * n < 2 * (c * d) + d" and "2 * (c * d) < 2 * n + d"
  shows "div_half_even n d = c"
proof -
  let ?q = "div_half_even n d"
  have "0 < d" using assms by (cases d) auto
  from div_half_even_close [OF this, of n] assms have "?q * d < Suc c * d" "c * d < Suc ?q * d" by simp_all
  then have "?q < Suc c" "c < Suc ?q" by (meson mult_less_cancel2)+
  then show ?thesis by simp
qed

lemma f64_shift_bounds:
  assumes "0 < n" and "n < 2 ^ 53 * d"
  shows "n * 2 ^ f64_shift n d < 2 ^ 53 * d \<and> 2 ^ 53 * d \<le> 2 * n * 2 ^ f64_shift n d"
  using assms
proof (induction n d rule: f64_shift.induct)
  case (1 n d)
  show ?case
  proof (cases "2 * n < 2 ^ 53 * d")
    case True
    then have "f64_shift n d = Suc (f64_shift (2 * n) d)" using 1(2) by (subst f64_shift.simps) simp
    with 1 True show ?thesis by (simp add: mult_ac)
  next
    case False
    then have "f64_shift n d = 0" by (subst f64_shift.simps) simp
    with 1(3) False show ?thesis by simp
  qed
qed

lemma f64_ratio_int: "c < 2 ^ 53 \<Longrightarrow> \<exists>k. 0 < k \<and> f64_ratio c 1 = (c * k, k)"
  by (intro exI [of _ "2 ^ f64_shift c 1"]) (simp add: f64_ratio_def div_half_even_def)

text \<open>Below \<open>2 ^ 52\<close> cents the error of the division stays under half a cent.\<close>

lemma f64_price_exact:
  assumes "c < 2 ^ 52" and "0 < d" and "f64_ratio (c * d) (100 * d) = (m, k)"
  shows "div_half_even (100 * m) k = c"
proof (cases "c = 0")
  case True
  with assms show ?thesis by (auto simp: f64_ratio_def div_half_even_def)
next
  case False
  define s where "s = f64_shift (c * d) (100 * d)"
  have lt: "c * d < 2 ^ 53 * (100 * d)" using assms(1,2) by simp
  have "(div_half_even (c * d * 2 ^ s) (100 * d), 2 ^ s) = (m, k)"
    using assms(3) unfolding f64_ratio_def if_P [OF lt] s_def .
  then have mk: "m = div_half_even (c * d * 2 ^ s) (100 * d)" "k = 2 ^ s" by blast+
  have "2 ^ 53 * (100 * d) \<le> 2 * (c * d) * 2 ^ s"
    using f64_shift_bounds [OF _ lt] False assms(2) by (simp add: s_def)
  then have "2 ^ 53 * 100 \<le> 2 * c * 2 ^ s" using assms(2) by (simp add: mult_ac)
  also have "\<dots> < 2 ^ 53 * 2 ^ s" using assms(1) by simp
  finally have k: "100 < k" by (simp add: mk(2))
  have "2 * (m * (100 * d)) \<le> 2 * (c * d * k) + 100 * d" "2 * (c * d * k) \<le> 2 * (m * (100 * d)) + 100 * d"
    using div_half_even_close [of "100 * d" "c * d * k"] assms(2) by (simp_all add: mk)
  then have "(2 * (100 * m)) * d \<le> (2 * (c * k) + 100) * d" "(2 * (c * k)) * d \<le> (2 * (100 * m) + 100) * d"
    by (simp_all add: algebra_simps)
  then have "2 * (100 * m) \<le> 2 * (c * k) + 100" "2 * (c * k) \<le> 2 * (100 * m) + 100"
    using assms(2) by (simp_all only: mult_le_cancel2)
  with k show ?thesis by (intro div_half_even_exact) simp_all
qed

text \<open>C36: Prices are shown to the cent: although they are divided as floating-point numbers, every amount
  below \<open>2 ^ 52\<close> cents is printed as its dollars and its two digits of cents.\<close>

theorem format_price_exact:
  assumes "unat cents < 2 ^ 52"
  shows "format_price cents =
    ''$'' @ nat_to_string (unat cents div 100) @ ''.'' @
    [digit_char (unat cents mod 100 div 10), digit_char (unat cents mod 10)]"
proof -
  obtain d where d: "0 < d" "f64_ratio (unat cents) 1 = (unat cents * d, d)"
    using f64_ratio_int [of "unat cents"] assms by auto
  obtain m k where mk: "f64_ratio (unat cents * d) (100 * d) = (m, k)" by fastforce
  show ?thesis
    unfolding format_price_def d(2) prod.case mk using f64_price_exact [OF assms d(1) mk] by (simp add: Let_def)
qed

theorem format_price_exact_witness: "format_price 525 = ''$5.25''"
proof -
  have "format_price 525 = ''$'' @ nat_to_string 5 @ ''.'' @ [digit_char 2, digit_char 5]"
    using format_price_exact [of 525] by simp
  moreover have "''$'' @ nat_to_string 5 @ ''.'' @ [digit_char 2, digit_char 5] = ''$5.25''" by code_simp
  ultimately show ?thesis by (rule trans)
qed

end
