(* ===== verification/Shop_Http.thy ===== *)
theory Shop_Http
  imports Shop_Data Mahalo_Endpoint Mahalo_Telemetry Mahalo_Sse Static_Files
begin

text \<open>
  The HTTP side of the ice cream store, \<open>mahalo-test-app/src/main.rs\<close>: its controllers, pages,
  pipelines and router, and the endpoint they are served by. The state that the closures share, the
  two lists behind their mutexes, the PubSub handle, the telemetry of the worker and the event
  streams, is the extension of the connection record.

  The workspace builds its release profile with \<open>panic = "abort"\<close> and without overflow checks:
  arithmetic wraps, and a panic ends the process, which is the flag \<open>wc_aborted\<close>; a mutex is
  never found poisoned. JSON text, the template engine, the clock and the measured duration of a span
  are an environment.
\<close>

section \<open>State and environment\<close>

record shop_env =
  sh_from_slice :: "bytes \<Rightarrow> json option"
  sh_to_string :: "json \<Rightarrow> string"
  sh_tera :: "string \<Rightarrow> (string \<times> json) list \<Rightarrow> (string, string) result"
  sh_elapsed :: nat

record 'h web_conn = "'h conn" +
  wc_flavors :: "flavor list"
  wc_orders :: "order list"
  wc_pubsub :: "json server_queue"
  wc_telemetry :: "(nat, json) telemetry"
  wc_sse :: "string chans"
  wc_sse_next :: nat
  wc_streams :: "nat list"
  wc_now :: int
  wc_aborted :: bool

text \<open>The handlers of \<open>make_telemetry\<close> only log.\<close>

definition make_telemetry :: "(nat, json) telemetry" where
  "make_telemetry =
     (telemetry_new 512)\<lparr>tl_handlers := [(event_name [''mahalo''], 0), (event_name [''ice_cream''], 1)]\<rparr>"

definition emit :: "string list \<Rightarrow> (string \<rightharpoonup> json) \<Rightarrow> 'h web_conn \<Rightarrow> 'h web_conn" where
  "emit name meta c =
     (case execute 1 (\<lambda>_ _. []) (\<lambda>_. wc_now c div 10 ^ 6) name Map.empty meta (wc_telemetry c) of
        Ok t \<Rightarrow> c\<lparr>wc_telemetry := t\<rparr>
      | Err _ \<Rightarrow> c\<lparr>wc_aborted := True\<rparr>)"

definition respond_json :: "shop_env \<Rightarrow> u16 \<Rightarrow> json \<Rightarrow> 'h web_conn \<Rightarrow> 'h web_conn" where
  "respond_json E status v c = put_resp_body (as_bytes (sh_to_string E v)) (put_status status c)"

definition respond_text :: "u16 \<Rightarrow> string \<Rightarrow> 'h web_conn \<Rightarrow> 'h web_conn" where
  "respond_text status t c = put_resp_body (as_bytes t) (put_status status c)"

text \<open>\<open>iter().max().unwrap_or(0) + 1\<close>, wrapping.\<close>

definition next_id :: "u64 list \<Rightarrow> u64" where
  "next_id ids = fold max ids 0 + 1"

text \<open>\<open>iter_mut().find(p)\<close> and the update of what it finds.\<close>

fun update_first :: "('a \<Rightarrow> bool) \<Rightarrow> ('a \<Rightarrow> 'a) \<Rightarrow> 'a list \<Rightarrow> 'a list" where
  "update_first p f [] = []"
| "update_first p f (x # xs) = (if p x then f x # xs else x # update_first p f xs)"

section \<open>Controllers\<close>

definition invalid_json :: string where \<open>invalid_json = ''{"error":"invalid JSON"}''\<close>
definition flavor_not_found :: string where \<open>flavor_not_found = ''{"error":"flavor not found"}''\<close>
definition order_not_found :: string where \<open>order_not_found = ''{"error":"order not found"}''\<close>
definition deleted_true :: string where \<open>deleted_true = ''{"deleted":true}''\<close>

subsection \<open>Flavors\<close>

definition flavor_index :: "shop_env \<Rightarrow> 'h web_conn \<Rightarrow> 'h web_conn" where
  "flavor_index E c = respond_json E 200 (JArr (map flavor_to_json (wc_flavors c))) c"

definition flavor_show :: "shop_env \<Rightarrow> 'h web_conn \<Rightarrow> 'h web_conn" where
  "flavor_show E c =
     (case List.find (\<lambda>f. fv_id f = parse_id_param c) (wc_flavors c) of
        Some f \<Rightarrow> respond_json E 200 (flavor_to_json f) c
      | None \<Rightarrow> respond_text 404 flavor_not_found c)"

definition new_flavor :: "json \<Rightarrow> flavor list \<Rightarrow> flavor" where
  "new_flavor body flavors =
     \<lparr>fv_id = next_id (map fv_id flavors), fv_name = unwrap_or (as_str (json_index body ''name'')) ''Unknown'',
      fv_summary = unwrap_or (as_str (json_index body ''summary'')) [],
      fv_description = unwrap_or (as_str (json_index body ''description'')) [],
      fv_price_cents = unwrap_or (as_u64 (json_index body ''price_cents'')) 0,
      fv_in_stock = unwrap_or (as_bool (json_index body ''in_stock'')) True\<rparr>"

definition flavor_create :: "shop_env \<Rightarrow> 'h web_conn \<Rightarrow> 'h web_conn" where
  "flavor_create E c =
     (case sh_from_slice E (conn_body c) of
        None \<Rightarrow> respond_text 400 invalid_json c
      | Some body \<Rightarrow>
          (let f = new_flavor body (wc_flavors c);
               c1 = c\<lparr>wc_flavors := wc_flavors c @ [f]\<rparr>
           in respond_json E 201 (flavor_to_json f) (emit [''ice_cream'', ''flavor'', ''created''] Map.empty c1)))"

definition patch_flavor :: "json \<Rightarrow> flavor \<Rightarrow> flavor" where
  "patch_flavor body f =
     \<lparr>fv_id = fv_id f, fv_name = unwrap_or (as_str (json_index body ''name'')) (fv_name f),
      fv_summary = unwrap_or (as_str (json_index body ''summary'')) (fv_summary f),
      fv_description = unwrap_or (as_str (json_index body ''description'')) (fv_description f),
      fv_price_cents = unwrap_or (as_u64 (json_index body ''price_cents'')) (fv_price_cents f),
      fv_in_stock = unwrap_or (as_bool (json_index body ''in_stock'')) (fv_in_stock f)\<rparr>"

definition flavor_update :: "shop_env \<Rightarrow> 'h web_conn \<Rightarrow> 'h web_conn" where
  "flavor_update E c =
     (let id = parse_id_param c
      in case sh_from_slice E (conn_body c) of
           None \<Rightarrow> respond_text 400 invalid_json c
         | Some body \<Rightarrow>
             (case List.find (\<lambda>f. fv_id f = id) (wc_flavors c) of
                Some f \<Rightarrow>
                  respond_json E 200 (flavor_to_json (patch_flavor body f))
                    (c\<lparr>wc_flavors := update_first (\<lambda>f. fv_id f = id) (patch_flavor body) (wc_flavors c)\<rparr>)
              | None \<Rightarrow> respond_text 404 flavor_not_found c))"

definition flavor_delete :: "shop_env \<Rightarrow> 'h web_conn \<Rightarrow> 'h web_conn" where
  "flavor_delete E c =
     (let kept = filter (\<lambda>f. fv_id f \<noteq> parse_id_param c) (wc_flavors c);
          c1 = c\<lparr>wc_flavors := kept\<rparr>
      in if length kept < length (wc_flavors c) then respond_text 200 deleted_true c1
         else respond_text 404 flavor_not_found c1)"

definition flavor_controller :: "shop_env \<Rightarrow> ('h, unit web_conn_ext) controller" where
  "flavor_controller E =
     \<lparr>ctl_index = flavor_index E, ctl_show = flavor_show E, ctl_create = flavor_create E,
      ctl_update = flavor_update E, ctl_delete = flavor_delete E\<rparr>"

subsection \<open>Orders\<close>

definition order_index :: "shop_env \<Rightarrow> 'h web_conn \<Rightarrow> 'h web_conn" where
  "order_index E c = respond_json E 200 (JArr (map order_to_json (wc_orders c))) c"

definition order_show :: "shop_env \<Rightarrow> 'h web_conn \<Rightarrow> 'h web_conn" where
  "order_show E c =
     (case List.find (\<lambda>d. od_id d = parse_id_param c) (wc_orders c) of
        Some d \<Rightarrow> respond_json E 200 (order_to_json d) c
      | None \<Rightarrow> respond_text 404 order_not_found c)"

definition new_order :: "json \<Rightarrow> string \<Rightarrow> order list \<Rightarrow> order" where
  "new_order body created orders =
     \<lparr>od_id = next_id (map od_id orders),
      od_customer_name = unwrap_or (as_str (json_index body ''customer_name'')) ''Guest'',
      od_items = unwrap_or (map_option (List.map_filter parse_order_item) (as_array (json_index body ''items''))) [],
      od_status = ''pending'', od_created_at = created\<rparr>"

definition order_topic :: "u64 \<Rightarrow> string" where
  "order_topic order_id = ''order:'' @ nat_to_string (unat order_id)"

definition order_create :: "shop_env \<Rightarrow> 'h web_conn \<Rightarrow> 'h web_conn" where
  "order_create E c =
     (case sh_from_slice E (conn_body c) of
        None \<Rightarrow> respond_text 400 invalid_json c
      | Some body \<Rightarrow>
          (case chrono_now (wc_now c) of
             None \<Rightarrow> c\<lparr>wc_aborted := True\<rparr>
           | Some created \<Rightarrow>
               (let d = new_order body created (wc_orders c);
                    c1 = c\<lparr>wc_orders := wc_orders c @ [d]\<rparr>;
                    c2 = emit [''ice_cream'', ''order'', ''placed''] [''order_id'' \<mapsto> json_u64 (od_id d)] c1;
                    c3 = c2\<lparr>wc_pubsub := pubsub_broadcast (order_topic (od_id d)) ''order_created''
                             (JObj [(''order_id'', json_u64 (od_id d))]) (wc_pubsub c2)\<rparr>
                in respond_json E 201 (order_to_json d) c3)))"

definition patch_order :: "json \<Rightarrow> order \<Rightarrow> order" where
  "patch_order body d = d\<lparr>od_status := unwrap_or (as_str (json_index body ''status'')) (od_status d)\<rparr>"

definition order_update :: "shop_env \<Rightarrow> 'h web_conn \<Rightarrow> 'h web_conn" where
  "order_update E c =
     (let id = parse_id_param c
      in case sh_from_slice E (conn_body c) of
           None \<Rightarrow> respond_text 400 invalid_json c
         | Some body \<Rightarrow>
             (case List.find (\<lambda>d. od_id d = id) (wc_orders c) of
                Some d \<Rightarrow>
                  respond_json E 200 (order_to_json (patch_order body d))
                    (c\<lparr>wc_orders := update_first (\<lambda>d. od_id d = id) (patch_order body) (wc_orders c)\<rparr>)
              | None \<Rightarrow> respond_text 404 order_not_found c))"

definition order_delete :: "shop_env \<Rightarrow> 'h web_conn \<Rightarrow> 'h web_conn" where
  "order_delete E c =
     (let kept = filter (\<lambda>d. od_id d \<noteq> parse_id_param c) (wc_orders c);
          c1 = c\<lparr>wc_orders := kept\<rparr>
      in if length kept < length (wc_orders c) then respond_text 200 deleted_true c1
         else respond_text 404 order_not_found c1)"

definition order_controller :: "shop_env \<Rightarrow> ('h, unit web_conn_ext) controller" where
  "order_controller E =
     \<lparr>ctl_index = order_index E, ctl_show = order_show E, ctl_create = order_create E,
      ctl_update = order_update E, ctl_delete = order_delete E\<rparr>"

section \<open>Pages\<close>

definition render_template ::
  "shop_env \<Rightarrow> string \<Rightarrow> (string \<times> json) list \<Rightarrow> 'h web_conn \<Rightarrow> 'h web_conn" where
  "render_template E name ctx c =
     (case sh_tera E name ctx of
        Ok html \<Rightarrow> respond_text 200 html c
      | Err e \<Rightarrow> respond_text 500 (''<h1>500 - Render Error</h1><p>'' @ e @ ''</p>'') c)"

definition render_home :: "shop_env \<Rightarrow> 'h web_conn \<Rightarrow> 'h web_conn" where
  "render_home E c =
     render_template E ''home.html''
       [(''flavors'', JArr (map format_flavor (wc_flavors c))), (''specials'', JArr format_specials)] c"

definition render_menu :: "shop_env \<Rightarrow> 'h web_conn \<Rightarrow> 'h web_conn" where
  "render_menu E c =
     render_template E ''menu.html''
       [(''flavors'', JArr (map format_flavor (wc_flavors c))), (''toppings'', JArr format_toppings),
        (''specials'', JArr format_specials)] c"

definition render_order :: "shop_env \<Rightarrow> 'h web_conn \<Rightarrow> 'h web_conn" where
  "render_order E c =
     render_template E ''order.html''
       [(''flavors'', JArr (map format_flavor (filter fv_in_stock (wc_flavors c)))),
        (''toppings'', JArr format_toppings)] c"

definition render_order_status :: "shop_env \<Rightarrow> 'h web_conn \<Rightarrow> 'h web_conn" where
  "render_order_status E c =
     render_template E ''order_status.html'' [(''order_id'', JStr (unwrap_or (path_param c ''id'') ''0''))] c"

definition opening_hours :: "json list" where
  "opening_hours =
     map (\<lambda>(d, t). JObj [(''day'', JStr d), (''time'', JStr t)])
       [(''Monday'', ''10:00 AM - 9:00 PM''), (''Tuesday'', ''10:00 AM - 9:00 PM''),
        (''Wednesday'', ''10:00 AM - 9:00 PM''), (''Thursday'', ''10:00 AM - 10:00 PM''),
        (''Friday'', ''10:00 AM - 11:00 PM''), (''Saturday'', ''9:00 AM - 11:00 PM''),
        (''Sunday'', ''9:00 AM - 8:00 PM'')]"

definition render_about :: "shop_env \<Rightarrow> 'h web_conn \<Rightarrow> 'h web_conn" where
  "render_about E c =
     render_template E ''about.html'' [(''hours'', JArr opening_hours), (''specials'', JArr format_specials)] c"

definition render_flavor :: "shop_env \<Rightarrow> 'h web_conn \<Rightarrow> 'h web_conn" where
  "render_flavor E c =
     (case List.find (\<lambda>f. fv_id f = parse_id_param c) (wc_flavors c) of
        Some f \<Rightarrow> render_template E ''flavor.html'' [(''flavor'', format_flavor f)] c
      | None \<Rightarrow> respond_text 404 flavor_missing_page c)"

section \<open>Plugs of the pipelines\<close>

definition hex_digit :: "nat \<Rightarrow> char" where
  "hex_digit d = (if d < 10 then digit_char d else char_of (87 + d))"

fun nat_to_hex :: "nat \<Rightarrow> string" where
  "nat_to_hex n = (if n < 16 then [hex_digit n] else nat_to_hex (n div 16) @ [hex_digit (n mod 16)])"

declare nat_to_hex.simps [simp del]

unbundle bit_operations_syntax

text \<open>\<open>d.as_nanos() as u64 ^ (d.as_secs() << 32)\<close>; \<open>None\<close> before the epoch.\<close>

definition rand_id :: "int \<Rightarrow> u64 option" where
  "rand_id now =
     (if now < 0 then None
      else Some (word_of_int now XOR push_bit 32 (word_of_int (now div 10 ^ 9))))"

definition browser_plug :: "'h http_api \<Rightarrow> 'h web_conn \<Rightarrow> 'h web_conn" where
  "browser_plug H c = put_resp_header H ''content-type'' ''text/html; charset=utf-8'' c"

definition api_json_plug :: "'h http_api \<Rightarrow> 'h web_conn \<Rightarrow> 'h web_conn" where
  "api_json_plug H c = put_resp_header H ''content-type'' ''application/json'' c"

definition api_request_id_plug :: "'h web_conn \<Rightarrow> 'h web_conn" where
  "api_request_id_plug c =
     (case rand_id (wc_now c) of
        None \<Rightarrow> c\<lparr>wc_aborted := True\<rparr>
      | Some n \<Rightarrow> assign (AppKey ''RequestId'') (StringVal (''req-'' @ nat_to_hex (unat n))) c)"

definition missing_key :: string where
  \<open>missing_key = ''{"error":"Missing x-api-key header"}''\<close>

definition auth_plug :: "'h http_api \<Rightarrow> 'h web_conn \<Rightarrow> 'h web_conn" where
  "auth_plug H c =
     (case hm_get H ''x-api-key'' (conn_headers c) of
        Some _ \<Rightarrow> assign (AppKey ''CurrentUser'') (StringVal ''authenticated-user'') c
      | None \<Rightarrow> halt (respond_text 401 missing_key c))"

section \<open>Handlers of the API scope\<close>

definition health_plug :: "'h http_api \<Rightarrow> 'h web_conn \<Rightarrow> 'h web_conn" where
  \<open>health_plug H c =
     put_resp_body (as_bytes ''{"status":"healthy","store":"open"}'')
       (put_resp_header H ''content-type'' ''application/json'' (put_status 200 c))\<close>

definition menu_entry :: "flavor \<Rightarrow> json" where
  "menu_entry f =
     JObj [(''name'', JStr (fv_name f)), (''price'', JStr (format_price (fv_price_cents f))),
       (''summary'', JStr (fv_summary f)), (''description'', JStr (fv_description f))]"

text \<open>The menu is built inside a telemetry span; a fault of the clock ends the process.\<close>

definition menu_plug :: "shop_env \<Rightarrow> 'h web_conn \<Rightarrow> 'h web_conn" where
  "menu_plug E c =
     (case span 1 (\<lambda>_ _. []) (\<lambda>_. wc_now c div 10 ^ 6) [''ice_cream'', ''menu'', ''build''] Map.empty (sh_elapsed E)
             (\<lambda>t. Ok (JObj [(''menu'', JArr (map menu_entry (filter fv_in_stock (wc_flavors c))))], t))
             (wc_telemetry c) of
        Ok (v, t) \<Rightarrow> respond_json E 200 v (c\<lparr>wc_telemetry := t\<rparr>)
      | Err _ \<Rightarrow> c\<lparr>wc_aborted := True\<rparr>)"

definition hours_plug :: "shop_env \<Rightarrow> 'h web_conn \<Rightarrow> 'h web_conn" where
  "hours_plug E c =
     respond_json E 200
       (JObj [(''hours'', JObj
          [(''monday'', JStr ''10:00 AM - 9:00 PM''), (''tuesday'', JStr ''10:00 AM - 9:00 PM''),
           (''wednesday'', JStr ''10:00 AM - 9:00 PM''), (''thursday'', JStr ''10:00 AM - 10:00 PM''),
           (''friday'', JStr ''10:00 AM - 11:00 PM''), (''saturday'', JStr ''9:00 AM - 11:00 PM''),
           (''sunday'', JStr ''9:00 AM - 8:00 PM'')]), (''timezone'', JStr ''HST'')]) c"

definition about_plug :: "shop_env \<Rightarrow> 'h web_conn \<Rightarrow> 'h web_conn" where
  "about_plug E c =
     respond_json E 200
       (JObj [(''name'', JStr ''Mahalo Ice Cream Store''), (''tagline'', JStr ''Tropical flavors, island vibes''),
         (''location'', JStr ''Honolulu, HI''), (''established'', JNum 2024),
         (''framework'', JStr ''Built with Mahalo - a Phoenix-like web framework for Rust'')]) c"

definition toppings_plug :: "shop_env \<Rightarrow> 'h web_conn \<Rightarrow> 'h web_conn" where
  "toppings_plug E c = respond_json E 200 toppings_json c"

definition specials_plug :: "shop_env \<Rightarrow> 'h web_conn \<Rightarrow> 'h web_conn" where
  "specials_plug E c = respond_json E 200 specials_json c"

text \<open>The event stream of prices: a fresh channel, a subscription to \<open>prices\<close> and a task that
  copies events from one to the other (\<open>price_stream\<close>), recorded in \<open>wc_streams\<close>.\<close>

definition prices_plug :: "'h http_api \<Rightarrow> 'h web_conn \<Rightarrow> 'h web_conn" where
  "prices_plug H c =
     (let i = wc_sse_next c
      in case sse_response H i (sse_options_keep_alive (KeepAlive_new 15000) \<lparr>so_keep_alive = None\<rparr>) c (wc_sse c) of
           (c1, sender, cs) \<Rightarrow>
             (let c2 = c1\<lparr>wc_sse := cs, wc_sse_next := Suc i\<rparr>
              in case pubsub_subscribe ''prices'' (wc_pubsub c2) of
                   (q, True) \<Rightarrow> c2\<lparr>wc_pubsub := q, wc_streams := wc_streams c2 @ [sse_tx sender]\<rparr>
                 | (q, False) \<Rightarrow> c2\<lparr>wc_pubsub := q\<rparr>))"

text \<open>The task, on the messages it receives until its subscription ends: the flag is whether it still
  runs, since a failed send ends it.\<close>

fun price_stream ::
  "shop_env \<Rightarrow> sse_sender \<Rightarrow> json pubsub_message list \<Rightarrow> string chans \<Rightarrow> bool \<times> string chans" where
  "price_stream E sender [] cs = (True, cs)"
| "price_stream E sender (msg # msgs) cs =
     (if pm_event msg = ''price_updated'' then
        (case sse_send sender (event_json_data (Ok (sh_to_string E (pm_payload msg)))
                 (event_event ''price_updated'' event_default)) cs of
           (Ok _, cs') \<Rightarrow> price_stream E sender msgs cs'
         | (Err _, cs') \<Rightarrow> (False, cs'))
      else price_stream E sender msgs cs)"

section \<open>Router and endpoint\<close>

definition browser_pipeline :: "'h http_api \<Rightarrow> ('h, unit web_conn_ext) pipeline" where
  "browser_pipeline H = pipeline_plug (plug_fn (browser_plug H)) (pipeline_new ''browser'')"

definition api_pipeline :: "'h http_api \<Rightarrow> ('h, unit web_conn_ext) pipeline" where
  "api_pipeline H =
     pipeline_plug (plug_fn api_request_id_plug)
       (pipeline_plug (plug_fn (api_json_plug H)) (pipeline_new ''api''))"

definition auth_pipeline :: "'h http_api \<Rightarrow> ('h, unit web_conn_ext) pipeline" where
  "auth_pipeline H = pipeline_plug (plug_fn (auth_plug H)) (pipeline_new ''auth'')"

definition browser_scope ::
  "shop_env \<Rightarrow> ('h, unit web_conn_ext) scope_builder \<Rightarrow> ('h, unit web_conn_ext) scope_builder" where
  "browser_scope E s =
     sb_get ''/flavors/:id'' (plug_fn (render_flavor E))
       (sb_get ''/about'' (plug_fn (render_about E))
         (sb_get ''/orders/:id'' (plug_fn (render_order_status E))
           (sb_get ''/order'' (plug_fn (render_order E))
             (sb_get ''/menu'' (plug_fn (render_menu E))
               (sb_get ''/'' (plug_fn (render_home E)) s)))))"

definition api_scope ::
  "'h http_api \<Rightarrow> shop_env \<Rightarrow> ('h, unit web_conn_ext) scope_builder \<Rightarrow> ('h, unit web_conn_ext) scope_builder" where
  "api_scope H E s =
     sb_get ''/prices/stream'' (plug_fn (prices_plug H))
       (sb_get ''/specials'' (plug_fn (specials_plug E))
         (sb_get ''/toppings'' (plug_fn (toppings_plug E))
           (sb_resources ''/flavors'' (flavor_controller E)
             (sb_get ''/about'' (plug_fn (about_plug E))
               (sb_get ''/hours'' (plug_fn (hours_plug E))
                 (sb_get ''/menu'' (plug_fn (menu_plug E)) s))))))"

definition orders_scope ::
  "shop_env \<Rightarrow> ('h, unit web_conn_ext) scope_builder \<Rightarrow> ('h, unit web_conn_ext) scope_builder" where
  "orders_scope E s = sb_resources ''/orders'' (order_controller E) s"

definition build_router :: "'h http_api \<Rightarrow> shop_env \<Rightarrow> ('h, unit web_conn_ext, 'r) mahalo_router" where
  "build_router H E =
     router_scope ''/api'' [''api'', ''auth''] (orders_scope E)
       (router_scope ''/api'' [''api''] (api_scope H E)
         (router_get ''/health'' (plug_fn (health_plug H))
           (router_scope ''/'' [''browser''] (browser_scope E)
             (router_pipeline (auth_pipeline H)
               (router_pipeline (api_pipeline H)
                 (router_pipeline (browser_pipeline H) router_new))))))"

definition shop_error_handler :: "'h http_api \<Rightarrow> ('h, unit web_conn_ext) error_handler" where
  "shop_error_handler H status c =
     put_resp_body (as_bytes (error_page (nat_to_string (unat status))))
       (put_resp_header H ''content-type'' ''text/html; charset=utf-8'' (put_status status c))"

text \<open>\<open>main\<close>: the endpoint, with the static files as its after-plug. The channel configuration
  \<open>ws\<close> is that of the channel side.\<close>

definition static_plug ::
  "'h http_api \<Rightarrow> (bytes \<Rightarrow> string) \<Rightarrow> fs \<Rightarrow> string \<Rightarrow> ('h, unit web_conn_ext) plug" where
  "static_plug H b3 F manifest_dir =
     plug_fn (static_files_call H b3 F (static_files_new ''/static'' (manifest_dir @ ''/static'')))"

definition shop_endpoint ::
  "'h http_api \<Rightarrow> (bytes \<Rightarrow> string) \<Rightarrow> fs \<Rightarrow> string \<Rightarrow> shop_env \<Rightarrow> (unit \<Rightarrow> 'w)
    \<Rightarrow> ('h, unit web_conn_ext, 'r, 'w) endpoint" where
  "shop_endpoint H b3 F manifest_dir E ws =
     endpoint_after (\<lambda>_. static_plug H b3 F manifest_dir)
       (endpoint_error_handler (shop_error_handler H)
         (endpoint_channels ws (endpoint_new (\<lambda>_. build_router H E) ''127.0.0.1:4000'')))"

end
