(* ===== verification/Shop_Requests.thy ===== *)
theory Shop_Requests
  imports Shop_Http
begin

text \<open>
  What one HTTP request does to the ice cream store: the routes of \<open>build_router\<close>, what leaves
  the flavors and orders alone, and the protection of the orders by the key of the \<open>auth\<close>
  pipeline. A request is one run of the endpoint's dispatch on the store's router.
\<close>

section \<open>Requests\<close>

definition store_of :: "'h web_conn \<Rightarrow> flavor list \<times> order list" where
  "store_of c = (wc_flavors c, wc_orders c)"

text \<open>The router as built, and after any number of resolutions.\<close>

definition serves_shop :: "'r matchit \<Rightarrow> 'h http_api \<Rightarrow> shop_env \<Rightarrow> ('h, unit web_conn_ext, 'r) mahalo_router \<Rightarrow> bool" where
  "serves_shop M H E r \<longleftrightarrow> mr_built M r \<and> mr_routes r = mr_routes (build_router H E :: ('h, unit web_conn_ext, 'r) mahalo_router)
     \<and> mr_pipelines r = mr_pipelines (build_router H E :: ('h, unit web_conn_ext, 'r) mahalo_router)"

lemma browser_scope_steps: "sb_steps s (browser_scope E s)"
  unfolding browser_scope_def sb_get_def by (intro sb_steps.intros)

lemma api_scope_steps: "sb_steps s (api_scope H E s)"
  unfolding api_scope_def sb_get_def sb_resources_def Let_def by (intro sb_steps.intros)

lemma orders_scope_steps: "sb_steps s (orders_scope E s)"
  unfolding orders_scope_def sb_resources_def Let_def by (intro sb_steps.intros)

lemma build_router_serves: "serves_shop M H E (build_router H E)"
  unfolding serves_shop_def build_router_def router_get_def
  by (intro conjI refl mr_built.intros allI browser_scope_steps api_scope_steps orders_scope_steps)

lemmas route_list_simps = build_router_def router_scope_def router_get_def add_top_level_route_def router_pipeline_def
  browser_scope_def api_scope_def orders_scope_def sb_get_def sb_resources_def sb_add_route_def sb_add_named_route_def
  scope_builder_new_def router_new_def Let_def

lemma build_router_handlers:
  "map (\<lambda>rt. (rt_pipeline_names rt, rt_handler rt)) (mr_routes (build_router H E)) =
     [([''browser''], PlugHandler (plug_fn (render_home E))), ([''browser''], PlugHandler (plug_fn (render_menu E))),
      ([''browser''], PlugHandler (plug_fn (render_order E))),
      ([''browser''], PlugHandler (plug_fn (render_order_status E))),
      ([''browser''], PlugHandler (plug_fn (render_about E))), ([''browser''], PlugHandler (plug_fn (render_flavor E))),
      ([], PlugHandler (plug_fn (health_plug H)))] @
     map (\<lambda>h. ([''api''], h))
       [PlugHandler (plug_fn (menu_plug E)), PlugHandler (plug_fn (hours_plug E)), PlugHandler (plug_fn (about_plug E)),
        ControllerHandler (flavor_controller E) ''index'', ControllerHandler (flavor_controller E) ''show'',
        ControllerHandler (flavor_controller E) ''create'', ControllerHandler (flavor_controller E) ''update'',
        ControllerHandler (flavor_controller E) ''delete'',
        PlugHandler (plug_fn (toppings_plug E)), PlugHandler (plug_fn (specials_plug E)),
        PlugHandler (plug_fn (prices_plug H))] @
     map (\<lambda>a. ([''api'', ''auth''], ControllerHandler (order_controller E) a))
       [''index'', ''show'', ''create'', ''update'', ''delete'']"
  by (simp add: route_list_simps)

lemma build_router_pipelines:
  "mr_pipelines (build_router H E) =
     [''browser'' \<mapsto> browser_pipeline H, ''api'' \<mapsto> api_pipeline H, ''auth'' \<mapsto> auth_pipeline H]"
  by (simp add: build_router_def router_scope_def router_get_def add_top_level_route_def router_pipeline_def
      router_new_def Let_def browser_pipeline_def api_pipeline_def auth_pipeline_def pipeline_plug_def pipeline_new_def)

subsection \<open>What leaves the store alone\<close>

text \<open>The response builders and the plugs of the pipelines change neither the store nor the request
  headers.\<close>

lemma builder_frame [simp]:
  "store_of (put_status s c) = store_of c" "store_of (put_resp_header H k v c) = store_of c"
  "store_of (put_resp_header_static H k b c) = store_of c"
  "store_of (put_resp_body b c) = store_of c" "store_of (halt c) = store_of c" "store_of (assign key val c) = store_of c"
  "store_of (respond_json E s j c) = store_of c" "store_of (respond_text s t c) = store_of c"
  "store_of (emit n m c) = store_of c" "store_of (c\<lparr>wc_aborted := b'\<rparr>) = store_of c"
  "store_of (c\<lparr>conn_path_params := ps\<rparr>) = store_of c"
  by (auto simp: store_of_def put_status_def put_resp_header_def put_resp_header_static_def put_resp_body_def halt_def
      assign_def respond_json_def respond_text_def emit_def split: option.splits result.splits)

lemma builder_headers [simp]:
  "conn_headers (put_status s c) = conn_headers c" "conn_headers (put_resp_header H k v c) = conn_headers c"
  "conn_headers (put_resp_body b c) = conn_headers c" "conn_headers (halt c) = conn_headers c"
  "conn_headers (assign key val c) = conn_headers c"
  by (auto simp: put_status_def put_resp_header_def put_resp_body_def halt_def assign_def split: option.splits)

definition keeps_request :: "('h, unit web_conn_ext) plug \<Rightarrow> bool" where
  "keeps_request p \<longleftrightarrow> (\<forall>c. store_of (run_plug p c) = store_of c \<and> conn_headers (run_plug p c) = conn_headers c)"

lemma pipeline_plug_frame:
  "keeps_request (plug_fn (browser_plug H))" "keeps_request (plug_fn (api_json_plug H))"
  "keeps_request (plug_fn api_request_id_plug)" "keeps_request (plug_fn (auth_plug H))"
  by (simp_all add: keeps_request_def browser_plug_def api_json_plug_def api_request_id_plug_def auth_plug_def
      respond_text_def split: option.splits)

lemma static_files_frame: "store_of (static_files_call H b3 F sf c) = store_of c"
proof -
  have fin: "store_of (static_finish m h b c) = store_of c" for m h b and c :: "'a web_conn"
    by (simp add: static_finish_def)
  have mime: "store_of (set_mime_and_cache H sf m c) = store_of c" for m and c :: "'a web_conn"
    by (simp add: set_mime_and_cache_def store_of_def)
  have var: "store_of (serve_variant H b3 sf m e b c) = store_of c" for m e b and c :: "'a web_conn"
    by (simp add: serve_variant_def check_etag_def fin mime Let_def)
  have vars: "try_variants H b3 F sf m a p vs c = Some c' \<Longrightarrow> store_of c' = store_of c" for m a p vs c'
    by (induction vs) (auto simp: var split: if_splits option.splits)
  have "store_of (serve_plain H b3 sf m z b c) = store_of c" for m z b
    by (simp add: serve_plain_def check_etag_def fin mime Let_def)
  then have "store_of (serve_file H b3 F sf fp p c) = store_of c" for fp p
    by (auto simp: serve_file_def Let_def dest: vars split: option.splits)
  then show ?thesis by (simp add: static_files_call_def Let_def split: option.splits)
qed

lemma static_plug_frame: "store_of (run_plugs [static_plug H b3 F dir] c) = store_of c"
  by (simp add: static_plug_def static_files_frame)

lemma error_handler_frame: "store_of (shop_error_handler H s c) = store_of c"
  by (simp add: shop_error_handler_def)

lemma run_plugs_frame:
  "list_all keeps_request qs \<Longrightarrow> store_of (run_plugs qs c) = store_of c \<and> conn_headers (run_plugs qs c) = conn_headers c"
  by (induction qs arbitrary: c) (simp_all add: keeps_request_def)

lemma pipelines_frame:
  assumes "\<forall>p \<in> set ps. p \<in> {browser_pipeline H, api_pipeline H, auth_pipeline H}"
  shows "store_of (run_pipelines ps c) = store_of c \<and> conn_headers (run_pipelines ps c) = conn_headers c"
proof -
  have "list_all keeps_request (pl_plugs p)" if "p \<in> {browser_pipeline H, api_pipeline H, auth_pipeline H}" for p
    using that pipeline_plug_frame
    by (auto simp: browser_pipeline_def api_pipeline_def auth_pipeline_def pipeline_plug_def pipeline_new_def)
  then have "list_all keeps_request (concat (map pl_plugs ps))"
    using assms unfolding list_all_iff set_concat set_map by blast
  then show ?thesis unfolding run_pipelines_flat by (rule run_plugs_frame)
qed

text \<open>A request without the key does not get past the pipelines of the order routes.\<close>

lemma auth_pipelines_halt:
  assumes "hm_get H ''x-api-key'' (conn_headers c) = None"
  shows "conn_halted (run_pipelines [api_pipeline H, auth_pipeline H] c)"
  using assms
  by (simp add: run_pipelines_flat api_pipeline_def auth_pipeline_def pipeline_plug_def pipeline_new_def
      api_json_plug_def api_request_id_plug_def auth_plug_def halt_def split: option.splits)

text \<open>What one request does to the store: nothing, or what the handler of one route does, and that only with
  the key when the route belongs to the authenticated scope.\<close>

lemma shop_request:
  fixes c :: "'h web_conn" and r :: "('h, unit web_conn_ext, 'r) mahalo_router"
  assumes "matchit_laws M" and "serves_shop M H E r"
    and "execute_request M (Some (shop_error_handler H)) [static_plug H b3 F dir] c r = Ok (r', c')"
  shows "store_of c' = store_of c \<or>
    (\<exists>names h c1. (names, h) \<in> set (map (\<lambda>rt. (rt_pipeline_names rt, rt_handler rt))
          (mr_routes (build_router H E :: ('h, unit web_conn_ext, 'r) mahalo_router))) \<and>
       store_of c1 = store_of c \<and> store_of c' = store_of (run_handler h c1) \<and>
       (names = [''api'', ''auth''] \<longrightarrow> hm_get H ''x-api-key'' (conn_headers c) \<noteq> None))"
proof -
  let ?R = "build_router H E :: ('h, unit web_conn_ext, 'r) mahalo_router"
  obtain resolved where res: "resolve M (conn_method c) (uri_path (conn_uri c)) r = Ok (r', resolved)"
    and c': "c' = run_plugs [static_plug H b3 F dir] (case resolved of Some rr \<Rightarrow> resolved_execute rr c
        | None \<Rightarrow> shop_error_handler H 404 (put_status 404 c))"
    using assms(3) by (auto simp: execute_request_def Let_def simp del: run_plugs.simps cong: option.case_cong)
  show ?thesis
  proof (cases resolved)
    case None
    with c' show ?thesis by (simp only: option.case static_plug_frame error_handler_frame builder_frame simp_thms)
  next
    case (Some rr)
    obtain rt ps where rt: "rt \<in> set (mr_routes ?R)"
      "rr_pipelines rr = List.map_filter (mr_pipelines ?R) (rt_pipeline_names rt)" "rr_handler rr = rt_handler rt"
      using resolve_matched [OF assms(1) _ res [unfolded Some]] assms(2) unfolding serves_shop_def by (metis (no_types, lifting) resolved_route.select_convs(2,3))
    let ?c0 = "c\<lparr>conn_path_params := rr_path_params rr\<rparr>"
    let ?c1 = "run_pipelines (rr_pipelines rr) ?c0"
    have "\<forall>p \<in> set (rr_pipelines rr). p \<in> {browser_pipeline H, api_pipeline H, auth_pipeline H}"
      unfolding rt(2) build_router_pipelines by (auto simp: List.map_filter_def split: if_splits)
    then have c1: "store_of ?c1 = store_of c" using pipelines_frame [of "rr_pipelines rr" H ?c0] by simp
    have sc': "store_of c' = store_of (if conn_halted ?c1 then ?c1 else run_handler (rt_handler rt) ?c1)"
      unfolding c' Some option.case static_plug_frame by (simp add: resolved_execute_def Let_def rt(3))
    show ?thesis
    proof (cases "conn_halted ?c1")
      case True
      with sc' c1 show ?thesis by simp
    next
      case False
      have "hm_get H ''x-api-key'' (conn_headers c) \<noteq> None" if "rt_pipeline_names rt = [''api'', ''auth'']"
        using False auth_pipelines_halt [of H ?c0] that
        by (auto simp: rt(2) build_router_pipelines List.map_filter_def)
      moreover have "(rt_pipeline_names rt, rt_handler rt) \<in> set (map (\<lambda>rt. (rt_pipeline_names rt, rt_handler rt)) (mr_routes ?R))"
        using rt(1) by simp
      moreover have "store_of c' = store_of (run_handler (rt_handler rt) ?c1)" using sc' False by simp
      ultimately show ?thesis using c1 by (intro disjI2 exI [of _ "rt_pipeline_names rt"] exI [of _ "rt_handler rt"] exI [of _ ?c1]) simp
    qed
  qed
qed

subsection \<open>What does not look at the orders\<close>

definition ignores_orders :: "('h web_conn \<Rightarrow> 'h web_conn) \<Rightarrow> bool" where
  "ignores_orders f \<longleftrightarrow> (\<forall>c os. f (c\<lparr>wc_orders := os\<rparr>) = (f c)\<lparr>wc_orders := os\<rparr>)"

lemma ignores_ordersD: "ignores_orders f \<Longrightarrow> f (c\<lparr>wc_orders := os\<rparr>) = (f c)\<lparr>wc_orders := os\<rparr>"
  by (simp add: ignores_orders_def)

text \<open>The builders move past an update of the orders.\<close>

lemma builder_orders [simp]:
  "put_status s (c\<lparr>wc_orders := os\<rparr>) = (put_status s c)\<lparr>wc_orders := os\<rparr>"
  "put_resp_header H k v (c\<lparr>wc_orders := os\<rparr>) = (put_resp_header H k v c)\<lparr>wc_orders := os\<rparr>"
  "put_resp_header_static H k b (c\<lparr>wc_orders := os\<rparr>) = (put_resp_header_static H k b c)\<lparr>wc_orders := os\<rparr>"
  "put_resp_body b (c\<lparr>wc_orders := os\<rparr>) = (put_resp_body b c)\<lparr>wc_orders := os\<rparr>"
  "halt (c\<lparr>wc_orders := os\<rparr>) = (halt c)\<lparr>wc_orders := os\<rparr>"
  "assign key val (c\<lparr>wc_orders := os\<rparr>) = (assign key val c)\<lparr>wc_orders := os\<rparr>"
  "respond_json E s j (c\<lparr>wc_orders := os\<rparr>) = (respond_json E s j c)\<lparr>wc_orders := os\<rparr>"
  "respond_text s t (c\<lparr>wc_orders := os\<rparr>) = (respond_text s t c)\<lparr>wc_orders := os\<rparr>"
  "emit n m (c\<lparr>wc_orders := os\<rparr>) = (emit n m c)\<lparr>wc_orders := os\<rparr>"
  "parse_id_param (c\<lparr>wc_orders := os\<rparr>) = parse_id_param c"
  "path_param (c\<lparr>wc_orders := os\<rparr>) x = path_param c x"
  "req_header_str H (c\<lparr>wc_orders := os\<rparr>) x = req_header_str H c x"
  by (simp_all add: put_status_def put_resp_header_def put_resp_header_static_def put_resp_body_def halt_def
      assign_def respond_json_def respond_text_def emit_def parse_id_param_def path_param_def req_header_str_def
      split: option.splits result.splits)

lemma orders_last [simp]:
  "c\<lparr>wc_orders := os, wc_flavors := fs\<rparr> = c\<lparr>wc_flavors := fs, wc_orders := os\<rparr>"
  "c\<lparr>wc_orders := os, conn_path_params := ps\<rparr> = c\<lparr>conn_path_params := ps, wc_orders := os\<rparr>"
  "c\<lparr>wc_orders := os, wc_telemetry := t\<rparr> = c\<lparr>wc_telemetry := t, wc_orders := os\<rparr>"
  by simp_all

lemma pages_ignore_orders:
  "ignores_orders (render_home E)" "ignores_orders (render_menu E)" "ignores_orders (render_order E)"
  "ignores_orders (render_order_status E)" "ignores_orders (render_about E)" "ignores_orders (render_flavor E)"
  by (simp_all add: ignores_orders_def render_home_def render_menu_def render_order_def render_order_status_def
      render_about_def render_flavor_def render_template_def split: option.splits result.splits)

lemma api_ignores_orders:
  "ignores_orders (health_plug H)" "ignores_orders (menu_plug E)" "ignores_orders (hours_plug E)"
  "ignores_orders (about_plug E)" "ignores_orders (toppings_plug E)" "ignores_orders (specials_plug E)"
  "ignores_orders (prices_plug H)"
  by (simp_all add: ignores_orders_def health_plug_def menu_plug_def hours_plug_def about_plug_def toppings_plug_def
      specials_plug_def prices_plug_def sse_response_def Let_def sse_options_keep_alive_def
      split: option.splits result.splits prod.splits bool.splits)

lemma flavor_controller_ignores_orders:
  "ignores_orders (flavor_index E)" "ignores_orders (flavor_show E)" "ignores_orders (flavor_create E)"
  "ignores_orders (flavor_update E)" "ignores_orders (flavor_delete E)"
  by (simp_all add: ignores_orders_def flavor_index_def flavor_show_def flavor_create_def flavor_update_def
      flavor_delete_def Let_def split: option.splits)

lemma plugs_ignore_orders:
  "ignores_orders (browser_plug H)" "ignores_orders (api_json_plug H)" "ignores_orders api_request_id_plug"
  "ignores_orders (auth_plug H)" "ignores_orders (shop_error_handler H s)"
  by (simp_all add: ignores_orders_def browser_plug_def api_json_plug_def api_request_id_plug_def auth_plug_def
      shop_error_handler_def split: option.splits)

lemma static_ignores_orders: "ignores_orders (static_files_call H b3 F sf)"
proof -
  have mime: "set_mime_and_cache H sf m (c\<lparr>wc_orders := os\<rparr>) = (set_mime_and_cache H sf m c)\<lparr>wc_orders := os\<rparr>"
    for m and c :: "'a web_conn" and os by (simp add: set_mime_and_cache_def)
  have fin: "static_finish m h b (c\<lparr>wc_orders := os\<rparr>) = (static_finish m h b c)\<lparr>wc_orders := os\<rparr>"
    for m h b and c :: "'a web_conn" and os by (simp add: static_finish_def)
  have var: "serve_variant H b3 sf m e b (c\<lparr>wc_orders := os\<rparr>) = (serve_variant H b3 sf m e b c)\<lparr>wc_orders := os\<rparr>"
    for m e b and c :: "'a web_conn" and os by (simp add: serve_variant_def check_etag_def mime fin Let_def)
  have vars: "try_variants H b3 F sf m a p vs (c\<lparr>wc_orders := os\<rparr>) =
      map_option (\<lambda>c. c\<lparr>wc_orders := os\<rparr>) (try_variants H b3 F sf m a p vs c)"
    for m a p vs and c :: "'a web_conn" and os by (induction vs) (auto simp: var split: option.splits)
  have plain: "serve_plain H b3 sf m z b (c\<lparr>wc_orders := os\<rparr>) = (serve_plain H b3 sf m z b c)\<lparr>wc_orders := os\<rparr>"
    for m z b and c :: "'a web_conn" and os by (simp add: serve_plain_def check_etag_def mime fin Let_def)
  have "serve_file H b3 F sf fp p (c\<lparr>wc_orders := os\<rparr>) = (serve_file H b3 F sf fp p c)\<lparr>wc_orders := os\<rparr>"
    for fp p and c :: "'a web_conn" and os
    by (simp add: serve_file_def vars plain Let_def split: option.splits)
  then show ?thesis by (simp add: ignores_orders_def static_files_call_def Let_def split: option.splits)
qed

lemma run_plugs_ignore_orders:
  "\<forall>p \<in> set ps. ignores_orders (run_plug p) \<Longrightarrow> ignores_orders (run_plugs ps)"
proof (induction ps)
  case (Cons p ps)
  then show ?case by (simp add: ignores_orders_def)
qed (simp add: ignores_orders_def)

lemma pipelines_ignore_orders:
  assumes "\<forall>p \<in> set ps. p \<in> {browser_pipeline H, api_pipeline H, auth_pipeline H}"
  shows "ignores_orders (run_pipelines ps)"
proof -
  have "\<forall>q \<in> set (pl_plugs p). ignores_orders (run_plug q)"
    if "p \<in> {browser_pipeline H, api_pipeline H, auth_pipeline H}" for p
    using that plugs_ignore_orders
    by (auto simp: browser_pipeline_def api_pipeline_def auth_pipeline_def pipeline_plug_def pipeline_new_def)
  then have "\<forall>q \<in> set (concat (map pl_plugs ps)). ignores_orders (run_plug q)"
    using assms unfolding set_concat set_map by blast
  from run_plugs_ignore_orders [OF this] show ?thesis
    by (simp add: ignores_orders_def run_pipelines_flat)
qed

lemma plug_handler_ignores: "ignores_orders f \<Longrightarrow> ignores_orders (run_handler (PlugHandler (plug_fn f)))"
  by (simp add: ignores_orders_def)

lemma flavor_action_ignores:
  "ignores_orders (run_handler (ControllerHandler (flavor_controller E) ''index''))"
  "ignores_orders (run_handler (ControllerHandler (flavor_controller E) ''show''))"
  "ignores_orders (run_handler (ControllerHandler (flavor_controller E) ''create''))"
  "ignores_orders (run_handler (ControllerHandler (flavor_controller E) ''update''))"
  "ignores_orders (run_handler (ControllerHandler (flavor_controller E) ''delete''))"
  using flavor_controller_ignores_orders [of E]
  by (simp_all add: ignores_orders_def call_action_def flavor_controller_def)

lemma public_handlers_ignore_orders:
  "list_all (\<lambda>(names, h). names = [''api'', ''auth''] \<or> ignores_orders (run_handler h))
     (map (\<lambda>rt. (rt_pipeline_names rt, rt_handler rt)) (mr_routes (build_router H E)))"
  unfolding build_router_handlers
  by (simp add: plug_handler_ignores pages_ignore_orders api_ignores_orders flavor_action_ignores)

lemma resolved_execute_ignores:
  fixes c :: "'h web_conn" and r :: "('h, unit web_conn_ext, 'r) mahalo_router"
  assumes "matchit_laws M" and "serves_shop M H E r" and "hm_get H ''x-api-key'' (conn_headers c) = None"
    and "resolve M m path r = Ok (r', Some rr)"
  shows "resolved_execute rr (c\<lparr>wc_orders := os\<rparr>) = (resolved_execute rr c)\<lparr>wc_orders := os\<rparr>"
proof -
  let ?R = "build_router H E :: ('h, unit web_conn_ext, 'r) mahalo_router"
  let ?ps = "rr_pipelines rr" and ?c0 = "c\<lparr>conn_path_params := rr_path_params rr\<rparr>"
  obtain rt where rt: "rt \<in> set (mr_routes ?R)"
    "rr_pipelines rr = List.map_filter (mr_pipelines ?R) (rt_pipeline_names rt)" "rr_handler rr = rt_handler rt"
    using resolve_matched [OF assms(1) _ assms(4)] assms(2) unfolding serves_shop_def
    by (metis (no_types, lifting) resolved_route.select_convs(2,3))
  have "\<forall>p \<in> set ?ps. p \<in> {browser_pipeline H, api_pipeline H, auth_pipeline H}"
    unfolding rt(2) build_router_pipelines by (auto simp: List.map_filter_def split: if_splits)
  from ignores_ordersD [OF pipelines_ignore_orders [OF this]]
  have pipes: "run_pipelines ?ps (?c0\<lparr>wc_orders := os\<rparr>) = (run_pipelines ?ps ?c0)\<lparr>wc_orders := os\<rparr>" .
  have halted: "conn_halted (run_pipelines ?ps ?c0)" if "rt_pipeline_names rt = [''api'', ''auth'']"
    using auth_pipelines_halt [of H ?c0] assms(3) that
    by (simp add: rt(2) build_router_pipelines List.map_filter_def)
  have "rt_pipeline_names rt = [''api'', ''auth''] \<or> ignores_orders (run_handler (rt_handler rt))"
    using public_handlers_ignore_orders [where ?'a = 'h and ?'b = 'r, of H E] rt(1) unfolding list_all_iff by fastforce
  then have "(let c1 = run_pipelines ?ps (?c0\<lparr>wc_orders := os\<rparr>)
      in if conn_halted c1 then c1 else run_handler (rt_handler rt) c1) =
    (let c1 = run_pipelines ?ps ?c0 in if conn_halted c1 then c1 else run_handler (rt_handler rt) c1)\<lparr>wc_orders := os\<rparr>"
    using halted by (auto simp: pipes ignores_ordersD Let_def)
  then show ?thesis by (simp only: resolved_execute_def rt(3) Let_def orders_last)
qed

text \<open>C10: The orders are protected: a request without an \<open>x-api-key\<close> header neither reads nor changes
  them. Whatever the orders are, the same request gives the same answer, has the same other effects and
  leaves them as they were.\<close>

theorem orders_need_key:
  fixes c :: "'h web_conn" and r :: "('h, unit web_conn_ext, 'r) mahalo_router"
  assumes "matchit_laws M" and "serves_shop M H E r" and "hm_get H ''x-api-key'' (conn_headers c) = None"
  shows "execute_request M (Some (shop_error_handler H)) [static_plug H b3 F dir] (c\<lparr>wc_orders := os\<rparr>) r =
    map_result (\<lambda>(r', c'). (r', c'\<lparr>wc_orders := os\<rparr>)) id
      (execute_request M (Some (shop_error_handler H)) [static_plug H b3 F dir] c r)"
proof (cases "resolve M (conn_method c) (uri_path (conn_uri c)) r")
  case (Err e)
  then show ?thesis by (simp add: execute_request_def)
next
  case (Ok x)
  obtain r' resolved where x: "x = (r', resolved)" by (cases x)
  let ?after = "run_plugs [static_plug H b3 F dir]"
  have after: "?after (c1\<lparr>wc_orders := os\<rparr>) = (?after c1)\<lparr>wc_orders := os\<rparr>" for c1
    by (intro ignores_ordersD run_plugs_ignore_orders) (simp add: static_plug_def static_ignores_orders)
  show ?thesis
  proof (cases resolved)
    case None
    have "shop_error_handler H 404 (put_status 404 (c\<lparr>wc_orders := os\<rparr>)) =
        (shop_error_handler H 404 (put_status 404 c))\<lparr>wc_orders := os\<rparr>"
      by (simp add: ignores_ordersD [OF plugs_ignore_orders(5)])
    with Ok x None show ?thesis by (simp add: execute_request_def after del: run_plugs.simps)
  next
    case (Some rr)
    from resolved_execute_ignores [OF assms Ok [unfolded x Some]] Ok x Some show ?thesis
      by (simp add: execute_request_def after del: run_plugs.simps)
  qed
qed

definition demo_shop_env :: shop_env where
  "demo_shop_env = \<lparr>sh_from_slice = (\<lambda>_. Some JNull), sh_to_string = (\<lambda>_. []), sh_tera = (\<lambda>_ _. Ok []), sh_elapsed = 0\<rparr>"

definition demo_web_conn :: "http_method \<Rightarrow> string \<Rightarrow> (string \<times> bytes) list web_conn" where
  "demo_web_conn m path =
     conn.extend (conn_new list_http m \<lparr>uri_path = path, uri_query = None\<rparr>)
       (web_conn.fields (fst StoreData_new) [] \<lparr>sq_alive = True, sq_cmds = []\<rparr> make_telemetry (\<lambda>_. chan_new) 0 [] 0 False)"

theorem orders_need_key_witness:
  "execute_request list_matchit (Some (shop_error_handler list_http)) [static_plug list_http (\<lambda>_. []) demo_fs []]
     ((demo_web_conn GET ''/api/orders'')\<lparr>wc_orders := [new_order JNull [] []]\<rparr>) (build_router list_http demo_shop_env) =
   map_result (\<lambda>(r', c'). (r', c'\<lparr>wc_orders := [new_order JNull [] []]\<rparr>)) id
     (execute_request list_matchit (Some (shop_error_handler list_http)) [static_plug list_http (\<lambda>_. []) demo_fs []]
       (demo_web_conn GET ''/api/orders'') (build_router list_http demo_shop_env))"
  by (rule orders_need_key [OF matchit_laws_list build_router_serves])
    (simp add: demo_web_conn_def conn.defs conn_new_def list_http_def)

declare builder_orders [simp del] orders_last [simp del]


end
