(* ===== verification/Shop_Channels.thy ===== *)
theory Shop_Channels
  imports Shop_Http
begin

text \<open>
  The channel side of the ice cream store, \<open>mahalo-test-app/src/main.rs\<close>: the order, store and
  support channels, the task that simulates the progress of an order, and the thread that changes
  prices. The lists behind the mutexes are the extension of the channel world; a simulation task is
  recorded when it is spawned and runs later (\<open>sim_tick\<close>), between other steps.
\<close>

section \<open>Definitions\<close>

record shop_world = chan_world +
  sw_flavors :: "flavor list"
  sw_orders :: "order list"
  sw_sims :: "(string \<times> u64) list"

type_synonym shop_sw = "unit shop_world_ext sw"

definition CustomerName :: type_id where "CustomerName = AppKey ''CustomerName''"

definition customer_of :: "json \<Rightarrow> string" where
  "customer_of payload = unwrap_or (as_str (json_index payload ''customer_name'')) ''Guest''"

subsection \<open>The order channel\<close>

definition order_join :: "string \<Rightarrow> json \<Rightarrow> shop_sw \<Rightarrow> (json, channel_error) result \<times> shop_sw" where
  "order_join topic payload s =
     (case s of (socket, w) \<Rightarrow>
        (let customer = customer_of payload;
             socket1 = socket_assign CustomerName (StringVal customer) socket;
             order_id = parse_order_id topic;
             status = unwrap_or (map_option od_status (List.find (\<lambda>d. od_id d = order_id) (sw_orders w))) ''not_found'';
             w1 = (if status = ''pending'' then w\<lparr>sw_sims := sw_sims w @ [(topic, order_id)]\<rparr> else w)
         in (Ok (JObj [(''status'', JStr status), (''customer'', JStr customer)]), (socket1, w1))))"

definition set_status :: "u64 \<Rightarrow> string \<Rightarrow> order list \<Rightarrow> order list" where
  "set_status order_id status orders = update_first (\<lambda>d. od_id d = order_id) (\<lambda>d. d\<lparr>od_status := status\<rparr>) orders"

definition status_payload :: "u64 \<Rightarrow> string \<Rightarrow> json" where
  "status_payload order_id status = JObj [(''order_id'', json_u64 order_id), (''status'', JStr status)]"

definition order_update_status ::
  "json \<Rightarrow> shop_sw \<Rightarrow> (reply option, channel_error) result \<times> shop_sw" where
  "order_update_status payload s =
     (case s of (socket, w) \<Rightarrow>
        (let order_id = parse_order_id (cs_topic socket);
             new_status = unwrap_or (as_str (json_index payload ''status'')) ''unknown'';
             w1 = w\<lparr>sw_orders := set_status order_id new_status (sw_orders w)\<rparr>
         in (Ok (Some (reply_ok (JObj [(''updated'', JBool True)]))),
             socket_broadcast ''status_changed'' (status_payload order_id new_status) (socket, w1))))"

definition order_add_item ::
  "json \<Rightarrow> shop_sw \<Rightarrow> (reply option, channel_error) result \<times> shop_sw" where
  "order_add_item payload s =
     (case s of (socket, w) \<Rightarrow>
        (let order_id = parse_order_id (cs_topic socket)
         in case parse_order_item payload of
              None \<Rightarrow> (Ok (Some (reply_error (JObj [(''error'', JStr ''at least 1 scoop flavor required'')]))), s)
            | Some item \<Rightarrow>
                (case List.find (\<lambda>d. od_id d = order_id) (sw_orders w) of
                   Some _ \<Rightarrow>
                     (let w1 = w\<lparr>sw_orders := update_first (\<lambda>d. od_id d = order_id)
                                  (\<lambda>d. d\<lparr>od_items := od_items d @ [item]\<rparr>) (sw_orders w)\<rparr>
                      in (Ok (Some (reply_ok (JObj [(''added'', JBool True)]))),
                          socket_broadcast ''item_added''
                            (JObj [(''order_id'', json_u64 order_id), (''item'', order_item_to_json item)]) (socket, w1)))
                 | None \<Rightarrow> (Ok (Some (reply_error (JObj [(''error'', JStr ''order not found'')]))), s))))"

definition order_handle_in ::
  "string \<Rightarrow> json \<Rightarrow> shop_sw \<Rightarrow> (reply option, channel_error) result \<times> shop_sw" where
  "order_handle_in event payload s =
     (if event = ''update_status'' then order_update_status payload s
      else if event = ''add_item'' then order_add_item payload s
      else (Ok None, s))"

text \<open>The trait's defaults for the other callbacks; \<open>terminate\<close> only logs.\<close>

definition order_channel :: "json_api \<Rightarrow> unit shop_world_ext channel" where
  "order_channel J =
     \<lparr>chn_join = order_join, chn_handle_in = order_handle_in, chn_handle_info = default_handle_info J,
      chn_started = (\<lambda>s. s), chn_stopping = (\<lambda>s. (StopYes, s)), chn_terminate = (\<lambda>reason s. s)\<rparr>"

text \<open>One step of a simulation task after its sleep, on the orders and the PubSub handle.\<close>

definition sim_tick ::
  "string \<Rightarrow> u64 \<Rightarrow> string \<Rightarrow> order list \<times> json server_queue \<Rightarrow> order list \<times> json server_queue" where
  "sim_tick topic order_id next_status s =
     (case s of (orders, q) \<Rightarrow>
        (set_status order_id next_status orders,
         pubsub_broadcast topic ''status_changed'' (status_payload order_id next_status) q))"

definition sim_statuses :: "string list" where
  "sim_statuses = [''preparing'', ''ready'', ''delivered'']"

subsection \<open>The store channel\<close>

definition store_join :: "string \<Rightarrow> json \<Rightarrow> shop_sw \<Rightarrow> (json, channel_error) result \<times> shop_sw" where
  "store_join topic payload s =
     (case s of (socket, w) \<Rightarrow>
        (let customer = customer_of payload;
             socket1 = socket_assign CustomerName (StringVal customer) socket
         in (Ok (JObj [(''message'', JStr (''Welcome to the Mahalo Ice Cream Store, '' @ customer @ ''!''))]),
             socket_broadcast ''customer_arrived'' (JObj [(''customer'', JStr customer)]) (socket1, w))))"

definition store_announcement ::
  "json \<Rightarrow> shop_sw \<Rightarrow> (reply option, channel_error) result \<times> shop_sw" where
  "store_announcement payload s =
     (let message = unwrap_or (as_str (json_index payload ''message'')) ''No message''
      in (Ok (Some (reply_ok (JObj [(''announced'', JBool True)]))),
          socket_broadcast ''store_announcement'' (JObj [(''message'', JStr message)]) s))"

definition store_request_menu ::
  "json_api \<Rightarrow> shop_sw \<Rightarrow> (reply option, channel_error) result \<times> shop_sw" where
  "store_request_menu J s =
     (let menu = map (\<lambda>f. JObj [(''name'', JStr (fv_name f)), (''price'', JStr (format_price (fv_price_cents f)))])
                   (filter fv_in_stock (sw_flavors (snd s)))
      in (Ok (Some (reply_ok (JObj [(''sent'', JBool True)]))),
          socket_push J ''menu'' (JObj [(''flavors'', JArr menu)]) s))"

definition store_update_price ::
  "json \<Rightarrow> shop_sw \<Rightarrow> (reply option, channel_error) result \<times> shop_sw" where
  "store_update_price payload s =
     (case s of (socket, w) \<Rightarrow>
        (let flavor_id = unwrap_or (as_u64 (json_index payload ''flavor_id'')) 0;
             new_price_cents = unwrap_or (as_u64 (json_index payload ''price_cents'')) 0
         in case List.find (\<lambda>f. fv_id f = flavor_id) (sw_flavors w) of
              Some f \<Rightarrow>
                (let w1 = w\<lparr>sw_flavors := update_first (\<lambda>f. fv_id f = flavor_id)
                             (\<lambda>f. f\<lparr>fv_price_cents := new_price_cents\<rparr>) (sw_flavors w)\<rparr>
                 in (Ok (Some (reply_ok (JObj [(''updated'', JBool True)]))),
                     socket_broadcast ''price_updated'' (price_update_payload flavor_id (fv_name f) new_price_cents)
                       (socket, w1)))
            | None \<Rightarrow> (Ok (Some (reply_error (JObj [(''error'', JStr ''flavor not found'')]))), s)))"

definition store_handle_in ::
  "json_api \<Rightarrow> string \<Rightarrow> json \<Rightarrow> shop_sw \<Rightarrow> (reply option, channel_error) result \<times> shop_sw" where
  "store_handle_in J event payload s =
     (if event = ''announcement'' then store_announcement payload s
      else if event = ''request_menu'' then store_request_menu J s
      else if event = ''update_price'' then store_update_price payload s
      else (Ok None, s))"

definition store_channel :: "json_api \<Rightarrow> unit shop_world_ext channel" where
  "store_channel J =
     \<lparr>chn_join = store_join, chn_handle_in = store_handle_in J, chn_handle_info = default_handle_info J,
      chn_started = (\<lambda>s. s), chn_stopping = (\<lambda>s. (StopYes, s)), chn_terminate = (\<lambda>reason s. s)\<rparr>"

subsection \<open>The support channel\<close>

definition support_join :: "string \<Rightarrow> json \<Rightarrow> shop_sw \<Rightarrow> (json, channel_error) result \<times> shop_sw" where
  "support_join topic payload s =
     (case s of (socket, w) \<Rightarrow>
        (let customer = customer_of payload
         in (Ok (JObj [(''message'', JStr (support_greeting customer))]),
             (socket_assign CustomerName (StringVal customer) socket, w))))"

definition support_handle_in ::
  "(string \<Rightarrow> string) \<Rightarrow> string \<Rightarrow> json \<Rightarrow> shop_sw \<Rightarrow> (reply option, channel_error) result \<times> shop_sw" where
  "support_handle_in to_lowercase event payload s =
     (if event = ''chat_message'' then
        (let response = respond to_lowercase (unwrap_or (as_str (json_index payload ''message'')) [])
         in (Ok (Some (reply_ok (JObj [(''response'', JStr response)]))),
             socket_broadcast ''chat_reply'' (JObj [(''message'', JStr response)]) s))
      else (Ok None, s))"

definition support_channel :: "json_api \<Rightarrow> (string \<Rightarrow> string) \<Rightarrow> unit shop_world_ext channel" where
  "support_channel J to_lowercase =
     \<lparr>chn_join = support_join, chn_handle_in = support_handle_in to_lowercase,
      chn_handle_info = default_handle_info J, chn_started = (\<lambda>s. s), chn_stopping = (\<lambda>s. (StopYes, s)),
      chn_terminate = (\<lambda>reason s. s)\<rparr>"

definition shop_channels :: "json_api \<Rightarrow> (string \<Rightarrow> string) \<Rightarrow> unit shop_world_ext channel_router" where
  "shop_channels J to_lowercase =
     router_channel ''support:*'' (support_channel J to_lowercase)
       (router_channel ''store:lobby'' (store_channel J)
         (router_channel ''order:*'' (order_channel J) []))"

subsection \<open>The price thread\<close>

text \<open>\<open>None\<close> is the panic of \<open>% flavors.len()\<close> on an empty list.\<close>

definition fluctuate :: "u64 \<Rightarrow> u64 \<Rightarrow> nat \<Rightarrow> u64 \<Rightarrow> u64" where
  "fluctuate tick startup_seed idx price_cents =
     (let delta = (tick * 7 + of_nat idx * 13 + startup_seed) mod 51 - 25;
          moved = price_cents + delta
      in if moved <s 200 then 200 else moved)"

definition price_update ::
  "u64 \<Rightarrow> u64 \<Rightarrow> flavor list \<Rightarrow> (flavor list \<times> u64 \<times> string \<times> u64) option" where
  "price_update tick startup_seed flavors =
     (if flavors = [] then None
      else let idx = unat tick mod length flavors;
               f = flavors ! idx;
               new_price = fluctuate tick startup_seed idx (fv_price_cents f)
           in Some (flavors[idx := f\<lparr>fv_price_cents := new_price\<rparr>], fv_id f, fv_name f, new_price))"

definition price_tick ::
  "u64 \<Rightarrow> u64 \<times> flavor list \<times> json server_queue \<Rightarrow> (u64 \<times> flavor list \<times> json server_queue) option" where
  "price_tick startup_seed s =
     (case s of (tick0, flavors, q) \<Rightarrow>
        (let tick = tick0 + 1
         in case price_update tick startup_seed flavors of
              None \<Rightarrow> None
            | Some (flavors', fid, name, price) \<Rightarrow>
                Some (tick, flavors', pubsub_broadcast ''prices'' ''price_updated'' (price_update_payload fid name price) q)))"

end
