(* ===== verification/Ice_Cream_Shop.thy ===== *)
theory Ice_Cream_Shop
  imports Shop_Requests Shop_Channels
begin

text \<open>
  The ice cream store as a whole: what any sequence of HTTP requests, channel messages, simulation
  steps and price changes does to its flavors and orders. A request is one run of the endpoint's
  dispatch on the store's router; a channel message is one step of the connection server on the
  store's channels. The last sections follow an order to its delivery and a price to the browser.
\<close>

section \<open>The invariant of the store\<close>

text \<open>Identifiers are distinct and lie between 1 and a bound; every item of an order has one to three
  scoops in a cone or a cup.\<close>

definition ids_ok :: "nat \<Rightarrow> u64 list \<Rightarrow> bool" where
  "ids_ok b ids \<longleftrightarrow> distinct ids \<and> (\<forall>i \<in> set ids. 0 < unat i \<and> unat i \<le> b)"

definition item_ok :: "order_item \<Rightarrow> bool" where
  "item_ok i \<longleftrightarrow> 1 \<le> length (oi_scoop_flavors i) \<and> length (oi_scoop_flavors i) \<le> MAX_SCOOPS
     \<and> (oi_vessel i = ''cone'' \<or> oi_vessel i = ''cup'')"

definition shop_ok :: "nat \<Rightarrow> flavor list \<times> order list \<Rightarrow> bool" where
  "shop_ok b s \<longleftrightarrow> ids_ok b (map fv_id (fst s)) \<and> ids_ok b (map od_id (snd s))
     \<and> (\<forall>d \<in> set (snd s). list_all item_ok (od_items d))"

lemma ids_ok_mono: "ids_ok b ids \<Longrightarrow> b \<le> b' \<Longrightarrow> ids_ok b' ids"
  by (auto simp: ids_ok_def)

lemma shop_ok_mono: "shop_ok b s \<Longrightarrow> b \<le> b' \<Longrightarrow> shop_ok b' s"
  by (auto simp: shop_ok_def intro: ids_ok_mono)

lemma fold_max_ge: "i \<in> insert a (set ids) \<Longrightarrow> i \<le> fold max ids (a :: u64)"
  using Max_ge [of "set (a # ids)" i] unfolding Max.set_eq_fold by simp

lemma fold_max_in: "fold max ids (a :: u64) \<in> insert a (set ids)"
  using Max_in [of "set (a # ids)"] Max.set_eq_fold [of a ids] by simp

lemma ids_ok_next:
  assumes "ids_ok b ids" and "Suc b < 2 ^ 64"
  shows "ids_ok (Suc b) (ids @ [next_id ids])"
proof -
  let ?m = "fold max ids 0"
  have m: "unat ?m \<le> b" using fold_max_in [of ids 0] assms(1) by (auto simp: ids_ok_def)
  then have n: "unat (next_id ids) = Suc (unat ?m)"
    using assms(2) by (simp add: next_id_def unat_word_ariths)
  have "unat i \<le> unat ?m" if "i \<in> set ids" for i
    using fold_max_ge [of i 0 ids] that by (simp add: word_le_nat_alt)
  then have "next_id ids \<notin> set ids" using n by fastforce
  with assms(1) m n show ?thesis by (auto simp: ids_ok_def)
qed

lemma ids_ok_filter: "ids_ok b (map f xs) \<Longrightarrow> ids_ok b (map f (filter p xs))"
  by (auto simp: ids_ok_def distinct_map inj_on_def)

lemma map_update_first: "(\<And>x. g (f x) = g x) \<Longrightarrow> map g (update_first p f xs) = map g xs"
  by (induction xs) auto

lemma update_first_set: "x \<in> set (update_first p f xs) \<Longrightarrow> x \<in> set xs \<or> (\<exists>y \<in> set xs. x = f y)"
  by (induction xs) (auto split: if_splits)

lemma parse_order_item_ok: "parse_order_item v = Some i \<Longrightarrow> item_ok i"
  by (auto simp: parse_order_item_def item_ok_def Let_def MAX_SCOOPS_def Suc_le_eq split: if_splits)

lemma new_order_items: "list_all item_ok (od_items (new_order body t os))"
  by (auto simp: new_order_def unwrap_or_def list_all_iff List.map_filter_def parse_order_item_ok split: option.splits)

subsection \<open>Updates that keep it\<close>

lemma shop_ok_add_flavor:
  "shop_ok b (fs, os) \<Longrightarrow> Suc b < 2 ^ 64 \<Longrightarrow> shop_ok (Suc b) (fs @ [new_flavor body fs], os)"
  using ids_ok_next [of b "map fv_id fs"] ids_ok_mono [of b "map od_id os" "Suc b"]
  by (simp add: shop_ok_def new_flavor_def)

lemma shop_ok_add_order:
  "shop_ok b (fs, os) \<Longrightarrow> Suc b < 2 ^ 64 \<Longrightarrow> shop_ok (Suc b) (fs, os @ [new_order body t os])"
  using ids_ok_next [of b "map od_id os"] ids_ok_mono [of b "map fv_id fs" "Suc b"] new_order_items [of body t os]
  by (auto simp: shop_ok_def new_order_def)

lemma shop_ok_flavors: "shop_ok b (fs, os) \<Longrightarrow> map fv_id fs' = map fv_id fs \<Longrightarrow> shop_ok b (fs', os)"
  by (simp add: shop_ok_def)

lemma shop_ok_order_update:
  assumes "shop_ok b (fs, os)" and "\<And>d. od_id (f d) = od_id d"
    and "\<And>d. list_all item_ok (od_items d) \<Longrightarrow> list_all item_ok (od_items (f d))"
  shows "shop_ok b (fs, update_first p f os)"
  using assms map_update_first [of od_id f p os] by (auto simp: shop_ok_def dest!: update_first_set)

lemma shop_ok_filter:
  "shop_ok b (fs, os) \<Longrightarrow> shop_ok b (filter p fs, os)" "shop_ok b (fs, os) \<Longrightarrow> shop_ok b (fs, filter q os)"
  by (auto simp: shop_ok_def ids_ok_filter)

subsection \<open>Requests keep it\<close>

definition keeps_shop :: "('h web_conn \<Rightarrow> 'h web_conn) \<Rightarrow> bool" where
  "keeps_shop h \<longleftrightarrow> (\<forall>b c. shop_ok b (store_of c) \<longrightarrow> Suc b < 2 ^ 64 \<longrightarrow> shop_ok (Suc b) (store_of (h c)))"

lemma keeps_shop_frame: "(\<And>c. store_of (h c) = store_of c) \<Longrightarrow> keeps_shop h"
  by (auto simp: keeps_shop_def intro: shop_ok_mono)

lemma keeps_shopI: "(\<And>b c. shop_ok b (store_of c) \<Longrightarrow> shop_ok b (store_of (h c))) \<Longrightarrow> keeps_shop h"
  unfolding keeps_shop_def using shop_ok_mono by (meson le_SucI order_refl)

lemma emit_fields [simp]: "wc_flavors (emit n m c) = wc_flavors c" "wc_orders (emit n m c) = wc_orders c"
  by (simp_all add: emit_def split: result.splits)

lemma shop_ok_pair: "shop_ok b (store_of c) \<Longrightarrow> shop_ok b (wc_flavors c, wc_orders c)"
  by (simp add: store_of_def)

lemma store_of_updates [simp]:
  "store_of (c\<lparr>wc_flavors := fs\<rparr>) = (fs, wc_orders c)" "store_of (c\<lparr>wc_orders := os\<rparr>) = (wc_flavors c, os)"
  "store_of (c\<lparr>wc_telemetry := t\<rparr>) = store_of c" "store_of (c\<lparr>wc_pubsub := q\<rparr>) = store_of c"
  "store_of (c\<lparr>wc_sse := cs\<rparr>) = store_of c" "store_of (c\<lparr>wc_sse_next := n\<rparr>) = store_of c"
  "store_of (c\<lparr>wc_streams := ss\<rparr>) = store_of c"
  by (simp_all add: store_of_def)

lemma plain_handlers_keep:
  "keeps_shop (render_home E)" "keeps_shop (render_menu E)" "keeps_shop (render_order E)"
  "keeps_shop (render_order_status E)" "keeps_shop (render_about E)" "keeps_shop (render_flavor E)"
  "keeps_shop (health_plug H)" "keeps_shop (menu_plug E)" "keeps_shop (hours_plug E)" "keeps_shop (about_plug E)"
  "keeps_shop (toppings_plug E)" "keeps_shop (specials_plug E)" "keeps_shop (prices_plug H)"
  by (rule keeps_shop_frame, simp add: render_home_def render_menu_def render_order_def render_order_status_def
      render_about_def render_flavor_def render_template_def health_plug_def menu_plug_def hours_plug_def about_plug_def
      toppings_plug_def specials_plug_def prices_plug_def sse_response_def sse_options_keep_alive_def Let_def
      split: option.splits result.splits prod.splits bool.splits)+

lemma flavor_actions_keep:
  "keeps_shop (flavor_index E)" "keeps_shop (flavor_show E)" "keeps_shop (flavor_create E)"
  "keeps_shop (flavor_update E)" "keeps_shop (flavor_delete E)"
proof -
  show "keeps_shop (flavor_index E)" "keeps_shop (flavor_show E)"
    by (rule keeps_shop_frame, simp add: flavor_index_def flavor_show_def split: option.splits)+
  show "keeps_shop (flavor_create E)"
    unfolding keeps_shop_def
    by (auto simp: flavor_create_def Let_def intro: shop_ok_mono shop_ok_add_flavor shop_ok_pair split: option.splits)
  show "keeps_shop (flavor_update E)"
    by (rule keeps_shopI) (auto simp: flavor_update_def Let_def patch_flavor_def split: option.splits
        intro!: shop_ok_flavors [OF shop_ok_pair] map_update_first)
  show "keeps_shop (flavor_delete E)"
    by (rule keeps_shopI) (auto simp: flavor_delete_def Let_def intro: shop_ok_filter shop_ok_pair)
qed

lemma order_actions_keep:
  "keeps_shop (order_index E)" "keeps_shop (order_show E)" "keeps_shop (order_create E)"
  "keeps_shop (order_update E)" "keeps_shop (order_delete E)"
proof -
  show "keeps_shop (order_index E)" "keeps_shop (order_show E)"
    by (rule keeps_shop_frame, simp add: order_index_def order_show_def split: option.splits)+
  show "keeps_shop (order_create E)"
    unfolding keeps_shop_def
    by (auto simp: order_create_def Let_def intro: shop_ok_mono shop_ok_add_order shop_ok_pair split: option.splits)
  show "keeps_shop (order_update E)"
    by (rule keeps_shopI) (auto simp: order_update_def Let_def patch_order_def split: option.splits
        intro!: shop_ok_order_update [OF shop_ok_pair])
  show "keeps_shop (order_delete E)"
    by (rule keeps_shopI) (auto simp: order_delete_def Let_def intro: shop_ok_filter shop_ok_pair)
qed

lemma plug_handler_keeps: "keeps_shop f \<Longrightarrow> keeps_shop (run_handler (PlugHandler (plug_fn f)))"
  by (simp add: keeps_shop_def)

lemma controller_actions_keep:
  "keeps_shop (run_handler (ControllerHandler (flavor_controller E) ''index''))"
  "keeps_shop (run_handler (ControllerHandler (flavor_controller E) ''show''))"
  "keeps_shop (run_handler (ControllerHandler (flavor_controller E) ''create''))"
  "keeps_shop (run_handler (ControllerHandler (flavor_controller E) ''update''))"
  "keeps_shop (run_handler (ControllerHandler (flavor_controller E) ''delete''))"
  "keeps_shop (run_handler (ControllerHandler (order_controller E) ''index''))"
  "keeps_shop (run_handler (ControllerHandler (order_controller E) ''show''))"
  "keeps_shop (run_handler (ControllerHandler (order_controller E) ''create''))"
  "keeps_shop (run_handler (ControllerHandler (order_controller E) ''update''))"
  "keeps_shop (run_handler (ControllerHandler (order_controller E) ''delete''))"
  using flavor_actions_keep [of E] order_actions_keep [of E]
  by (simp_all add: keeps_shop_def call_action_def flavor_controller_def order_controller_def)

lemma handlers_keep:
  "list_all (\<lambda>(names, h). keeps_shop (run_handler h))
     (map (\<lambda>rt. (rt_pipeline_names rt, rt_handler rt)) (mr_routes (build_router H E)))"
  unfolding build_router_handlers by (simp add: plug_handler_keeps plain_handlers_keep controller_actions_keep)

lemma request_keeps:
  fixes c :: "'h web_conn" and r :: "('h, unit web_conn_ext, 'r) mahalo_router"
  assumes "matchit_laws M" and "serves_shop M H E r"
    and "execute_request M (Some (shop_error_handler H)) [static_plug H b3 F dir] c r = Ok (r', c')"
    and "shop_ok b (store_of c)" and "Suc b < 2 ^ 64"
  shows "shop_ok (Suc b) (store_of c')"
proof -
  have unchanged: "shop_ok (Suc b) (store_of c)" using assms(4) by (rule shop_ok_mono) simp
  have "shop_ok (Suc b) (store_of (run_handler h c1))" if "store_of c1 = store_of c"
    "(names, h) \<in> set (map (\<lambda>rt. (rt_pipeline_names rt, rt_handler rt))
       (mr_routes (build_router H E :: ('h, unit web_conn_ext, 'r) mahalo_router)))" for names h and c1 :: "'h web_conn"
  proof -
    have "keeps_shop (run_handler h)"
      using handlers_keep [where ?'a = 'h and ?'b = 'r, of H E] that(2) unfolding list_all_iff by blast
    moreover have "shop_ok b (store_of c1)" using assms(4) that(1) by simp
    ultimately show ?thesis using assms(5) unfolding keeps_shop_def by blast
  qed
  with unchanged show ?thesis using shop_request [OF assms(1-3)] by fastforce
qed

subsection \<open>Channel messages keep it\<close>

definition world_store :: "shop_world \<Rightarrow> flavor list \<times> order list" where
  "world_store w = (sw_flavors w, sw_orders w)"

definition sw_ok :: "nat \<Rightarrow> shop_sw \<Rightarrow> bool" where
  "sw_ok b s \<longleftrightarrow> shop_ok b (world_store (snd s))"

text \<open>The callbacks of a channel keep the invariant at its bound: they create nothing.\<close>

definition channel_keeps :: "unit shop_world_ext channel \<Rightarrow> bool" where
  "channel_keeps c \<longleftrightarrow> (\<forall>b s. sw_ok b s \<longrightarrow>
     (\<forall>t v. sw_ok b (snd (chn_join c t v s))) \<and> (\<forall>e v. sw_ok b (snd (chn_handle_in c e v s))) \<and>
     (\<forall>m. sw_ok b (snd (chn_handle_info c m s))) \<and> sw_ok b (chn_started c s) \<and> (\<forall>r. sw_ok b (chn_terminate c r s)))"

lemma channel_keepsD:
  assumes "channel_keeps c" and "sw_ok b s"
  shows "sw_ok b (snd (chn_join c t v s))" "sw_ok b (snd (chn_handle_in c e v s))"
    "sw_ok b (snd (chn_handle_info c m s))" "sw_ok b (chn_started c s)" "sw_ok b (chn_terminate c r s)"
  using assms unfolding channel_keeps_def by blast+

lemma socket_ops_frame [simp]:
  "sw_ok b (socket_push J e v s) = sw_ok b s" "sw_ok b (socket_broadcast e v s) = sw_ok b s"
  "sw_ok b (reply_if_ref J msg r s) = sw_ok b s"
  by (auto simp: sw_ok_def socket_push_def socket_broadcast_def reply_if_ref_def socket_reply_def sink_send_def
      world_store_def split: prod.splits option.splits)

lemma world_frame [simp]:
  "world_store (sink_send J msg w) = world_store w" "world_store (subscribe_forwarder t w) = world_store w"
  by (auto simp: world_store_def sink_send_def subscribe_forwarder_def split: option.splits prod.splits bool.splits)

lemma sw_ok_orders:
  assumes "sw_ok b (socket, w)" and "\<And>d. od_id (f d) = od_id d"
    and "\<And>d. list_all item_ok (od_items d) \<Longrightarrow> list_all item_ok (od_items (f d))"
  shows "sw_ok b (socket', w\<lparr>sw_orders := update_first p f (sw_orders w)\<rparr>)"
  using shop_ok_order_update [of b "sw_flavors w" "sw_orders w" f p] assms by (simp add: sw_ok_def world_store_def)

lemma sw_ok_prices:
  assumes "sw_ok b (socket, w)" and "\<And>f. fv_id (g f) = fv_id f"
  shows "sw_ok b (socket', w\<lparr>sw_flavors := update_first p g (sw_flavors w)\<rparr>)"
  using shop_ok_flavors [of b "sw_flavors w" "sw_orders w" "update_first p g (sw_flavors w)"]
    map_update_first [of fv_id g p "sw_flavors w"] assms
  by (simp add: sw_ok_def world_store_def)

lemma order_callbacks_keep:
  assumes "sw_ok b s"
  shows "sw_ok b (snd (order_join t v s))" "sw_ok b (snd (order_handle_in e v s))"
proof -
  obtain socket w where s: "s = (socket, w)" by (cases s)
  show "sw_ok b (snd (order_join t v s))"
    using assms by (simp add: s order_join_def sw_ok_def world_store_def Let_def)
  have "sw_ok b (snd (order_update_status v s))"
    using assms by (auto simp: s order_update_status_def set_status_def Let_def intro!: sw_ok_orders)
  moreover have "sw_ok b (snd (order_add_item v s))"
    using assms parse_order_item_ok [of v]
    by (auto simp: s order_add_item_def Let_def intro!: sw_ok_orders split: option.splits)
  ultimately show "sw_ok b (snd (order_handle_in e v s))" using assms by (simp add: order_handle_in_def)
qed

lemma store_callbacks_keep:
  assumes "sw_ok b s"
  shows "sw_ok b (snd (store_join t v s))" "sw_ok b (snd (store_handle_in J e v s))"
proof -
  obtain socket w where s: "s = (socket, w)" by (cases s)
  have assign: "sw_ok b (socket', w)" for socket' using assms by (simp add: s sw_ok_def)
  then show "sw_ok b (snd (store_join t v s))" by (simp add: s store_join_def Let_def)
  have "sw_ok b (snd (store_update_price v s))"
    using assms by (auto simp: s store_update_price_def Let_def intro!: sw_ok_prices split: option.splits)
  then show "sw_ok b (snd (store_handle_in J e v s))"
    using assms by (simp add: store_handle_in_def store_announcement_def store_request_menu_def Let_def)
qed

lemma support_callbacks_keep:
  "sw_ok b s \<Longrightarrow> sw_ok b (snd (support_join t v s))" "sw_ok b s \<Longrightarrow> sw_ok b (snd (support_handle_in lower e v s))"
  by (simp_all add: support_handle_in_def Let_def) (auto simp: support_join_def sw_ok_def Let_def split: prod.splits)

lemma shop_channels_keep:
  assumes "find_channel (shop_channels J lower) t = Some c"
  shows "channel_keeps c"
proof -
  have "channel_keeps (order_channel J)" "channel_keeps (store_channel J)" "channel_keeps (support_channel J lower)"
    by (auto simp: channel_keeps_def order_channel_def store_channel_def support_channel_def default_handle_info_def
        intro: order_callbacks_keep store_callbacks_keep support_callbacks_keep)
  then show ?thesis
    using assms by (auto simp: shop_channels_def router_channel_def split: if_splits)
qed

definition conn_ok :: "nat \<Rightarrow> unit shop_world_ext conn_state \<Rightarrow> bool" where
  "conn_ok b st \<longleftrightarrow> shop_ok b (world_store (st_world st))"

lemma conn_ok_sw: "conn_ok b st \<longleftrightarrow> sw_ok b (socket, st_world st)"
  by (simp add: conn_ok_def sw_ok_def)

lemma handle_join_keeps:
  assumes "channel_keeps c" and "conn_ok b st"
  shows "conn_ok b (handle_join J msg c st)"
proof -
  let ?s0 = "(socket_new_with_pid (px_topic msg) (st_self_pid st), st_world st)"
  obtain res s1 where j: "chn_join c (px_topic msg) (px_payload msg) ?s0 = (res, s1)" by (rule prod.exhaust)
  have ok1: "sw_ok b s1"
    using channel_keepsD(1) [OF assms(1), of b ?s0] assms(2) j by (metis conn_ok_sw snd_conv)
  then have started: "sw_ok b (chn_started c (reply_if_ref J msg (reply_ok v) s1))" for v
    by (intro channel_keepsD(4) [OF assms(1)]) simp
  have failed: "sw_ok b (reply_if_ref J msg r s1)" for r using ok1 by simp
  show ?thesis
    using started failed unfolding handle_join_def Let_def j
    by (auto simp: conn_ok_def sw_ok_def split: result.splits)
qed

lemma put_joined_keeps: "sw_ok b s \<Longrightarrow> conn_ok b (put_joined t c s st)"
  by (simp add: put_joined_def conn_ok_def sw_ok_def)

lemma handle_leave_keeps:
  assumes "\<And>c sock. map_of (st_joined st) (px_topic msg) = Some (c, sock) \<Longrightarrow> channel_keeps c" and "conn_ok b st"
  shows "conn_ok b (handle_leave J msg st)"
proof (cases "map_of (st_joined st) (px_topic msg)")
  case (Some cs)
  obtain c sock where cs: "cs = (c, sock)" by (rule prod.exhaust)
  have "sw_ok b (reply_if_ref J msg (reply_ok (JObj [])) (chn_terminate c ''leave'' (sock, st_world st)))"
    using channel_keepsD(5) [OF assms(1) [OF Some [unfolded cs]]] assms(2) conn_ok_sw by simp
  with Some cs show ?thesis by (simp add: handle_leave_def Let_def conn_ok_def sw_ok_def)
qed (simp add: handle_leave_def assms(2))

lemma dispatch_event_keeps:
  assumes "\<And>c sock. map_of (st_joined st) (px_topic msg) = Some (c, sock) \<Longrightarrow> channel_keeps c" and "conn_ok b st"
  shows "conn_ok b (dispatch_event J msg st)"
proof (cases "map_of (st_joined st) (px_topic msg)")
  case (Some cs)
  obtain c sock where cs: "cs = (c, sock)" by (rule prod.exhaust)
  obtain res s1 where h: "chn_handle_in c (px_event msg) (px_payload msg) (sock, st_world st) = (res, s1)"
    by (rule prod.exhaust)
  have "sw_ok b s1"
    using channel_keepsD(2) [OF assms(1) [OF Some [unfolded cs]], of b "(sock, st_world st)"] h assms(2)
    by (metis conn_ok_sw snd_conv)
  with Some cs h show ?thesis
    by (auto simp: dispatch_event_def intro!: put_joined_keeps split: result.splits option.splits)
qed (simp add: dispatch_event_def assms(2))

lemma deliver_info_keeps:
  assumes "\<And>c sock. map_of (st_joined st) (pm_topic msg) = Some (c, sock) \<Longrightarrow> channel_keeps c" and "conn_ok b st"
  shows "conn_ok b (deliver_info msg st)"
proof (cases "map_of (st_joined st) (pm_topic msg)")
  case (Some cs)
  obtain c sock where cs: "cs = (c, sock)" by (rule prod.exhaust)
  have "sw_ok b (snd (chn_handle_info c msg (sock, st_world st)))"
    using channel_keepsD(3) [OF assms(1) [OF Some [unfolded cs]]] assms(2) conn_ok_sw by blast
  with Some cs show ?thesis by (simp add: deliver_info_def put_joined_keeps)
qed (simp add: deliver_info_def assms(2))

lemma mail_keeps:
  assumes "joined_ok (shop_channels J lower) st" and "conn_ok b st"
  shows "conn_ok b (mail_step J (shop_channels J lower) m st)"
proof -
  have joined: "channel_keeps c" if "map_of (st_joined st) t = Some (c, sock)" for t c sock
    using assms(1) that shop_channels_keep unfolding joined_ok_def by blast
  have cast: "conn_ok b (handle_cast J (shop_channels J lower) t st)" for t
    using handle_leave_keeps [OF joined assms(2)] dispatch_event_keeps [OF joined assms(2)]
      handle_join_keeps [OF shop_channels_keep assms(2)] assms(2)
    by (auto simp: handle_cast_def handle_heartbeat_def conn_ok_def split: option.splits)
  have "conn_ok b (handle_info J t st)" for t
    using deliver_info_keeps [OF joined assms(2)] assms(2)
    by (auto simp: handle_info_def split: option.splits)
  with cast show ?thesis by (simp add: mail_step_def split: mail.splits)
qed

subsection \<open>The price thread keeps it\<close>

lemma sint_nonneg_uint:
  assumes "0 \<le> sint (w :: u64)"
  shows "uint w = sint w \<and> sint w < 2 ^ 63"
proof -
  have "sint w < 2 ^ 63" using signed_take_bit_int_less_exp [of 63 "uint w"] by (simp add: sint_uint)
  then show ?thesis using assms take_bit_int_eq_self [of "sint w" 64] by (simp add: uint_sint)
qed

lemma sint_small:
  assumes "uint (w :: u64) < 2 ^ 63"
  shows "sint w = uint w"
proof -
  have "- (2 ^ 63) \<le> uint w" by (rule order_trans [of _ 0]) simp_all
  with assms show ?thesis by (simp add: sint_uint signed_take_bit_int_eq_self)
qed

lemma sint_shift:
  assumes "uint (p :: u64) < 2 ^ 63 - 25" and "uint (m :: u64) < 51"
  shows "sint (p + (m - 25)) = uint p + uint m - 25"
proof -
  have m: "sint m = uint m" and p: "sint p = uint p" using assms by (simp_all add: sint_small)
  have m0: "0 \<le> uint m" and p0: "0 \<le> uint p" by simp_all
  have "sint (25 :: u64) = 25" by (simp add: sint_small)
  then have "sint (m - 25) = uint m - 25"
    unfolding sint_word_diff m using assms(2) m0 by (simp add: signed_take_bit_int_eq_self)
  then show ?thesis
    unfolding sint_word_add p using assms m0 p0 by (simp add: signed_take_bit_int_eq_self)
qed

lemma price_tick_Some:
  assumes "price_tick seed (tick, fs, q) = Some (tick', fs', q')"
  shows "tick' = tick + 1 \<and> fs \<noteq> [] \<and> (let i = unat tick' mod length fs; f = fs ! i in
     fs' = fs[i := f\<lparr>fv_price_cents := fluctuate tick' seed i (fv_price_cents f)\<rparr>])"
  using assms by (auto simp: price_tick_def price_update_def Let_def split: if_splits)

lemma price_tick_ids: "price_tick seed (tick, fs, q) = Some (tick', fs', q') \<Longrightarrow> map fv_id fs' = map fv_id fs"
  by (drule price_tick_Some) (auto simp: Let_def map_update list_update_id [of "map fv_id fs", symmetric]
      intro!: list_update_same_conv [THEN iffD2])

section \<open>Runs of the store\<close>

inductive shop_step ::
  "'r matchit \<Rightarrow> 'h http_api \<Rightarrow> shop_env \<Rightarrow> json_api \<Rightarrow> (string \<Rightarrow> string) \<Rightarrow> (bytes \<Rightarrow> string) \<Rightarrow> fs \<Rightarrow> string \<Rightarrow> u64
    \<Rightarrow> flavor list \<times> order list \<Rightarrow> flavor list \<times> order list \<Rightarrow> bool"
  for M :: "'r matchit" and H :: "'h http_api" and E J lower b3 F dir seed where
  step_request: "serves_shop M H E r \<Longrightarrow>
    execute_request M (Some (shop_error_handler H)) [static_plug H b3 F dir] c r = Ok (r', c') \<Longrightarrow>
    shop_step M H E J lower b3 F dir seed (store_of c) (store_of c')"
| step_message: "joined_ok (shop_channels J lower) st \<Longrightarrow>
    shop_step M H E J lower b3 F dir seed (world_store (st_world st))
      (world_store (st_world (mail_step J (shop_channels J lower) m st)))"
| step_simulation: "sim_tick topic order_id status (os, q) = (os', q') \<Longrightarrow>
    shop_step M H E J lower b3 F dir seed (fs, os) (fs, os')"
| step_price: "price_tick seed (tick, fs, q) = Some (tick', fs', q') \<Longrightarrow>
    shop_step M H E J lower b3 F dir seed (fs, os) (fs', os)"

text \<open>The states reached in a number of steps from the seed data.\<close>

inductive shop_run ::
  "'r matchit \<Rightarrow> 'h http_api \<Rightarrow> shop_env \<Rightarrow> json_api \<Rightarrow> (string \<Rightarrow> string) \<Rightarrow> (bytes \<Rightarrow> string) \<Rightarrow> fs \<Rightarrow> string \<Rightarrow> u64
    \<Rightarrow> nat \<Rightarrow> flavor list \<times> order list \<Rightarrow> bool"
  for M :: "'r matchit" and H :: "'h http_api" and E J lower b3 F dir seed where
  run_start: "shop_run M H E J lower b3 F dir seed 0 StoreData_new"
| run_step: "shop_run M H E J lower b3 F dir seed n s \<Longrightarrow> shop_step M H E J lower b3 F dir seed s s' \<Longrightarrow>
    shop_run M H E J lower b3 F dir seed (Suc n) s'"

lemma shop_step_keeps:
  assumes "matchit_laws M" and "shop_step M H E J lower b3 F dir seed s s'" and "shop_ok b s" and "Suc b < 2 ^ 64"
  shows "shop_ok (Suc b) s'"
  using assms(2)
proof cases
  case (step_request r c r' c')
  with request_keeps [OF assms(1) step_request(3,4)] assms(3,4) show ?thesis by simp
next
  case (step_message st m)
  with mail_keeps [OF step_message(3), of b m] assms(3) show ?thesis
    by (auto simp: conn_ok_def intro: shop_ok_mono)
next
  case (step_simulation topic order_id status os q os' q' fs)
  with assms(3) have "shop_ok b (fs, os')"
    by (auto simp: sim_tick_def set_status_def intro!: shop_ok_order_update)
  then have "shop_ok (Suc b) (fs, os')" by (rule shop_ok_mono) simp
  with step_simulation show ?thesis by simp
next
  case (step_price tick fs q tick' fs' q' os)
  with assms(3) have "shop_ok b (fs', os)"
    using shop_ok_flavors [OF _ price_tick_ids [OF step_price(3)]] by simp
  then have "shop_ok (Suc b) (fs', os)" by (rule shop_ok_mono) simp
  with step_price show ?thesis by simp
qed

lemma seed_ids: "map fv_id (fst StoreData_new) = [1, 2, 3, 4, 5, 6, 7]" "snd StoreData_new = []"
  by (simp_all add: StoreData_new_def)

lemma seed_ok: "shop_ok 7 StoreData_new"
  by (simp add: shop_ok_def seed_ids ids_ok_def)

lemma shop_run_ok:
  assumes "matchit_laws M" and "shop_run M H E J lower b3 F dir seed n s" and "n + 7 < 2 ^ 64"
  shows "shop_ok (n + 7) s"
  using assms(2,3)
proof induction
  case run_start
  show ?case using seed_ok by simp
next
  case (run_step n s s')
  with shop_step_keeps [OF assms(1) run_step(2), of "n + 7"] show ?case by simp
qed

section \<open>Properties\<close>

text \<open>C11: Whatever requests, channel messages, simulation steps and price changes happen, and in whatever
  order, the store stays well formed: no two flavors and no two orders share an identifier, none has
  the identifier 0 that unreadable path and topic numbers stand for, and every ordered item has one to
  three scoops in a cone or a cup. The bound on the number of steps excludes the wrap-around of the
  identifiers.\<close>

theorem shop_invariant:
  assumes "matchit_laws M" and "shop_run M H E J lower b3 F dir seed n (fs, os)" and "n + 7 < 2 ^ 64"
  shows "distinct (map fv_id fs) \<and> distinct (map od_id os) \<and> (\<forall>f \<in> set fs. fv_id f \<noteq> 0) \<and> (\<forall>d \<in> set os. od_id d \<noteq> 0) \<and>
     (\<forall>d \<in> set os. \<forall>i \<in> set (od_items d). 1 \<le> length (oi_scoop_flavors i) \<and> length (oi_scoop_flavors i) \<le> 3 \<and>
        oi_vessel i \<in> {''cone'', ''cup''})"
  using shop_run_ok [OF assms]
  by (auto simp: shop_ok_def ids_ok_def list_all_iff item_ok_def MAX_SCOOPS_def)

theorem shop_invariant_witness:
  "\<exists>os. shop_run list_matchit list_http demo_shop_env demo_json id (\<lambda>_. []) demo_fs [] 5 1 (fst StoreData_new, os)
     \<and> distinct (map fv_id (fst StoreData_new)) \<and> distinct (map od_id os)"
proof -
  let ?run = "shop_run list_matchit list_http demo_shop_env demo_json id (\<lambda>_. []) demo_fs [] 5"
  obtain os q where t: "sim_tick [] 1 ''ready'' ([], \<lparr>sq_alive = True, sq_cmds = []\<rparr>) = (os, q)" by (rule prod.exhaust)
  have "?run 0 (fst StoreData_new, [])"
    using shop_run.run_start [of list_matchit list_http] by (simp add: seed_ids(2) [symmetric])
  from run_step [OF this step_simulation [OF t]] have "?run 1 (fst StoreData_new, os)" by simp
  with shop_invariant [OF matchit_laws_list this] show ?thesis by auto
qed

text \<open>A price change stays within bounds: whatever the stored price, even one set to the largest
  64-bit number, the new price is at least two dollars and below \<open>2 ^ 63\<close>; from a price between two
  dollars and that range it moves by at most 25 cents.\<close>

theorem price_change_bounded:
  "200 \<le> uint (fluctuate tick seed i p) \<and> uint (fluctuate tick seed i p) < 2 ^ 63 \<and>
   (200 \<le> uint p \<and> uint p < 2 ^ 63 - 25 \<longrightarrow> \<bar>uint (fluctuate tick seed i p) - uint p\<bar> \<le> 25)"
proof -
  define m :: u64 where "m = (tick * 7 + of_nat i * 13 + seed) mod 51"
  define w where "w = p + (m - 25)"
  have f: "fluctuate tick seed i p = (if sint w < 200 then 200 else w)"
    by (simp add: fluctuate_def Let_def w_def m_def word_sless_alt sint_small)
  obtain k where k: "uint m = k" "0 \<le> k" "k < 51" by (simp add: m_def uint_mod)
  have near: "\<bar>uint m - 25\<bar> \<le> 25" unfolding k(1) using k(2,3) by arith
  have hi: "uint w = sint w \<and> sint w < 2 ^ 63" if "\<not> sint w < 200" using sint_nonneg_uint [of w] that by simp
  show ?thesis
  proof (cases "sint w < 200")
    case True
    then show ?thesis using sint_shift [of p m] k near by (auto simp: f w_def)
  next
    case False
    then show ?thesis using sint_shift [of p m] k near hi by (auto simp: f w_def)
  qed
qed

theorem price_change_bounded_witness: "\<bar>uint (fluctuate 3 9 1 450) - 450\<bar> \<le> 25"
  using price_change_bounded [of 3 9 1 450] by simp

section \<open>From an order to its delivery\<close>

lemma find_update_first:
  assumes "List.find p xs = Some x" and "p (f x)"
  shows "List.find p (update_first p f xs) = Some (f x)"
  using assms by (induction xs) (auto split: if_splits)

lemma update_first_twice: "(\<And>x. p x \<Longrightarrow> p (f x)) \<Longrightarrow> update_first p g (update_first p f xs) = update_first p (g \<circ> f) xs"
  by (induction xs) auto

lemma set_status_twice: "set_status i t (set_status i s ds) = set_status i t ds"
  unfolding set_status_def by (subst update_first_twice) (simp_all add: comp_def)

lemma parse_u64_nat_to_string [simp]: "parse_u64 (nat_to_string (unat i)) = Some i"
proof -
  have "parse_usize (nat_to_string (unat i)) = Some (unat i)"
    using unsigned_less [of i] by (intro parse_usize_nat_to_string) simp
  then show ?thesis by (simp add: parse_u64_def)
qed

lemma parse_order_topic: "parse_order_id (order_topic i) = i"
  by (simp add: parse_order_id_def order_topic_def unwrap_or_def)


definition demo_shop_world :: shop_world where
  "demo_shop_world =
     \<lparr>cw_out = [], cw_out_open = True, cw_pubsub = \<lparr>sq_alive = True, sq_cmds = []\<rparr>, cw_timers = [], cw_forwarders = [],
      sw_flavors = [], sw_orders = [new_order JNull ''5s'' []], sw_sims = []\<rparr>"


section \<open>From a price to the browser\<close>

definition price_event :: "shop_env \<Rightarrow> json \<Rightarrow> event" where
  "price_event E v = event_json_data (Ok (sh_to_string E v)) (event_event ''price_updated'' event_default)"

lemma price_stream_open:
  assumes "ch_open (cs (sse_tx s))"
  shows "price_stream E s ms cs =
    (True, sse_send_all s (map (\<lambda>m. price_event E (pm_payload m)) (filter (\<lambda>m. pm_event m = ''price_updated'') ms)) cs)"
  using assms
  by (induction ms arbitrary: cs) (simp_all add: price_event_def sse_send_all_def sse_send_def chan_send_def)

text \<open>C21: The price stream shows every price: a browser that opened it decodes exactly the price updates
  broadcast to \<open>prices\<close> since its subscription, each once and in order, with the JSON text of the
  update as data, until the topic is unsubscribed or the PubSub server stops. This is for JSON text
  without line breaks, as \<open>to_string\<close> writes it.\<close>

theorem prices_reach_browser:
  assumes "ps = fst (run_server before pubsub_init)" and "DropReceiver (ps_next ps) \<notin> set after"
    and "ch_open (cs i)" and "ch_queue (cs i) = []" and "\<forall>v. one_line (sh_to_string E v) \<and> sh_to_string E v \<noteq> []"
  shows "\<exists>cs'. price_stream E \<lparr>sse_tx = i\<rparr>
      (ch_queue (ps_chans (fst (run_server (Cmd (Subscribe ''prices'') # after) ps)) (ps_next ps))) cs = (True, cs') \<and>
    sse_decode (concat (ch_queue (cs' i))) =
      map (\<lambda>m. \<lparr>sm_data = Some (sh_to_string E (pm_payload m)), sm_event = Some ''price_updated'', sm_id = None, sm_retry = None\<rparr>)
        (filter (\<lambda>m. pm_event m = ''price_updated'') (expected ''prices'' after))"
proof -
  let ?s = "\<lparr>sse_tx = i\<rparr>"
  have q: "ch_queue (ps_chans (fst (run_server (Cmd (Subscribe ''prices'') # after) ps)) (ps_next ps)) = expected ''prices'' after"
    by (rule new_subscriber_queue [OF _ assms(2)]) (simp add: assms(1) ps_inv_run ps_inv_init)
  define es where "es = map (\<lambda>m. price_event E (pm_payload m))
    (filter (\<lambda>m. pm_event m = ''price_updated'') (expected ''prices'' after))"
  have "event_clean (price_event E v)" for v
    using assms(5) [rule_format, of v] by (auto simp: event_clean_def price_event_def event_json_data_def event_event_def event_default_def
        one_line_def ends_with_iff)
  then have "sse_decode (concat (map serialize es)) = map event_message es"
    by (intro sse_decode_events) (auto simp: es_def)
  moreover have "event_message (price_event E v) =
      \<lparr>sm_data = Some (sh_to_string E v), sm_event = Some ''price_updated'', sm_id = None, sm_retry = None\<rparr>" for v
    by (simp add: event_message_def price_event_def event_json_data_def event_event_def event_default_def)
  moreover have "price_stream E ?s (expected ''prices'' after) cs = (True, sse_send_all ?s es cs)"
    using price_stream_open [of cs ?s E] assms(3) by (simp add: es_def)
  moreover have "ch_queue (sse_send_all ?s es cs i) = map serialize es"
    using sse_send_all_queue [of cs ?s es] assms(3,4) by simp
  ultimately show ?thesis unfolding q by (simp add: es_def)
qed

theorem prices_reach_browser_witness:
  "\<exists>cs'. price_stream (demo_shop_env\<lparr>sh_to_string := (\<lambda>_. ''{}'')\<rparr>) \<lparr>sse_tx = 0\<rparr>
      (ch_queue (ps_chans (fst (run_server [Cmd (Subscribe ''prices''), Cmd (Broadcast ''prices''
         \<lparr>pm_topic = ''prices'', pm_event = ''price_updated'', pm_payload = JNull\<rparr>)] pubsub_init)) 0)) (\<lambda>_. chan_new)
      = (True, cs') \<and> length (sse_decode (concat (ch_queue (cs' 0)))) = 1"
proof -
  let ?E = "demo_shop_env\<lparr>sh_to_string := (\<lambda>_. ''{}'')\<rparr>"
  let ?after = "[Cmd (Broadcast ''prices'' \<lparr>pm_topic = ''prices'', pm_event = ''price_updated'', pm_payload = JNull\<rparr>)]"
  have "\<forall>v. one_line (sh_to_string ?E v) \<and> sh_to_string ?E v \<noteq> []" by (simp add: one_line_def)
  from prices_reach_browser [of pubsub_init "[]" ?after "\<lambda>_. chan_new" 0, OF _ _ _ _ this]
  show ?thesis by (auto simp: chan_new_def pubsub_init_def simp del: run_server.simps(3))
qed

section \<open>An empty shop\<close>

lemma digit_char_ascii: "d < 10 \<Longrightarrow> u8_of_char (digit_char d) < 0x80"
proof -
  have "\<forall>d \<in> set [0..<10]. u8_of_char (digit_char d) < 0x80" by code_simp
  then show "d < 10 \<Longrightarrow> u8_of_char (digit_char d) < 0x80" by simp
qed

definition with_id :: "u64 \<Rightarrow> 'h web_conn \<Rightarrow> 'h web_conn" where
  "with_id i c = c\<lparr>conn_path_params := [(''id'', as_bytes (nat_to_string (unat i)))]\<rparr>"

lemma parse_with_id [simp]: "parse_id_param (with_id i c) = i" "wc_flavors (with_id i c) = wc_flavors c"
proof -
  have "from_utf8 (as_bytes (nat_to_string (unat i))) = Some (nat_to_string (unat i))"
    by (intro from_utf8_ascii ballI) (auto dest!: nat_to_string_digits simp: digit_char_ascii)
  then show "parse_id_param (with_id i c) = i"
    by (simp add: with_id_def parse_id_param_def path_param_def unwrap_or_def)
qed (simp add: with_id_def)

lemma flavor_delete_flavors: "wc_flavors (flavor_delete E c) = filter (\<lambda>f. fv_id f \<noteq> parse_id_param c) (wc_flavors c)"
  by (simp add: flavor_delete_def Let_def respond_text_def put_status_def put_resp_body_def)

lemma delete_all_flavors:
  "wc_flavors (fold (\<lambda>i c. call_action (flavor_controller E) ''delete'' (with_id i c)) ids c) =
     filter (\<lambda>f. fv_id f \<notin> set ids) (wc_flavors c)"
  by (induction ids arbitrary: c)
    (auto simp: call_action_def flavor_controller_def flavor_delete_flavors intro!: filter_cong)


end
