(* ===== verification/Shop_Orders.thy ===== *)
theory Shop_Orders
  imports Ice_Cream_Shop
begin

text \<open>
  Placing an order in the ice cream store, across its components: the controller that stores the
  order and announces it, the PubSub server that delivers the announcement, and the controller and
  the channel that show the order afterwards.
\<close>

section \<open>Fresh identifiers\<close>

lemma next_id_fresh:
  assumes "- 1 \<notin> set ids"
  shows "next_id ids \<notin> set ids" and "next_id ids \<noteq> 0"
proof -
  let ?m = "fold max ids (0 :: u64)"
  have m: "1 + ?m \<noteq> 0"
  proof
    assume "1 + ?m = 0"
    then have "?m = - 1" by (metis add.commute eq_neg_iff_add_eq_0)
    with fold_max_in [of ids 0] assms show False by auto
  qed
  from unatSuc [OF this] have "?m < next_id ids" by (simp add: next_id_def word_less_nat_alt add.commute)
  then show "next_id ids \<notin> set ids" using fold_max_ge [of "next_id ids" 0 ids] by auto
  show "next_id ids \<noteq> 0" using m by (simp add: next_id_def add.commute)
qed

section \<open>What creating an order does\<close>

lemma emit_ok:
  assumes "0 \<le> wc_now c"
  obtains t where "emit name meta c = c\<lparr>wc_telemetry := t\<rparr>"
proof -
  obtain t where "execute 1 (\<lambda>_ _. []) (\<lambda>_. wc_now c div 10 ^ 6) name Map.empty meta (wc_telemetry c) = Ok t"
    using execute_plain [of "wc_telemetry c" "\<lambda>_ _. []" "\<lambda>_. wc_now c div 10 ^ 6" 1 name Map.empty meta] assms
    by (auto simp: pos_imp_zdiv_nonneg_iff)
  then show ?thesis by (intro that [of t]) (simp add: emit_def)
qed

lemma order_create_ok:
  assumes "sh_from_slice E (conn_body c) = Some body" and "0 \<le> wc_now c"
  obtains created t where "chrono_now (wc_now c) = Some created"
    and "order_create E c = respond_json E 201 (order_to_json (new_order body created (wc_orders c)))
      (c\<lparr>wc_orders := wc_orders c @ [new_order body created (wc_orders c)], wc_telemetry := t,
         wc_pubsub := pubsub_broadcast (order_topic (od_id (new_order body created (wc_orders c)))) ''order_created''
           (JObj [(''order_id'', json_u64 (od_id (new_order body created (wc_orders c))))]) (wc_pubsub c)\<rparr>)"
proof -
  obtain created where now: "chrono_now (wc_now c) = Some created"
    using assms(2) by (simp add: chrono_now_def)
  let ?d = "new_order body created (wc_orders c)"
  obtain t where "emit [''ice_cream'', ''order'', ''placed''] [''order_id'' \<mapsto> json_u64 (od_id ?d)]
      (c\<lparr>wc_orders := wc_orders c @ [?d]\<rparr>) = c\<lparr>wc_orders := wc_orders c @ [?d], wc_telemetry := t\<rparr>"
    by (rule emit_ok [of "c\<lparr>wc_orders := wc_orders c @ [?d]\<rparr>"]) (use assms(2) in auto)
  then show ?thesis using assms(1) now by (intro that [of created t]) (simp_all add: order_create_def Let_def)
qed

section \<open>Properties\<close>

text \<open>C24: An order that is placed can be read back and is announced. With a readable body, creating an
  order answers 201 without stopping the process, appends the order, which is pending and has an
  identifier that no other order has, and leaves the others and the flavors alone; showing the
  order of that identifier then answers with the same text; joining its channel reports it as
  pending; and exactly one announcement, for the topic of the order, goes to the PubSub server. An
  unreadable body is answered 400 and changes neither flavors nor orders.\<close>

theorem placed_order_readable:
  assumes "0 \<le> wc_now c" and "sq_alive (wc_pubsub c)" and "- 1 \<notin> set (map od_id (wc_orders c))"
  shows "case sh_from_slice E (conn_body c) of
      None \<Rightarrow> store_of (order_create E c) = store_of c \<and> conn_status (order_create E c) = 400
    | Some body \<Rightarrow>
        (\<exists>created d. let c' = order_create E c in
           d = new_order body created (wc_orders c) \<and> od_status d = ''pending'' \<and> od_id d \<notin> set (map od_id (wc_orders c)) \<and>
           store_of c' = (wc_flavors c, wc_orders c @ [d]) \<and> conn_status c' = 201 \<and> wc_aborted c' = wc_aborted c \<and>
           conn_status (order_show E (with_id (od_id d) c')) = 200 \<and>
           conn_resp_body (order_show E (with_id (od_id d) c')) = conn_resp_body c' \<and>
           fst (order_join (order_topic (od_id d)) JNull (socket, w\<lparr>sw_orders := wc_orders c'\<rparr>)) =
             Ok (JObj [(''status'', JStr ''pending''), (''customer'', JStr ''Guest'')]) \<and>
           sq_cmds (wc_pubsub c') = sq_cmds (wc_pubsub c) @
             [Broadcast (order_topic (od_id d)) \<lparr>pm_topic = order_topic (od_id d), pm_event = ''order_created'',
                pm_payload = JObj [(''order_id'', json_u64 (od_id d))]\<rparr>])"
proof (cases "sh_from_slice E (conn_body c)")
  case None
  then show ?thesis by (simp add: order_create_def respond_text_def put_status_def put_resp_body_def store_of_def)
next
  case (Some body)
  obtain created t where created: "chrono_now (wc_now c) = Some created"
    and c': "order_create E c = respond_json E 201 (order_to_json (new_order body created (wc_orders c)))
      (c\<lparr>wc_orders := wc_orders c @ [new_order body created (wc_orders c)], wc_telemetry := t,
         wc_pubsub := pubsub_broadcast (order_topic (od_id (new_order body created (wc_orders c)))) ''order_created''
           (JObj [(''order_id'', json_u64 (od_id (new_order body created (wc_orders c))))]) (wc_pubsub c)\<rparr>)"
    by (rule order_create_ok [OF Some assms(1)])
  define d where "d = new_order body created (wc_orders c)"
  have d: "od_status d = ''pending''" "od_id d \<notin> set (map od_id (wc_orders c))"
    using next_id_fresh(1) [OF assms(3)] by (simp_all add: d_def new_order_def)
  have found: "List.find (\<lambda>x. od_id x = od_id d) (wc_orders c @ [d]) = Some d"
  proof -
    have "List.find (\<lambda>x. od_id x = od_id d) (wc_orders c) = None" using d(2) unfolding find_None_iff set_map by (metis imageI)
    then show ?thesis by (simp add: find_append)
  qed
  show ?thesis
    unfolding Some option.case c' d_def [symmetric] Let_def
    by (intro exI [of _ created] exI [of _ d])
      (use d(2) in \<open>simp add: d d_def [symmetric] found assms(2) order_show_def respond_json_def put_status_def put_resp_body_def store_of_def
        order_join_def parse_order_topic customer_of_def json_index_def as_str_def unwrap_or_def
        pubsub_broadcast_def broadcast_arc_def cmd_send_def Let_def with_id_def parse_with_id(1) [unfolded with_id_def]\<close>)
qed

theorem placed_order_readable_witness:
  "\<exists>d. wc_orders (order_create demo_shop_env (demo_web_conn POST ''/api/orders'')) = [d] \<and> od_id d = 1 \<and>
     conn_status (order_show demo_shop_env (with_id 1 (order_create demo_shop_env (demo_web_conn POST ''/api/orders'')))) = 200"
proof -
  let ?c = "demo_web_conn POST ''/api/orders''"
  have c: "0 \<le> wc_now ?c" "sq_alive (wc_pubsub ?c)" "wc_orders ?c = []"
    by (simp_all add: demo_web_conn_def conn.defs web_conn.defs conn_new_def)
  moreover have "sh_from_slice demo_shop_env (conn_body ?c) = Some JNull" by (simp add: demo_shop_env_def)
  ultimately obtain created d where "d = new_order JNull created []"
    "store_of (order_create demo_shop_env ?c) = (wc_flavors ?c, [d])"
    "conn_status (order_show demo_shop_env (with_id (od_id d) (order_create demo_shop_env ?c))) = 200"
    using placed_order_readable [of ?c demo_shop_env "socket_new []" demo_shop_world] by (auto simp: Let_def)
  moreover have "od_id (new_order JNull created []) = 1" by (simp add: new_order_def next_id_def)
  ultimately show ?thesis by (auto simp: store_of_def)
qed

end
