(* ===== verification/Bench_Data.thy ===== *)
theory Bench_Data
  imports Shop_Data "HOL-Library.Char_ord" "HOL-Library.List_Lexorder" "HOL-Library.Multiset"
begin

text \<open>
  The data and helpers that the benchmark servers share, \<open>bench/src/shared.rs\<close>: the simulated
  database rows, the reading of query parameters and the page of fortunes. Random numbers are a
  parameter, \<open>rng k n\<close> being the \<open>k\<close>-th draw of a thread's generator when it is asked for a
  number below \<open>n\<close>. The page is shown to be readable: a reader that takes the table apart and undoes
  the escaping gets back the rows, sorted by message.
\<close>

section \<open>Definitions\<close>

type_synonym i32 = "32 word"
type_synonym rand_rng = "nat \<Rightarrow> nat \<Rightarrow> nat"

definition rng_laws :: "rand_rng \<Rightarrow> bool" where
  "rng_laws rng \<longleftrightarrow> (\<forall>k n. 0 < n \<longrightarrow> rng k n < n)"

text \<open>\<open>env\<close> is what \<open>std::env::var("PORT").ok()\<close> gives.\<close>

definition parse_port :: "string option \<Rightarrow> u16 \<Rightarrow> u16" where
  "parse_port env fallback =
     unwrap_or (Option.bind env (\<lambda>p. Option.bind (parse_usize p)
       (\<lambda>n. if n < 2 ^ 16 then Some (of_nat n) else None))) fallback"

record world =
  wd_id :: i32
  wd_random_number :: i32

record fortune =
  fo_id :: i32
  fo_message :: string

text \<open>\<open>random_range(1..=10_000)\<close>.\<close>

definition random_number :: "rand_rng \<Rightarrow> nat \<Rightarrow> i32" where
  "random_number rng k = 1 + of_nat (rng k 10000)"

definition world_rows :: "rand_rng \<Rightarrow> world list" where
  "world_rows rng = map (\<lambda>i. \<lparr>wd_id = of_nat i, wd_random_number = random_number rng (i - 1)\<rparr>) [1..<10001]"

definition fortune_rows :: "fortune list" where
  \<open>fortune_rows =
    [\<lparr>fo_id = 1, fo_message = ''fortune: No such file or directory''\<rparr>,
     \<lparr>fo_id = 2, fo_message = ''A computer scientist is someone who fixes things that aren't broken.''\<rparr>,
     \<lparr>fo_id = 3, fo_message = ''After all is said and done, more is said than done.''\<rparr>,
     \<lparr>fo_id = 4, fo_message = ''Any program that runs right is obsolete.''\<rparr>,
     \<lparr>fo_id = 5, fo_message = ''A list is only as strong as its weakest link. '' @ [CHR 0xE2, CHR 0x80, CHR 0x94]
        @ '' Donald Knuth''\<rparr>,
     \<lparr>fo_id = 6, fo_message = ''Feature: A bug with seniority.''\<rparr>,
     \<lparr>fo_id = 7, fo_message = ''Computers make very fast, very accurate mistakes.''\<rparr>,
     \<lparr>fo_id = 8, fo_message = ''<script>alert("This should not be displayed in a browser alert box.");</script>''\<rparr>,
     \<lparr>fo_id = 9, fo_message = ''A computer program does what you tell it to do, not what you want it to do.''\<rparr>,
     \<lparr>fo_id = 10, fo_message = ''If Java had true garbage collection, most programs would delete themselves upon ''
        @ ''execution.''\<rparr>,
     \<lparr>fo_id = 11, fo_message = 
        [CHR 0xE3, CHR 0x83, CHR 0x95, CHR 0xE3, CHR 0x83, CHR 0xAC, CHR 0xE3, CHR 0x83, CHR 0xBC, CHR 0xE3, CHR 0x83, CHR 0xA0, CHR 0xE3, CHR 0x83, CHR 0xAF, CHR 0xE3, CHR 0x83, CHR 0xBC, CHR 0xE3, CHR 0x82, CHR 0xAF, CHR 0xE3, CHR 0x81, CHR 0xAE, CHR 0xE3, CHR 0x83, CHR 0x99, CHR 0xE3, CHR 0x83, CHR 0xB3, CHR 0xE3, CHR 0x83, CHR 0x81, CHR 0xE3, CHR 0x83, CHR 0x9E, CHR 0xE3, CHR 0x83, CHR 0xBC, CHR 0xE3, CHR 0x82, CHR 0xAF]\<rparr>,
     \<lparr>fo_id = 12, fo_message = ''The best thing about a boolean is even if you are wrong, you are only off by a bit.''\<rparr>]\<close>

definition parse_count :: "string option \<Rightarrow> nat" where
  "parse_count raw = max 1 (min 500 (unwrap_or (Option.bind raw parse_usize) 1))"

text \<open>\<open>str::split_once\<close> and \<open>Iterator::find_map\<close>.\<close>

definition split_once :: "'a \<Rightarrow> 'a list \<Rightarrow> ('a list \<times> 'a list) option" where
  "split_once d s = (case dropWhile (\<lambda>c. c \<noteq> d) s of [] \<Rightarrow> None | _ # v \<Rightarrow> Some (takeWhile (\<lambda>c. c \<noteq> d) s, v))"

fun find_map :: "('a \<Rightarrow> 'b option) \<Rightarrow> 'a list \<Rightarrow> 'b option" where
  "find_map f [] = None"
| "find_map f (x # xs) = (case f x of Some y \<Rightarrow> Some y | None \<Rightarrow> find_map f xs)"

definition parse_query_param :: "string \<Rightarrow> string \<Rightarrow> string option" where
  "parse_query_param query key =
     find_map (\<lambda>pair. case split_once (CHR ''='') pair of None \<Rightarrow> None | Some (k, v) \<Rightarrow> if k = key then Some v else None)
       (split_on (CHR ''&'') query)"

definition itoa_str :: "i32 \<Rightarrow> string" where
  "itoa_str n = (if sint n < 0 then CHR ''-'' # nat_to_string (nat (- sint n)) else nat_to_string (nat (sint n)))"

definition escape_char :: "char \<Rightarrow> string" where
  "escape_char c =
     (if c = CHR ''&'' then ''&amp;'' else if c = CHR ''<'' then ''&lt;'' else if c = CHR ''>'' then ''&gt;''
      else if c = CHR 0x22 then ''&quot;'' else if c = CHR 0x27 then ''&#x27;'' else [c])"

definition escape_html :: "string \<Rightarrow> string \<Rightarrow> string" where
  "escape_html out s = foldl (\<lambda>out c. out @ escape_char c) out s"

definition fortune_list :: "fortune list \<Rightarrow> (i32 \<times> string) list" where
  "fortune_list db_rows =
     sort_key snd (map (\<lambda>f. (fo_id f, fo_message f)) db_rows @ [(0, ''Additional fortune added at request time.'')])"

definition fortunes_head :: string where
  "fortunes_head =
     ''<!DOCTYPE html><html><head><title>Fortunes</title></head><body><table><tr><th>id</th><th>message</th></tr>''"

definition render_fortunes_html :: "fortune list \<Rightarrow> string" where
  "render_fortunes_html db_rows =
     foldl (\<lambda>html (i, msg). escape_html (html @ ''<tr><td>'' @ itoa_str i @ ''</td><td>'') msg @ ''</td></tr>'')
       fortunes_head (fortune_list db_rows)
     @ ''</table></body></html>''"

record user =
  us_id :: u64
  us_name :: string
  us_email :: string
  us_role :: string

definition users_db :: "user list" where
  "users_db =
     map (\<lambda>i. \<lparr>us_id = of_nat i, us_name = ''User '' @ nat_to_string i,
                us_email = ''user'' @ nat_to_string i @ ''@example.com'',
                us_role = (if i mod 10 = 0 then ''admin'' else ''member'')\<rparr>) [1..<1001]"

text \<open>The derived serializers.\<close>

definition world_to_json :: "world \<Rightarrow> json" where
  "world_to_json w = JObj [(''id'', JNum (sint (wd_id w))), (''randomNumber'', JNum (sint (wd_random_number w)))]"

definition user_to_json :: "user \<Rightarrow> json" where
  "user_to_json u =
     JObj [(''id'', json_u64 (us_id u)), (''name'', JStr (us_name u)), (''email'', JStr (us_email u)), (''role'', JStr (us_role u))]"

section \<open>Reading the page\<close>

text \<open>A reader of the page: the five entities back to their characters, a table row with its two
  cells, which end at the next angle bracket, and the rows up to the closing tags.\<close>

definition entity :: "string \<Rightarrow> char \<times> nat" where
  "entity s =
     (if starts_with s ''amp;'' then (CHR ''&'', 4) else if starts_with s ''lt;'' then (CHR ''<'', 3)
      else if starts_with s ''gt;'' then (CHR ''>'', 3) else if starts_with s ''quot;'' then (CHR 0x22, 5)
      else if starts_with s ''#x27;'' then (CHR 0x27, 5) else (CHR ''&'', 0))"

function unescape_html :: "string \<Rightarrow> string" where
  "unescape_html [] = []"
| "unescape_html (c # s) =
     (if c = CHR ''&'' then fst (entity s) # unescape_html (drop (snd (entity s)) s) else c # unescape_html s)"
  by pat_completeness auto
termination by (relation "measure length") auto

definition cell :: "string \<Rightarrow> string" where "cell s = takeWhile (\<lambda>c. c \<noteq> CHR ''<'') s"

definition after_cell :: "string \<Rightarrow> string \<Rightarrow> string option" where
  "after_cell tags s = strip_prefix tags (dropWhile (\<lambda>c. c \<noteq> CHR ''<'') s)"

definition read_row :: "string \<Rightarrow> ((string \<times> string) \<times> string) option" where
  "read_row s =
     Option.bind (strip_prefix ''<tr><td>'' s) (\<lambda>s1. Option.bind (after_cell ''</td><td>'' s1) (\<lambda>s2.
       map_option (\<lambda>s3. ((cell s1, unescape_html (cell s2)), s3)) (after_cell ''</td></tr>'' s2)))"

lemma strip_prefix_length: "strip_prefix p s = Some r \<Longrightarrow> length r + length p = length s"
  by (auto simp: strip_prefix_Some_iff)

lemma after_cell_length: "after_cell tags s = Some r \<Longrightarrow> length r \<le> length s"
  using length_dropWhile_le [of "\<lambda>c. c \<noteq> CHR ''<''" s] by (auto simp: after_cell_def dest!: strip_prefix_length)

lemma read_row_length: "read_row s = Some (row, r) \<Longrightarrow> length r < length s"
  by (auto simp: read_row_def bind_eq_Some_conv dest!: strip_prefix_length after_cell_length)

function read_rows :: "string \<Rightarrow> (string \<times> string) list option" where
  "read_rows s =
     (case read_row s of
        None \<Rightarrow> if s = ''</table></body></html>'' then Some [] else None
      | Some (row, r) \<Rightarrow> map_option (Cons row) (read_rows r))"
  by pat_completeness auto
termination by (relation "measure length") (auto dest: read_row_length)

declare read_rows.simps [simp del]

definition read_fortunes :: "string \<Rightarrow> (string \<times> string) list option" where
  "read_fortunes s = Option.bind (strip_prefix fortunes_head s) read_rows"

section \<open>Lemmas\<close>

lemma escape_html_append: "escape_html out s = out @ concat (map escape_char s)"
  by (induction s arbitrary: out) (simp_all add: escape_html_def)

lemma escape_char_plain: "CHR ''<'' \<notin> set (escape_char c)"
  by (simp add: escape_char_def)

lemma unescape_escape_char: "unescape_html (escape_char c @ s) = c # unescape_html s"
  by (simp add: escape_char_def entity_def starts_with_def)

lemma unescape_escape: "unescape_html (concat (map escape_char s)) = s"
  by (induction s) (simp_all add: unescape_escape_char)

lemma cell_append:
  assumes "CHR ''<'' \<notin> set a"
  shows "cell (a @ CHR ''<'' # b) = a" and "after_cell tags (a @ CHR ''<'' # b) = strip_prefix tags (CHR ''<'' # b)"
proof -
  have "\<forall>c \<in> set a. c \<noteq> CHR ''<''" using assms by blast
  then show "cell (a @ CHR ''<'' # b) = a" "after_cell tags (a @ CHR ''<'' # b) = strip_prefix tags (CHR ''<'' # b)"
    by (simp_all add: cell_def after_cell_def takeWhile_append2 dropWhile_append2)
qed

lemma itoa_str_plain: "CHR ''<'' \<notin> set (itoa_str n)"
proof -
  have "\<forall>d \<in> set [0..<10]. digit_char d \<noteq> CHR ''<''" by code_simp
  then have "CHR ''<'' \<notin> set (nat_to_string m)" for m using nat_to_string_digits [of "CHR ''<''" m] by force
  then show ?thesis by (simp add: itoa_str_def)
qed

definition row_html :: "i32 \<times> string \<Rightarrow> string" where
  "row_html row = ''<tr><td>'' @ itoa_str (fst row) @ ''</td><td>'' @ concat (map escape_char (snd row)) @ ''</td></tr>''"

lemma read_row_html: "read_row (row_html (i, m) @ s) = Some ((itoa_str i, m), s)"
proof -
  have "CHR ''<'' \<notin> set (concat (map escape_char m))" by (auto dest: escape_char_plain [THEN notE])
  then show ?thesis
    using itoa_str_plain [of i] by (simp add: row_html_def read_row_def cell_append unescape_escape)
qed

lemma read_rows_html:
  "read_rows (concat (map row_html rows) @ ''</table></body></html>'') = Some (map (\<lambda>(i, m). (itoa_str i, m)) rows)"
proof (induction rows)
  case Nil
  have "read_row ''</table></body></html>'' = None" by (simp add: read_row_def)
  then show ?case by (simp add: read_rows.simps)
next
  case (Cons row rows)
  obtain i m where row: "row = (i, m)" by (cases row)
  show ?case
    by (subst read_rows.simps) (simp add: row read_row_html Cons.IH)
qed

lemma render_rows:
  "foldl (\<lambda>html (i, msg). escape_html (html @ ''<tr><td>'' @ itoa_str i @ ''</td><td>'') msg @ ''</td></tr>'') acc rows =
     acc @ concat (map row_html rows)"
  by (induction rows arbitrary: acc) (auto simp: row_html_def escape_html_append)

section \<open>Properties\<close>

text \<open>C30: The page of fortunes says what the rows say: reading the page gives the rows and the extra
  one, each once, with the messages as they are stored, in the order of the messages. Whatever a
  message holds, quotes, angle brackets, ampersands or markup, it stays the text of its own
  cell.\<close>

theorem fortunes_page_readable:
  "read_fortunes (render_fortunes_html db) = Some (map (\<lambda>(i, m). (itoa_str i, m)) (fortune_list db)) \<and>
   sorted (map snd (fortune_list db)) \<and>
   mset (fortune_list db) =
     add_mset (0, ''Additional fortune added at request time.'') (mset (map (\<lambda>f. (fo_id f, fo_message f)) db))"
proof -
  have "read_fortunes (render_fortunes_html db) = read_rows (concat (map row_html (fortune_list db)) @ ''</table></body></html>'')"
    unfolding read_fortunes_def render_fortunes_html_def render_rows append_assoc strip_prefix_append by simp
  then show ?thesis by (simp add: read_rows_html fortune_list_def)
qed

end
