(* ===== verification/Bench_Mahalo.thy ===== *)
theory Bench_Mahalo
  imports Bench_Data Mahalo_Endpoint Mahalo_Plugs
begin

text \<open>
  The benchmark server written with the framework, \<open>bench/src/bin/mahalo.rs\<close>: its handlers, its
  three pipelines, its router and its endpoint. The tables are read-only; what a worker thread keeps
  is the number of draws of its random generator and the lines that were logged, the extension of the
  connection record. A panic ends the process (\<open>bc_panicked\<close>), and the release profile has no
  overflow checks. JSON text, percent decoding, UUIDs, BLAKE3 and the clock are an environment.
\<close>

section \<open>Definitions\<close>

record bench_env =
  be_rng :: rand_rng
  be_to_vec :: "json \<Rightarrow> bytes"
  be_decode :: "string \<Rightarrow> string"
  be_uuid :: string
  be_blake3 :: "bytes \<Rightarrow> string"
  be_started :: nat
  be_finished :: nat

record 'h bench_conn = "'h conn" +
  bc_draws :: nat
  bc_log :: "log_record list"
  bc_panicked :: bool

definition respond_static :: "'h http_api \<Rightarrow> u16 \<Rightarrow> string \<Rightarrow> bytes \<Rightarrow> 'h bench_conn \<Rightarrow> 'h bench_conn" where
  "respond_static H status ct body c =
     put_resp_body_static body (put_resp_header_static H ''content-type'' (as_bytes ct) (put_status status c))"

definition respond_bytes :: "'h http_api \<Rightarrow> string \<Rightarrow> bytes \<Rightarrow> 'h bench_conn \<Rightarrow> 'h bench_conn" where
  "respond_bytes H ct body c =
     put_resp_body body (put_resp_header_static H ''content-type'' (as_bytes ct) (put_status 200 c))"

definition CT_TEXT :: string where "CT_TEXT = ''text/plain''"
definition CT_JSON :: string where "CT_JSON = ''application/json''"
definition CT_HTML :: string where "CT_HTML = ''text/html; charset=utf-8''"

subsection \<open>The bare scope\<close>

definition plaintext_plug :: "'h http_api \<Rightarrow> 'h bench_conn \<Rightarrow> 'h bench_conn" where
  "plaintext_plug H c = respond_static H 200 CT_TEXT (as_bytes ''Hello, World!'') c"

definition json_plug :: "'h http_api \<Rightarrow> 'h bench_conn \<Rightarrow> 'h bench_conn" where
  \<open>json_plug H c = respond_static H 200 CT_JSON (as_bytes ''{"message":"Hello, World!"}'') c\<close>

subsection \<open>The database scope\<close>

text \<open>\<open>worlds[rng.random_range(0..worlds.len())]\<close>; \<open>None\<close> is a panic, of the empty range or
  of the index.\<close>

definition world_at :: "rand_rng \<Rightarrow> world list \<Rightarrow> nat \<Rightarrow> world option" where
  "world_at rng worlds k =
     (if worlds = [] then None
      else let idx = rng k (length worlds) in if idx < length worlds then Some (worlds ! idx) else None)"

definition pick_worlds :: "rand_rng \<Rightarrow> world list \<Rightarrow> nat \<Rightarrow> nat \<Rightarrow> world list option" where
  "pick_worlds rng worlds n k = those (map (\<lambda>j. world_at rng worlds (k + j)) [0..<n])"

text \<open>Two draws a row: the row, then its new number.\<close>

definition update_worlds :: "rand_rng \<Rightarrow> world list \<Rightarrow> nat \<Rightarrow> nat \<Rightarrow> world list option" where
  "update_worlds rng worlds n k =
     those (map (\<lambda>j. map_option (\<lambda>w. w\<lparr>wd_random_number := random_number rng (k + 2 * j + 1)\<rparr>)
                  (world_at rng worlds (k + 2 * j))) [0..<n])"

definition db_plug :: "'h http_api \<Rightarrow> bench_env \<Rightarrow> world list \<Rightarrow> 'h bench_conn \<Rightarrow> 'h bench_conn" where
  "db_plug H E worlds c =
     (case world_at (be_rng E) worlds (bc_draws c) of
        None \<Rightarrow> c\<lparr>bc_panicked := True\<rparr>
      | Some w \<Rightarrow> respond_bytes H CT_JSON (be_to_vec E (world_to_json w)) (c\<lparr>bc_draws := bc_draws c + 1\<rparr>))"

definition respond_worlds ::
  "'h http_api \<Rightarrow> bench_env \<Rightarrow> world list option \<Rightarrow> nat \<Rightarrow> 'h bench_conn \<Rightarrow> 'h bench_conn" where
  "respond_worlds H E results draws c =
     (case results of
        None \<Rightarrow> c\<lparr>bc_panicked := True\<rparr>
      | Some ws \<Rightarrow> respond_bytes H CT_JSON (be_to_vec E (JArr (map world_to_json ws))) (c\<lparr>bc_draws := bc_draws c + draws\<rparr>))"

text \<open>\<open>/queries\<close> and \<open>/cached-queries\<close> differ in the name of the parameter.\<close>

definition queries_plug :: "'h http_api \<Rightarrow> bench_env \<Rightarrow> world list \<Rightarrow> string \<Rightarrow> 'h bench_conn \<Rightarrow> 'h bench_conn" where
  "queries_plug H E worlds name c =
     (let c1 = parse_query_params (be_decode E) c;
          n = parse_count (query_param c1 name)
      in respond_worlds H E (pick_worlds (be_rng E) worlds n (bc_draws c1)) n c1)"

definition updates_plug :: "'h http_api \<Rightarrow> bench_env \<Rightarrow> world list \<Rightarrow> 'h bench_conn \<Rightarrow> 'h bench_conn" where
  "updates_plug H E worlds c =
     (let c1 = parse_query_params (be_decode E) c;
          n = parse_count (query_param c1 ''queries'')
      in respond_worlds H E (update_worlds (be_rng E) worlds n (bc_draws c1)) (2 * n) c1)"

definition fortunes_plug :: "'h http_api \<Rightarrow> fortune list \<Rightarrow> 'h bench_conn \<Rightarrow> 'h bench_conn" where
  "fortunes_plug H fortunes c = respond_bytes H CT_HTML (as_bytes (render_fortunes_html fortunes)) c"

subsection \<open>The application scope\<close>

definition user_plug :: "'h http_api \<Rightarrow> bench_env \<Rightarrow> user list \<Rightarrow> 'h bench_conn \<Rightarrow> 'h bench_conn" where
  \<open>user_plug H E users c =
     (case List.find (\<lambda>u. us_id u = parse_id_param c) users of
        Some u \<Rightarrow> respond_bytes H CT_JSON (be_to_vec E (user_to_json u)) c
      | None \<Rightarrow> respond_static H 404 CT_JSON (as_bytes ''{"error":"not found"}'') c)\<close>

text \<open>The multiplication of the offset wraps.\<close>

definition search_results :: "user list \<Rightarrow> string \<Rightarrow> nat \<Rightarrow> nat \<Rightarrow> user list" where
  "search_results users q page limit =
     (let offset = (page - 1) * limit mod usize_card
      in take limit (drop offset (filter (\<lambda>u. q = [] \<or> str_contains (us_name u) q) users)))"

definition search_limit :: "string option \<Rightarrow> nat" where
  "search_limit raw = min 100 (unwrap_or (Option.bind raw parse_usize) 20)"

definition search_page :: "string option \<Rightarrow> nat" where
  "search_page raw = unwrap_or (Option.bind raw parse_usize) 1"

definition search_plug :: "'h http_api \<Rightarrow> bench_env \<Rightarrow> user list \<Rightarrow> 'h bench_conn \<Rightarrow> 'h bench_conn" where
  "search_plug H E users c =
     (let c1 = parse_query_params (be_decode E) c;
          q = unwrap_or (query_param c1 ''q'') [];
          results = search_results users q (search_page (query_param c1 ''page'')) (search_limit (query_param c1 ''limit''))
      in respond_bytes H CT_JSON (be_to_vec E (JArr (map user_to_json results))) c1)"

definition echo_plug :: "'h http_api \<Rightarrow> 'h bench_conn \<Rightarrow> 'h bench_conn" where
  "echo_plug H c = respond_bytes H CT_JSON (conn_body c) c"

subsection \<open>The other routes\<close>

definition page_plug :: "'h http_api \<Rightarrow> 'h bench_conn \<Rightarrow> 'h bench_conn" where
  "page_plug H c = respond_static H 200 CT_HTML (as_bytes ''<html><body><h1>Hello</h1></body></html>'') c"

text \<open>The header of the redirect is given as typed values, whose conversion cannot fail.\<close>

definition redirect_plug :: "'h http_api \<Rightarrow> 'h bench_conn \<Rightarrow> 'h bench_conn" where
  "redirect_plug H c = put_resp_header_static H ''location'' (as_bytes ''/plaintext'') (put_status 302 c)"

subsection \<open>Router and endpoint\<close>

definition request_id_plug :: "'h http_api \<Rightarrow> bench_env \<Rightarrow> ('h, unit bench_conn_ext) plug" where
  "request_id_plug H E = plug_fn (request_id_call H (be_uuid E))"

definition api_stack :: "'h http_api \<Rightarrow> bench_env \<Rightarrow> ('h, unit bench_conn_ext) pipeline" where
  "api_stack H E = pipeline_plug (request_id_plug H E) (pipeline_new ''api'')"

definition browser_stack :: "'h http_api \<Rightarrow> bench_env \<Rightarrow> ('h, unit bench_conn_ext) pipeline" where
  "browser_stack H E =
     pipeline_plug (plug_fn (secure_headers_call H secure_headers_new))
       (pipeline_plug (request_id_plug H E)
         (pipeline_plug (plug_fn (logger_start_call (be_started E))) (pipeline_new ''browser'')))"

definition bare_scope ::
  "'h http_api \<Rightarrow> ('h, unit bench_conn_ext) scope_builder \<Rightarrow> ('h, unit bench_conn_ext) scope_builder" where
  "bare_scope H s = sb_get ''/json'' (sync_plug_fn (json_plug H)) (sb_get ''/plaintext'' (sync_plug_fn (plaintext_plug H)) s)"

definition db_scope ::
  "'h http_api \<Rightarrow> bench_env \<Rightarrow> world list \<Rightarrow> fortune list \<Rightarrow> ('h, unit bench_conn_ext) scope_builder
    \<Rightarrow> ('h, unit bench_conn_ext) scope_builder" where
  "db_scope H E worlds fortunes s =
     sb_get ''/cached-queries'' (plug_fn (queries_plug H E worlds ''count''))
       (sb_get ''/updates'' (plug_fn (updates_plug H E worlds))
         (sb_get ''/fortunes'' (plug_fn (fortunes_plug H fortunes))
           (sb_get ''/queries'' (plug_fn (queries_plug H E worlds ''queries''))
             (sb_get ''/db'' (plug_fn (db_plug H E worlds)) s))))"

definition users_scope ::
  "'h http_api \<Rightarrow> bench_env \<Rightarrow> user list \<Rightarrow> ('h, unit bench_conn_ext) scope_builder
    \<Rightarrow> ('h, unit bench_conn_ext) scope_builder" where
  "users_scope H E users s =
     sb_post ''/echo'' (plug_fn (echo_plug H))
       (sb_get ''/search'' (plug_fn (search_plug H E users))
         (sb_get ''/users/:id'' (plug_fn (user_plug H E users)) s))"

definition page_scope ::
  "'h http_api \<Rightarrow> ('h, unit bench_conn_ext) scope_builder \<Rightarrow> ('h, unit bench_conn_ext) scope_builder" where
  "page_scope H s = sb_get ''/page'' (sync_plug_fn (page_plug H)) s"

definition bench_router ::
  "'h http_api \<Rightarrow> bench_env \<Rightarrow> world list \<Rightarrow> fortune list \<Rightarrow> user list \<Rightarrow> ('h, unit bench_conn_ext, 'r) mahalo_router" where
  "bench_router H E worlds fortunes users =
     router_get ''/redirect'' (sync_plug_fn (redirect_plug H))
       (router_scope ''/browser'' [''browser''] (page_scope H)
         (router_scope ''/api'' [''api''] (users_scope H E users)
           (router_scope ''/'' [''api''] (db_scope H E worlds fortunes)
             (router_scope ''/'' [''bare''] (bare_scope H)
               (router_pipeline (browser_stack H E)
                 (router_pipeline (api_stack H E)
                   (router_pipeline (pipeline_new ''bare'') router_new)))))))"

definition etag_plug :: "'h http_api \<Rightarrow> bench_env \<Rightarrow> ('h, unit bench_conn_ext) plug" where
  "etag_plug H E = plug_fn (etag_call H (be_blake3 E))"

definition log_finish_plug :: "bench_env \<Rightarrow> ('h, unit bench_conn_ext) plug" where
  "log_finish_plug E =
     plug_fn (\<lambda>c. case logger_finish_call (be_finished E) c of (c', line) \<Rightarrow> c'\<lparr>bc_log := bc_log c' @ [line]\<rparr>)"

text \<open>\<open>main\<close>; the draws of \<open>world_rows\<close> are those of the main thread's generator.\<close>

definition bench_endpoint ::
  "'h http_api \<Rightarrow> bench_env \<Rightarrow> string option \<Rightarrow> rand_rng \<Rightarrow> ('h, unit bench_conn_ext, 'r, 'w) endpoint" where
  "bench_endpoint H E port main_rng =
     endpoint_after (\<lambda>_. log_finish_plug E)
       (endpoint_after (\<lambda>_. etag_plug H E)
         (endpoint_new (\<lambda>_. bench_router H E (world_rows main_rng) fortune_rows users_db)
           (''0.0.0.0:'' @ nat_to_string (unat (parse_port port 3000)))))"

section \<open>Lemmas\<close>

definition serves_bench ::
  "'r matchit \<Rightarrow> 'h http_api \<Rightarrow> bench_env \<Rightarrow> world list \<Rightarrow> fortune list \<Rightarrow> user list
    \<Rightarrow> ('h, unit bench_conn_ext, 'r) mahalo_router \<Rightarrow> bool" where
  "serves_bench M H E worlds fortunes users r \<longleftrightarrow> mr_built M r \<and>
     mr_routes r = mr_routes (bench_router H E worlds fortunes users :: ('h, unit bench_conn_ext, 'r) mahalo_router) \<and>
     mr_pipelines r = mr_pipelines (bench_router H E worlds fortunes users :: ('h, unit bench_conn_ext, 'r) mahalo_router)"

lemma bench_scope_steps:
  "sb_steps s (bare_scope H s)" "sb_steps s (db_scope H E worlds fortunes s)" "sb_steps s (users_scope H E users s)"
  "sb_steps s (page_scope H s)"
  unfolding bare_scope_def db_scope_def users_scope_def page_scope_def sb_get_def sb_post_def
  by (intro sb_steps.intros)+

lemma bench_router_serves: "serves_bench M H E worlds fortunes users (bench_router H E worlds fortunes users)"
  unfolding serves_bench_def bench_router_def router_get_def
  by (intro conjI refl mr_built.intros allI bench_scope_steps)

lemmas bench_route_simps = bench_router_def router_scope_def router_get_def add_top_level_route_def router_pipeline_def
  bare_scope_def db_scope_def users_scope_def page_scope_def sb_get_def sb_post_def sb_add_route_def
  sb_add_named_route_def scope_builder_new_def router_new_def Let_def

definition bench_plugs ::
  "'h http_api \<Rightarrow> bench_env \<Rightarrow> world list \<Rightarrow> fortune list \<Rightarrow> user list \<Rightarrow> ('h, unit bench_conn_ext) plug list" where
  "bench_plugs H E worlds fortunes users =
     [sync_plug_fn (plaintext_plug H), sync_plug_fn (json_plug H), plug_fn (db_plug H E worlds),
      plug_fn (queries_plug H E worlds ''queries''), plug_fn (fortunes_plug H fortunes), plug_fn (updates_plug H E worlds),
      plug_fn (queries_plug H E worlds ''count''), plug_fn (user_plug H E users), plug_fn (search_plug H E users),
      plug_fn (echo_plug H), sync_plug_fn (page_plug H), sync_plug_fn (redirect_plug H)]"

lemma bench_router_handlers:
  "map rt_handler (mr_routes (bench_router H E worlds fortunes users)) = map PlugHandler (bench_plugs H E worlds fortunes users)"
  by (simp add: bench_route_simps bench_plugs_def)

lemma bench_router_pipelines:
  "mr_pipelines (bench_router H E worlds fortunes users) =
     [''bare'' \<mapsto> pipeline_new ''bare'', ''api'' \<mapsto> api_stack H E, ''browser'' \<mapsto> browser_stack H E]"
  by (simp add: bench_route_simps api_stack_def browser_stack_def pipeline_plug_def pipeline_new_def)

text \<open>What the plugs of the pipelines and the handlers keep: the request line, the log, and that the
  connection is neither halted nor lost in a panic.\<close>

definition under_way :: "'h bench_conn \<Rightarrow> 'h bench_conn \<Rightarrow> bool" where
  "under_way c0 c \<longleftrightarrow> \<not> conn_halted c \<and> \<not> bc_panicked c \<and> conn_method c = conn_method c0 \<and> conn_uri c = conn_uri c0 \<and>
     bc_log c = bc_log c0 \<and> conn_status c \<noteq> 304"

lemma under_way_builders [simp]:
  "under_way c0 c \<Longrightarrow> s \<noteq> 304 \<Longrightarrow> under_way c0 (put_status s c)"
  "under_way c0 (put_resp_header H k v c) = under_way c0 c" "under_way c0 (put_resp_header_static H k b c) = under_way c0 c"
  "under_way c0 (put_resp_body b c) = under_way c0 c" "under_way c0 (put_resp_body_static b c) = under_way c0 c"
  "under_way c0 (assign key val c) = under_way c0 c" "under_way c0 (parse_query_params d c) = under_way c0 c"
  "under_way c0 (c\<lparr>conn_path_params := ps\<rparr>) = under_way c0 c" "under_way c0 (c\<lparr>bc_draws := m\<rparr>) = under_way c0 c"
  "under_way c0 (c\<lparr>conn_resp_headers := hs\<rparr>) = under_way c0 c"
  by (auto simp: under_way_def put_status_def put_resp_header_def put_resp_header_static_def put_resp_body_def
      put_resp_body_static_def assign_def parse_query_params_def split: option.splits)

lemma under_way_responses [simp]:
  "under_way c0 c \<Longrightarrow> s \<noteq> 304 \<Longrightarrow> under_way c0 (respond_static H s ct b c)"
  "under_way c0 c \<Longrightarrow> under_way c0 (respond_bytes H ct b c)"
  by (simp_all add: respond_static_def respond_bytes_def)

lemma those_map_Some: "(\<And>x. x \<in> set xs \<Longrightarrow> f x = Some (g x)) \<Longrightarrow> those (map f xs) = Some (map g xs)"
  by (induction xs) simp_all

lemma world_at_Some:
  assumes "rng_laws rng" and "worlds \<noteq> []"
  shows "world_at rng worlds k = Some (worlds ! rng k (length worlds))" and "rng k (length worlds) < length worlds"
  using assms by (simp_all add: world_at_def rng_laws_def Let_def)

lemma worlds_Some:
  assumes "rng_laws rng" and "worlds \<noteq> []"
  shows "pick_worlds rng worlds n k = Some (map (\<lambda>j. worlds ! rng (k + j) (length worlds)) [0..<n])"
    and "update_worlds rng worlds n k = Some (map (\<lambda>j. (worlds ! rng (k + 2 * j) (length worlds))
          \<lparr>wd_random_number := random_number rng (k + 2 * j + 1)\<rparr>) [0..<n])"
  unfolding pick_worlds_def update_worlds_def world_at_Some(1) [OF assms]
  by (intro those_map_Some; simp)+

lemma db_plugs_under_way:
  assumes "rng_laws (be_rng E)" and "worlds \<noteq> []" and "under_way c0 c"
  shows "under_way c0 (db_plug H E worlds c)" and "under_way c0 (queries_plug H E worlds name c)"
    and "under_way c0 (updates_plug H E worlds c)"
  using assms(3)
  by (simp_all add: db_plug_def queries_plug_def updates_plug_def respond_worlds_def Let_def
      world_at_Some(1) [OF assms(1,2)] worlds_Some [OF assms(1,2)])

lemma bench_plugs_under_way:
  assumes "rng_laws (be_rng E)" and "worlds \<noteq> []" and "p \<in> set (bench_plugs H E worlds fortunes users)" and "under_way c0 c"
  shows "under_way c0 (run_plug p c)"
  using assms(3,4) db_plugs_under_way [OF assms(1,2,4), of H]
  by (auto simp: bench_plugs_def plaintext_plug_def json_plug_def fortunes_plug_def user_plug_def search_plug_def
      echo_plug_def page_plug_def redirect_plug_def Let_def split: option.splits)

lemma pipeline_plugs_under_way:
  assumes "p \<in> set (pl_plugs pl)" and "pl \<in> {pipeline_new ''bare'', api_stack H E, browser_stack H E}" and "under_way c0 c"
  shows "under_way c0 (run_plug p c)"
  using assms
  by (auto simp: api_stack_def browser_stack_def pipeline_plug_def pipeline_new_def request_id_plug_def request_id_call_def
      secure_headers_call_def logger_start_call_def Let_def)

lemma etag_cases:
  "etag_call H b3 c = c \<or> (\<exists>ev. etag_call H b3 c = put_resp_header H ''etag'' ev c) \<or>
   (\<exists>ev. etag_call H b3 c = halt (put_resp_body [] (put_status 304 (put_resp_header H ''etag'' ev c))))"
  by (auto simp: etag_call_def Let_def)

lemma put_header_bench_frame:
  "conn_status (put_resp_header H k v c) = conn_status c" "bc_log (put_resp_header H k v c) = bc_log c"
  "bc_panicked (put_resp_header H k v c) = bc_panicked c"
  by (auto simp: put_resp_header_def split: option.splits)

definition logged :: "'h bench_conn \<Rightarrow> 'h bench_conn \<Rightarrow> bool" where
  "logged c c' \<longleftrightarrow> (\<exists>line. bc_log c' = bc_log c @ [line] \<and> log_method line = conn_method c \<and>
     log_path line = uri_path (conn_uri c) \<and> log_status line = conn_status c')"

lemma after_plugs_log:
  assumes "under_way c c1" and "c' = run_plugs [etag_plug H E, log_finish_plug E] c1"
  shows "\<not> bc_panicked c' \<and> (if conn_status c' = 304 then bc_log c' = bc_log c else logged c c')"
proof -
  have running: "under_way c c2 \<Longrightarrow> under_way c (c2\<lparr>bc_log := bc_log c\<rparr>) \<and>
      logged c (run_plugs [log_finish_plug E] c2) \<and> conn_status (run_plugs [log_finish_plug E] c2) \<noteq> 304 \<and>
      \<not> bc_panicked (run_plugs [log_finish_plug E] c2)" for c2
    by (auto simp: under_way_def logged_def log_finish_plug_def logger_finish_call_def)
  have c': "c' = run_plugs [log_finish_plug E] (etag_call H (be_blake3 E) c1)"
    using assms by (simp add: etag_plug_def under_way_def)
  consider (kept) ev where "etag_call H (be_blake3 E) c1 = c1 \<or> etag_call H (be_blake3 E) c1 = put_resp_header H ''etag'' ev c1"
    | (fresh) ev where "etag_call H (be_blake3 E) c1 = halt (put_resp_body [] (put_status 304 (put_resp_header H ''etag'' ev c1)))"
    using etag_cases by blast
  then show ?thesis
  proof cases
    case kept
    then have "under_way c (etag_call H (be_blake3 E) c1)" using assms(1) by auto
    from running [OF this] show ?thesis unfolding c' by simp
  next
    case fresh
    with assms(1) show ?thesis unfolding c'
      by (simp add: halt_def put_resp_body_def put_status_def put_header_bench_frame under_way_def)
  qed
qed

section \<open>Properties\<close>

text \<open>C32: A request to the benchmark server is answered without a panic, whatever its path, query and body:
  the random indexes stay inside the table. It is logged once, with its method, its path and the
  status that is sent, unless the answer is 304: the plug that finds the entity tag unchanged halts
  the connection, and the logger after it does not run.\<close>

theorem bench_request_logged:
  fixes c :: "'h bench_conn" and r :: "('h, unit bench_conn_ext, 'r) mahalo_router"
  assumes "matchit_laws M" and "rng_laws (be_rng E)" and "worlds \<noteq> []" and "serves_bench M H E worlds fortunes users r"
    and "\<not> conn_halted c" and "\<not> bc_panicked c" and "conn_status c = 200"
    and "execute_request M None [etag_plug H E, log_finish_plug E] c r = Ok (r', c')"
  shows "\<not> bc_panicked c' \<and> (if conn_status c' = 304 then bc_log c' = bc_log c else logged c c')"
proof -
  let ?R = "bench_router H E worlds fortunes users :: ('h, unit bench_conn_ext, 'r) mahalo_router"
  have r: "mr_built M r" "mr_routes r = mr_routes ?R" "mr_pipelines r = mr_pipelines ?R"
    using assms(4) unfolding serves_bench_def by simp_all
  have start: "under_way c c" using assms(5,6,7) by (simp add: under_way_def)
  obtain c1 where "under_way c c1" "c' = run_plugs [etag_plug H E, log_finish_plug E] c1"
  proof (rule execute_request_keeps [OF assms(1) r(1) assms(8), of "under_way c"])
    fix name pl p and c2 :: "'h bench_conn"
    assume "mr_pipelines r name = Some pl" "p \<in> set (pl_plugs pl)" "under_way c c2"
    then show "under_way c (run_plug p c2)"
      unfolding r(3) bench_router_pipelines by (intro pipeline_plugs_under_way) (auto split: if_splits)
  next
    fix rt and c2 :: "'h bench_conn"
    assume rt: "rt \<in> set (mr_routes r)" and "under_way c c2"
    from rt have "rt_handler rt \<in> set (map rt_handler (mr_routes ?R))" unfolding r(2) by simp
    then obtain p where "p \<in> set (bench_plugs H E worlds fortunes users)" "rt_handler rt = PlugHandler p"
      unfolding bench_router_handlers by auto
    with bench_plugs_under_way [OF assms(2,3) _ \<open>under_way c c2\<close>] show "under_way c (run_handler (rt_handler rt) c2)" by simp
  qed (simp_all add: start)
  then show ?thesis by (rule after_plugs_log)
qed

text \<open>The pages of a search partition its results: at a page size that is not zero, the first
  \<open>n\<close> pages together are the first \<open>n * limit\<close> matching users, in order and without gaps or
  repetitions, as long as the offset does not wrap; a page never has more than 100 users.\<close>

theorem search_pages_complete:
  assumes "n * limit \<le> 2 ^ 64"
  shows "concat (map (\<lambda>p. search_results users q p limit) [1..<Suc n]) =
      take (n * limit) (filter (\<lambda>u. q = [] \<or> str_contains (us_name u) q) users) \<and>
    length (search_results users q page (search_limit raw)) \<le> 100"
proof
  let ?us = "filter (\<lambda>u. q = [] \<or> str_contains (us_name u) q) users"
  show "concat (map (\<lambda>p. search_results users q p limit) [1..<Suc n]) = take (n * limit) ?us"
    using assms
  proof (induction n)
    case (Suc n)
    have "n * limit mod 2 ^ 64 = n * limit \<or> limit = 0" using Suc.prems by (cases limit) simp_all
    then have "search_results users q (Suc n) limit = take limit (drop (n * limit) ?us)"
      by (auto simp: search_results_def Let_def)
    moreover have "take (Suc n * limit) ?us = take (n * limit) ?us @ take limit (drop (n * limit) ?us)"
      by (simp only: mult_Suc add.commute [of limit] take_add)
    ultimately show ?case using Suc by simp
  qed simp
  show "length (search_results users q page (search_limit raw)) \<le> 100"
    by (simp add: search_results_def search_limit_def Let_def)
qed

text \<open>Past that, it does wrap: a page number beyond \<open>2 ^ 63\<close> shows the first page again.\<close>

lemma search_page_wraps: "search_results users q (2 ^ 63 + 1) 2 = search_results users q 1 2"
  by (simp add: search_results_def)

section \<open>Witnesses\<close>

definition demo_bench_env :: bench_env where
  "demo_bench_env =
     \<lparr>be_rng = (\<lambda>k n. k mod n), be_to_vec = (\<lambda>_. []), be_decode = (\<lambda>s. s), be_uuid = ''u'', be_blake3 = (\<lambda>_. []),
      be_started = 0, be_finished = 1\<rparr>"

definition demo_bench_conn :: "string \<Rightarrow> (string \<times> bytes) list bench_conn" where
  "demo_bench_conn path =
     conn.extend (conn_new list_http GET \<lparr>uri_path = path, uri_query = None\<rparr>) (bench_conn.fields 0 [] False)"

definition demo_worlds :: "world list" where
  "demo_worlds = [\<lparr>wd_id = 1, wd_random_number = 7\<rparr>]"

theorem bench_request_logged_witness:
  "\<exists>r' c'. execute_request list_matchit None [etag_plug list_http demo_bench_env, log_finish_plug demo_bench_env]
      (demo_bench_conn ''/db'') (bench_router list_http demo_bench_env demo_worlds [] []) = Ok (r', c') \<and>
    \<not> bc_panicked c' \<and> conn_status c' = 200 \<and> logged (demo_bench_conn ''/db'') c'"
proof -
  let ?c = "demo_bench_conn ''/db''" and ?E = demo_bench_env
  let ?R = "bench_router list_http ?E demo_worlds [] []"
  let ?x = "execute_request list_matchit None [etag_plug list_http ?E, log_finish_plug ?E] ?c ?R"
  have "map_result (\<lambda>(r', c'). conn_status c') id ?x = Ok 200" by code_simp
  then obtain r' c' where x: "?x = Ok (r', c')" and s: "conn_status c' = 200" by (cases ?x) auto
  have "rng_laws (be_rng ?E)" by (simp add: rng_laws_def demo_bench_env_def)
  moreover have "\<not> conn_halted ?c" "\<not> bc_panicked ?c" "conn_status ?c = 200" "demo_worlds \<noteq> []"
    by (simp_all add: demo_worlds_def demo_bench_conn_def conn.defs bench_conn.defs conn_new_def)
  ultimately have "\<not> bc_panicked c' \<and> logged ?c c'"
    using bench_request_logged [OF matchit_laws_list _ _ bench_router_serves _ _ _ x] s by simp
  with x s show ?thesis by blast
qed

definition demo_users :: "user list" where
  "demo_users = map (\<lambda>i. \<lparr>us_id = i, us_name = ''User'', us_email = [], us_role = ''member''\<rparr>) [1, 2, 3, 4]"

theorem search_pages_complete_witness:
  "map us_id (concat (map (\<lambda>p. search_results demo_users ''se'' p 2) [1..<3])) = [1, 2, 3, 4]"
proof -
  have n: "(2 :: nat) * 2 \<le> 2 ^ 64" by simp
  have "concat (map (\<lambda>p. search_results demo_users ''se'' p 2) [1..<3]) =
      take (2 * 2) (filter (\<lambda>u. ''se'' = [] \<or> str_contains (us_name u) ''se'') demo_users)"
    using search_pages_complete [OF n, of demo_users "''se''" 1 None] by (simp only: eval_nat_numeral)
  also have "map us_id \<dots> = [1, 2, 3, 4]" by code_simp
  finally show ?thesis .
qed

end
