(* ===== verification/Bench_Servers.thy ===== *)
theory Bench_Servers
  imports Bench_Mahalo
begin

text \<open>
  The benchmark servers on other frameworks, \<open>bench/src/bin/hyper.rs\<close>, \<open>axum.rs\<close> (of which
  \<open>axum_raw.rs\<close> is a copy), \<open>actix.rs\<close> and \<open>xitca.rs\<close>. The frameworks are not part of the
  repository: a handler is a function of what the framework has extracted for it, and its result is
  the value it hands back, a \<open>bench_reply\<close>, before the framework turns it into a response. The server on
  \<open>hyper\<close> does its own routing. The seven tests that all five servers have in common are an
  interface, \<open>techempower_server\<close>, which every server is shown to provide.
\<close>

section \<open>Definitions\<close>

text \<open>\<open>AppState\<close>.\<close>

record bench_tables =
  tb_worlds :: "world list"
  tb_fortunes :: "fortune list"
  tb_users :: "user list"

definition bench_state :: "rand_rng \<Rightarrow> bench_tables" where
  "bench_state rng = \<lparr>tb_worlds = world_rows rng, tb_fortunes = fortune_rows, tb_users = users_db\<rparr>"

text \<open>A status with headers and a ready-made body, a value for the framework to serialize, a page, a
  redirection, or a bare text.\<close>

datatype bench_reply =
  Reply u16 "(string \<times> string) list" bytes
| JsonReply u16 json
| HtmlReply string
| RedirectReply string
| TextReply string

text \<open>\<open>None\<close> is a panic; the number counts the draws of the random generator.\<close>

type_synonym answer = "(bench_reply \<times> nat) option"

definition HELLO_PAGE :: string where
  "HELLO_PAGE = ''<html><body><h1>Hello</h1></body></html>''"

definition HELLO_JSON :: string where
  \<open>HELLO_JSON = ''{"message":"Hello, World!"}''\<close>

definition NOT_FOUND_JSON :: string where
  \<open>NOT_FOUND_JSON = ''{"error":"not found"}''\<close>

subsection \<open>hyper\<close>

text \<open>\<open>hq_body\<close> is \<open>None\<close> when the body cannot be read.\<close>

record hyper_request =
  hq_method :: http_method
  hq_uri :: uri
  hq_body :: "bytes option"

definition hyper_ok_response :: "string \<Rightarrow> bytes \<Rightarrow> bench_reply" where
  "hyper_ok_response content_type body = Reply 200 [(''content-type'', content_type)] body"

definition hyper_json_response :: "bytes \<Rightarrow> bench_reply" where
  "hyper_json_response body = hyper_ok_response ''application/json'' body"

definition hyper_db :: "rand_rng \<Rightarrow> (json \<Rightarrow> bytes) \<Rightarrow> bench_tables \<Rightarrow> nat \<Rightarrow> answer" where
  "hyper_db rng to_vec T k =
     map_option (\<lambda>w. (hyper_json_response (to_vec (world_to_json w)), k + 1)) (world_at rng (tb_worlds T) k)"

definition hyper_queries :: "rand_rng \<Rightarrow> (json \<Rightarrow> bytes) \<Rightarrow> bench_tables \<Rightarrow> string \<Rightarrow> string \<Rightarrow> nat \<Rightarrow> answer" where
  "hyper_queries rng to_vec T name query k =
     (let n = parse_count (parse_query_param query name)
      in map_option (\<lambda>ws. (hyper_json_response (to_vec (JArr (map world_to_json ws))), k + n))
           (pick_worlds rng (tb_worlds T) n k))"

definition hyper_updates :: "rand_rng \<Rightarrow> (json \<Rightarrow> bytes) \<Rightarrow> bench_tables \<Rightarrow> string \<Rightarrow> nat \<Rightarrow> answer" where
  "hyper_updates rng to_vec T query k =
     (let n = parse_count (parse_query_param query ''queries'')
      in map_option (\<lambda>ws. (hyper_json_response (to_vec (JArr (map world_to_json ws))), k + 2 * n))
           (update_worlds rng (tb_worlds T) n k))"

definition hyper_user :: "(json \<Rightarrow> bytes) \<Rightarrow> bench_tables \<Rightarrow> string \<Rightarrow> bench_reply" where
  "hyper_user to_vec T id_str =
     (case parse_u64 id_str of
        None \<Rightarrow> Reply 400 [] (as_bytes ''invalid id'')
      | Some i \<Rightarrow>
          (case List.find (\<lambda>u. us_id u = i) (tb_users T) of
             Some u \<Rightarrow> hyper_json_response (to_vec (user_to_json u))
           | None \<Rightarrow> Reply 404 [(''content-type'', ''application/json'')] (as_bytes NOT_FOUND_JSON)))"

definition hyper_search :: "(json \<Rightarrow> bytes) \<Rightarrow> bench_tables \<Rightarrow> string \<Rightarrow> bench_reply" where
  "hyper_search to_vec T query =
     (let q = unwrap_or (parse_query_param query ''q'') [];
          page = unwrap_or (Option.bind (parse_query_param query ''page'') parse_usize) 1;
          limit = min (unwrap_or (Option.bind (parse_query_param query ''limit'') parse_usize) 20) 100
      in hyper_json_response (to_vec (JArr (map user_to_json (search_results (tb_users T) q page limit)))))"

definition hyper_echo :: "bytes option \<Rightarrow> bench_reply" where
  "hyper_echo body =
     (case body of
        Some b \<Rightarrow> Reply 200 [(''content-type'', ''application/json'')] b
      | None \<Rightarrow> Reply 400 [] (as_bytes ''bad request''))"

definition hyper_handle :: "rand_rng \<Rightarrow> (json \<Rightarrow> bytes) \<Rightarrow> bench_tables \<Rightarrow> hyper_request \<Rightarrow> nat \<Rightarrow> answer" where
  "hyper_handle rng to_vec T req k =
     (let path = uri_path (hq_uri req);
          query = unwrap_or (uri_query (hq_uri req)) [];
          fixed = (\<lambda>r. Some (r, k))
      in if hq_method req = GET \<and> path = ''/plaintext'' then
           fixed (hyper_ok_response ''text/plain'' (as_bytes ''Hello, World!''))
         else if hq_method req = GET \<and> path = ''/json'' then fixed (hyper_json_response (as_bytes HELLO_JSON))
         else if hq_method req = GET \<and> path = ''/db'' then hyper_db rng to_vec T k
         else if hq_method req = GET \<and> path = ''/queries'' then hyper_queries rng to_vec T ''queries'' query k
         else if hq_method req = GET \<and> path = ''/fortunes'' then
           fixed (hyper_ok_response ''text/html; charset=utf-8'' (as_bytes (render_fortunes_html (tb_fortunes T))))
         else if hq_method req = GET \<and> path = ''/updates'' then hyper_updates rng to_vec T query k
         else if hq_method req = GET \<and> path = ''/cached-queries'' then hyper_queries rng to_vec T ''count'' query k
         else if hq_method req = GET \<and> starts_with path ''/api/users/'' then
           fixed (hyper_user to_vec T (drop (length ''/api/users/'') path))
         else if hq_method req = GET \<and> path = ''/api/search'' then fixed (hyper_search to_vec T query)
         else if hq_method req = POST \<and> path = ''/api/echo'' then fixed (hyper_echo (hq_body req))
         else if hq_method req = GET \<and> path = ''/browser/page'' then
           fixed (hyper_ok_response ''text/html'' (as_bytes HELLO_PAGE))
         else if hq_method req = GET \<and> path = ''/redirect'' then fixed (Reply 302 [(''location'', ''/plaintext'')] [])
         else fixed (Reply 404 [] (as_bytes ''Not Found'')))"

definition hyper_addr :: "string option \<Rightarrow> string" where
  "hyper_addr port = ''0.0.0.0:'' @ nat_to_string (unat (parse_port port 3012))"

subsection \<open>axum\<close>

text \<open>What the extractors give: the structs that are deserialized from the query, the path parameter
  and the body.\<close>

record queries_params =
  qp_queries :: "string option"

record cached_params =
  cp_count :: "string option"

record search_params =
  sp_q :: "string option"
  sp_page :: "nat option"
  sp_limit :: "nat option"

record extracted =
  ex_queries :: queries_params
  ex_cached :: cached_params
  ex_search :: search_params
  ex_id :: u64
  ex_body :: bytes

type_synonym 'x route_table = "(http_method \<times> string \<times> ('x \<Rightarrow> nat \<Rightarrow> answer)) list"

definition axum_plaintext :: bench_reply where
  "axum_plaintext = Reply 200 [(''content-type'', ''text/plain'')] (as_bytes ''Hello, World!'')"

definition axum_json :: bench_reply where
  "axum_json = Reply 200 [(''content-type'', ''application/json'')] (as_bytes HELLO_JSON)"

definition axum_db :: "rand_rng \<Rightarrow> bench_tables \<Rightarrow> nat \<Rightarrow> answer" where
  "axum_db rng T k = map_option (\<lambda>w. (JsonReply 200 (world_to_json w), k + 1)) (world_at rng (tb_worlds T) k)"

definition axum_queries :: "rand_rng \<Rightarrow> bench_tables \<Rightarrow> queries_params \<Rightarrow> nat \<Rightarrow> answer" where
  "axum_queries rng T params k =
     (let n = parse_count (qp_queries params)
      in map_option (\<lambda>ws. (JsonReply 200 (JArr (map world_to_json ws)), k + n)) (pick_worlds rng (tb_worlds T) n k))"

definition axum_fortunes :: "bench_tables \<Rightarrow> bench_reply" where
  "axum_fortunes T = HtmlReply (render_fortunes_html (tb_fortunes T))"

definition axum_updates :: "rand_rng \<Rightarrow> bench_tables \<Rightarrow> queries_params \<Rightarrow> nat \<Rightarrow> answer" where
  "axum_updates rng T params k =
     (let n = parse_count (qp_queries params)
      in map_option (\<lambda>ws. (JsonReply 200 (JArr (map world_to_json ws)), k + 2 * n)) (update_worlds rng (tb_worlds T) n k))"

definition axum_cached_queries :: "rand_rng \<Rightarrow> bench_tables \<Rightarrow> cached_params \<Rightarrow> nat \<Rightarrow> answer" where
  "axum_cached_queries rng T params k =
     (let n = parse_count (cp_count params)
      in map_option (\<lambda>ws. (JsonReply 200 (JArr (map world_to_json ws)), k + n)) (pick_worlds rng (tb_worlds T) n k))"

definition axum_user_by_id :: "bench_tables \<Rightarrow> u64 \<Rightarrow> bench_reply" where
  "axum_user_by_id T i =
     (case List.find (\<lambda>u. us_id u = i) (tb_users T) of
        Some u \<Rightarrow> JsonReply 200 (user_to_json u)
      | None \<Rightarrow> Reply 404 [(''content-type'', ''application/json'')] (as_bytes NOT_FOUND_JSON))"

definition axum_search :: "bench_tables \<Rightarrow> search_params \<Rightarrow> bench_reply" where
  "axum_search T params =
     (let q = unwrap_or (sp_q params) [];
          page = unwrap_or (sp_page params) 1;
          limit = min (unwrap_or (sp_limit params) 20) 100
      in JsonReply 200 (JArr (map user_to_json (search_results (tb_users T) q page limit))))"

definition axum_echo :: "bytes \<Rightarrow> bench_reply" where
  "axum_echo body = Reply 200 [(''content-type'', ''application/json'')] body"

definition axum_browser_page :: bench_reply where
  "axum_browser_page = HtmlReply HELLO_PAGE"

definition axum_redirect_handler :: bench_reply where
  "axum_redirect_handler = RedirectReply ''/plaintext''"

definition axum_app :: "rand_rng \<Rightarrow> bench_tables \<Rightarrow> extracted route_table" where
  "axum_app rng T =
     [(GET, ''/plaintext'', \<lambda>x k. Some (axum_plaintext, k)),
      (GET, ''/json'', \<lambda>x k. Some (axum_json, k)),
      (GET, ''/db'', \<lambda>x. axum_db rng T),
      (GET, ''/queries'', \<lambda>x. axum_queries rng T (ex_queries x)),
      (GET, ''/fortunes'', \<lambda>x k. Some (axum_fortunes T, k)),
      (GET, ''/updates'', \<lambda>x. axum_updates rng T (ex_queries x)),
      (GET, ''/cached-queries'', \<lambda>x. axum_cached_queries rng T (ex_cached x)),
      (GET, ''/api/users/{id}'', \<lambda>x k. Some (axum_user_by_id T (ex_id x), k)),
      (GET, ''/api/search'', \<lambda>x k. Some (axum_search T (ex_search x), k)),
      (POST, ''/api/echo'', \<lambda>x k. Some (axum_echo (ex_body x), k)),
      (GET, ''/browser/page'', \<lambda>x k. Some (axum_browser_page, k)),
      (GET, ''/redirect'', \<lambda>x k. Some (axum_redirect_handler, k))]"

definition axum_addr :: "string option \<Rightarrow> string" where
  "axum_addr port = ''0.0.0.0:'' @ nat_to_string (unat (parse_port port 3001))"

subsection \<open>actix\<close>

definition actix_plaintext :: bench_reply where
  "actix_plaintext = Reply 200 [(''content-type'', ''text/plain'')] (as_bytes ''Hello, World!'')"

definition actix_json :: bench_reply where
  "actix_json = Reply 200 [(''content-type'', ''application/json'')] (as_bytes HELLO_JSON)"

definition actix_db :: "rand_rng \<Rightarrow> bench_tables \<Rightarrow> nat \<Rightarrow> answer" where
  "actix_db rng data k = map_option (\<lambda>w. (JsonReply 200 (world_to_json w), k + 1)) (world_at rng (tb_worlds data) k)"

definition actix_queries :: "rand_rng \<Rightarrow> bench_tables \<Rightarrow> queries_params \<Rightarrow> nat \<Rightarrow> answer" where
  "actix_queries rng data params k =
     (let n = parse_count (qp_queries params)
      in map_option (\<lambda>ws. (JsonReply 200 (JArr (map world_to_json ws)), k + n)) (pick_worlds rng (tb_worlds data) n k))"

definition actix_fortunes :: "bench_tables \<Rightarrow> bench_reply" where
  "actix_fortunes data =
     Reply 200 [(''content-type'', ''text/html; charset=utf-8'')] (as_bytes (render_fortunes_html (tb_fortunes data)))"

definition actix_updates :: "rand_rng \<Rightarrow> bench_tables \<Rightarrow> queries_params \<Rightarrow> nat \<Rightarrow> answer" where
  "actix_updates rng data params k =
     (let n = parse_count (qp_queries params)
      in map_option (\<lambda>ws. (JsonReply 200 (JArr (map world_to_json ws)), k + 2 * n)) (update_worlds rng (tb_worlds data) n k))"

definition actix_cached_queries :: "rand_rng \<Rightarrow> bench_tables \<Rightarrow> cached_params \<Rightarrow> nat \<Rightarrow> answer" where
  "actix_cached_queries rng data params k =
     (let n = parse_count (cp_count params)
      in map_option (\<lambda>ws. (JsonReply 200 (JArr (map world_to_json ws)), k + n)) (pick_worlds rng (tb_worlds data) n k))"

definition actix_user_by_id :: "bench_tables \<Rightarrow> u64 \<Rightarrow> bench_reply" where
  "actix_user_by_id data i =
     (case List.find (\<lambda>u. us_id u = i) (tb_users data) of
        Some u \<Rightarrow> JsonReply 200 (user_to_json u)
      | None \<Rightarrow> JsonReply 404 (JObj [(''error'', JStr ''not found'')]))"

definition actix_search :: "bench_tables \<Rightarrow> search_params \<Rightarrow> bench_reply" where
  "actix_search data params =
     (let q = unwrap_or (sp_q params) [];
          page = unwrap_or (sp_page params) 1;
          limit = min (unwrap_or (sp_limit params) 20) 100
      in JsonReply 200 (JArr (map user_to_json (search_results (tb_users data) q page limit))))"

definition actix_echo :: "bytes \<Rightarrow> bench_reply" where
  "actix_echo body = Reply 200 [(''content-type'', ''application/json'')] body"

definition actix_browser_page :: bench_reply where
  "actix_browser_page = Reply 200 [(''content-type'', ''text/html; charset=utf-8'')] (as_bytes HELLO_PAGE)"

definition actix_redirect_handler :: bench_reply where
  "actix_redirect_handler = Reply 302 [(''location'', ''/plaintext'')] []"

text \<open>The routes are attributes of the handlers; \<open>main\<close> registers them.\<close>

definition actix_app :: "rand_rng \<Rightarrow> bench_tables \<Rightarrow> extracted route_table" where
  "actix_app rng data =
     [(GET, ''/plaintext'', \<lambda>x k. Some (actix_plaintext, k)),
      (GET, ''/json'', \<lambda>x k. Some (actix_json, k)),
      (GET, ''/db'', \<lambda>x. actix_db rng data),
      (GET, ''/queries'', \<lambda>x. actix_queries rng data (ex_queries x)),
      (GET, ''/fortunes'', \<lambda>x k. Some (actix_fortunes data, k)),
      (GET, ''/updates'', \<lambda>x. actix_updates rng data (ex_queries x)),
      (GET, ''/cached-queries'', \<lambda>x. actix_cached_queries rng data (ex_cached x)),
      (GET, ''/api/users/{id}'', \<lambda>x k. Some (actix_user_by_id data (ex_id x), k)),
      (GET, ''/api/search'', \<lambda>x k. Some (actix_search data (ex_search x), k)),
      (POST, ''/api/echo'', \<lambda>x k. Some (actix_echo (ex_body x), k)),
      (GET, ''/browser/page'', \<lambda>x k. Some (actix_browser_page, k)),
      (GET, ''/redirect'', \<lambda>x k. Some (actix_redirect_handler, k))]"

definition actix_addr :: "string option \<Rightarrow> string" where
  "actix_addr port = ''0.0.0.0:'' @ nat_to_string (unat (parse_port port 3002))"

subsection \<open>xitca\<close>

text \<open>A handler gets the query of the request target and returns a text; the page of fortunes is
  rendered once, when the server starts. \<open>to_string\<close> is \<open>serde_json\<close>'s.\<close>

definition xitca_db :: "rand_rng \<Rightarrow> (json \<Rightarrow> string) \<Rightarrow> world list \<Rightarrow> nat \<Rightarrow> answer" where
  "xitca_db rng to_string worlds k =
     map_option (\<lambda>w. (TextReply (to_string (world_to_json w)), k + 1)) (world_at rng worlds k)"

definition xitca_queries :: "rand_rng \<Rightarrow> (json \<Rightarrow> string) \<Rightarrow> world list \<Rightarrow> string option \<Rightarrow> nat \<Rightarrow> answer" where
  "xitca_queries rng to_string worlds uri_q k =
     (let n = parse_count (parse_query_param (unwrap_or uri_q []) ''queries'')
      in map_option (\<lambda>ws. (TextReply (to_string (JArr (map world_to_json ws))), k + n)) (pick_worlds rng worlds n k))"

definition xitca_updates :: "rand_rng \<Rightarrow> (json \<Rightarrow> string) \<Rightarrow> world list \<Rightarrow> string option \<Rightarrow> nat \<Rightarrow> answer" where
  "xitca_updates rng to_string worlds uri_q k =
     (let n = parse_count (parse_query_param (unwrap_or uri_q []) ''queries'')
      in map_option (\<lambda>ws. (TextReply (to_string (JArr (map world_to_json ws))), k + 2 * n)) (update_worlds rng worlds n k))"

definition xitca_cached :: "rand_rng \<Rightarrow> (json \<Rightarrow> string) \<Rightarrow> world list \<Rightarrow> string option \<Rightarrow> nat \<Rightarrow> answer" where
  "xitca_cached rng to_string worlds uri_q k =
     (let n = parse_count (parse_query_param (unwrap_or uri_q []) ''count'')
      in map_option (\<lambda>ws. (TextReply (to_string (JArr (map world_to_json ws))), k + n)) (pick_worlds rng worlds n k))"

definition xitca_app ::
  "rand_rng \<Rightarrow> (json \<Rightarrow> string) \<Rightarrow> world list \<Rightarrow> fortune list \<Rightarrow> string option route_table" where
  "xitca_app rng to_string worlds fortunes =
     (let fortunes_html = render_fortunes_html fortunes
      in [(GET, ''/plaintext'', \<lambda>u k. Some (TextReply ''Hello, World!'', k)),
          (GET, ''/json'', \<lambda>u k. Some (TextReply HELLO_JSON, k)),
          (GET, ''/db'', \<lambda>u. xitca_db rng to_string worlds),
          (GET, ''/queries'', xitca_queries rng to_string worlds),
          (GET, ''/fortunes'', \<lambda>u k. Some (TextReply fortunes_html, k)),
          (GET, ''/updates'', xitca_updates rng to_string worlds),
          (GET, ''/cached-queries'', xitca_cached rng to_string worlds)])"

definition xitca_addr :: "string option \<Rightarrow> string" where
  "xitca_addr port = ''0.0.0.0:'' @ nat_to_string (unat (parse_port port 3011))"

section \<open>The common tests\<close>

datatype bench_test = Plaintext | Json_Text | Db | Queries | Fortunes | Updates | Cached_Queries

fun test_path :: "bench_test \<Rightarrow> string" where
  "test_path Plaintext = ''/plaintext''"
| "test_path Json_Text = ''/json''"
| "test_path Db = ''/db''"
| "test_path Queries = ''/queries''"
| "test_path Fortunes = ''/fortunes''"
| "test_path Updates = ''/updates''"
| "test_path Cached_Queries = ''/cached-queries''"

definition count_param :: "bench_test \<Rightarrow> string" where
  "count_param t = (if t = Cached_Queries then ''count'' else ''queries'')"

text \<open>The content of a reply, a value being written by \<open>serde_json\<close>.\<close>

fun reply_text :: "(json \<Rightarrow> bytes) \<Rightarrow> bench_reply \<Rightarrow> bytes" where
  "reply_text to_vec (Reply s hs b) = b"
| "reply_text to_vec (JsonReply s j) = to_vec j"
| "reply_text to_vec (HtmlReply h) = as_bytes h"
| "reply_text to_vec (RedirectReply l) = []"
| "reply_text to_vec (TextReply h) = as_bytes h"

text \<open>The answer of each server to a test, as its content and the number of draws afterwards.\<close>

definition routed :: "'x route_table \<Rightarrow> (json \<Rightarrow> bytes) \<Rightarrow> bench_test \<Rightarrow> 'x \<Rightarrow> nat \<Rightarrow> (bytes \<times> nat) option" where
  "routed routes to_vec t x k =
     (case List.find (\<lambda>(m, p, h). m = GET \<and> p = test_path t) routes of
        None \<Rightarrow> None
      | Some (m, p, h) \<Rightarrow> map_option (map_prod (reply_text to_vec) id) (h x k))"

definition hyper_serve ::
  "rand_rng \<Rightarrow> (json \<Rightarrow> bytes) \<Rightarrow> bench_tables \<Rightarrow> bench_test \<Rightarrow> string option \<Rightarrow> nat \<Rightarrow> (bytes \<times> nat) option" where
  "hyper_serve rng to_vec T t query k =
     map_option (map_prod (reply_text to_vec) id)
       (hyper_handle rng to_vec T
          \<lparr>hq_method = GET, hq_uri = \<lparr>uri_path = test_path t, uri_query = query\<rparr>, hq_body = Some []\<rparr> k)"

fun mahalo_test_plug :: "'h http_api \<Rightarrow> bench_env \<Rightarrow> bench_tables \<Rightarrow> bench_test \<Rightarrow> 'h bench_conn \<Rightarrow> 'h bench_conn" where
  "mahalo_test_plug H E T Plaintext = plaintext_plug H"
| "mahalo_test_plug H E T Json_Text = json_plug H"
| "mahalo_test_plug H E T Db = db_plug H E (tb_worlds T)"
| "mahalo_test_plug H E T Queries = queries_plug H E (tb_worlds T) ''queries''"
| "mahalo_test_plug H E T Fortunes = fortunes_plug H (tb_fortunes T)"
| "mahalo_test_plug H E T Updates = updates_plug H E (tb_worlds T)"
| "mahalo_test_plug H E T Cached_Queries = queries_plug H E (tb_worlds T) ''count''"

definition mahalo_serve ::
  "'h http_api \<Rightarrow> bench_env \<Rightarrow> bench_tables \<Rightarrow> bench_test \<Rightarrow> 'h bench_conn \<Rightarrow> nat \<Rightarrow> (bytes \<times> nat) option" where
  "mahalo_serve H E T t c k =
     (let c' = mahalo_test_plug H E T t (c\<lparr>bc_draws := k, bc_panicked := False\<rparr>)
      in if bc_panicked c' then None else Some (conn_resp_body c', bc_draws c'))"

text \<open>The reference: the answer to a test as a function of the count that was asked for.\<close>

definition techempower ::
  "rand_rng \<Rightarrow> (json \<Rightarrow> bytes) \<Rightarrow> world list \<Rightarrow> fortune list \<Rightarrow> bench_test \<Rightarrow> string option \<Rightarrow> nat
    \<Rightarrow> (bytes \<times> nat) option" where
  "techempower rng to_vec worlds fortunes t raw k =
     (let rows = (\<lambda>d. map_option (\<lambda>ws. (to_vec (JArr (map world_to_json ws)), k + d * parse_count raw)))
      in case t of
        Plaintext \<Rightarrow> Some (as_bytes ''Hello, World!'', k)
      | Json_Text \<Rightarrow> Some (as_bytes HELLO_JSON, k)
      | Db \<Rightarrow> map_option (\<lambda>w. (to_vec (world_to_json w), k + 1)) (world_at rng worlds k)
      | Fortunes \<Rightarrow> Some (as_bytes (render_fortunes_html fortunes), k)
      | Updates \<Rightarrow> rows 2 (update_worlds rng worlds (parse_count raw) k)
      | _ \<Rightarrow> rows 1 (pick_worlds rng worlds (parse_count raw) k))"

lemma parse_count_bounds: "1 \<le> parse_count raw" "parse_count raw \<le> 500"
  by (simp_all add: parse_count_def)

lemma random_number_bounds:
  assumes "rng_laws rng"
  shows "1 \<le> random_number rng k \<and> random_number rng k \<le> 10000"
proof -
  have "rng k 10000 < 10000" using assms by (simp add: rng_laws_def)
  then have "unat (random_number rng k) = Suc (rng k 10000)"
    by (simp add: random_number_def unat_word_ariths unat_of_nat)
  with \<open>rng k 10000 < 10000\<close> show ?thesis by (simp add: word_le_nat_alt)
qed

lemma pick_worlds_rows:
  assumes "rng_laws rng" and "worlds \<noteq> []"
  obtains ws where "pick_worlds rng worlds n k = Some ws" and "length ws = n" and "set ws \<subseteq> set worlds"
proof (rule that)
  show "pick_worlds rng worlds n k = Some (map (\<lambda>j. worlds ! rng (k + j) (length worlds)) [0..<n])"
    by (rule worlds_Some(1) [OF assms])
qed (use world_at_Some(2) [OF assms] in auto)

lemma update_worlds_rows:
  assumes "rng_laws rng" and "worlds \<noteq> []"
  obtains ws where "update_worlds rng worlds n k = Some ws" and "length ws = n" and "wd_id ` set ws \<subseteq> wd_id ` set worlds"
    and "\<forall>w\<in>set ws. 1 \<le> wd_random_number w \<and> wd_random_number w \<le> 10000"
proof (rule that)
  show "update_worlds rng worlds n k = Some (map (\<lambda>j. (worlds ! rng (k + 2 * j) (length worlds))
      \<lparr>wd_random_number := random_number rng (k + 2 * j + 1)\<rparr>) [0..<n])"
    by (rule worlds_Some(2) [OF assms])
qed (use world_at_Some(2) [OF assms] random_number_bounds [OF assms(1)] in auto)

subsection \<open>The interface\<close>

text \<open>What a benchmark server promises: the content of its answer to each test, given the count
  that it reads from the request, and how many random numbers it draws.\<close>

locale techempower_server =
  fixes rng :: rand_rng
    and to_vec :: "json \<Rightarrow> bytes"
    and worlds :: "world list"
    and fortunes :: "fortune list"
    and param :: "'q \<Rightarrow> string \<Rightarrow> string option"
    and serve :: "bench_test \<Rightarrow> 'q \<Rightarrow> nat \<Rightarrow> (bytes \<times> nat) option"
  assumes plaintext_law: "serve Plaintext q k = Some (as_bytes ''Hello, World!'', k)"
    and json_law: "serve Json_Text q k = Some (as_bytes HELLO_JSON, k)"
    and fortunes_law: "serve Fortunes q k = Some (as_bytes (render_fortunes_html fortunes), k)"
    and db_law: "serve Db q k = map_option (\<lambda>w. (to_vec (world_to_json w), k + 1)) (world_at rng worlds k)"
    and picks_law: "t = Queries \<or> t = Cached_Queries \<Longrightarrow> n = parse_count (param q (count_param t)) \<Longrightarrow>
      serve t q k = map_option (\<lambda>ws. (to_vec (JArr (map world_to_json ws)), k + n)) (pick_worlds rng worlds n k)"
    and updates_law: "n = parse_count (param q (count_param Updates)) \<Longrightarrow>
      serve Updates q k = map_option (\<lambda>ws. (to_vec (JArr (map world_to_json ws)), k + 2 * n)) (update_worlds rng worlds n k)"
begin

lemmas serve_laws = plaintext_law json_law fortunes_law db_law picks_law updates_law

lemma serve_total:
  assumes "rng_laws rng" and "worlds \<noteq> []"
  shows "\<exists>b k'. serve t q k = Some (b, k')"
  by (cases t) (simp_all add: serve_laws world_at_Some [OF assms] worlds_Some [OF assms])

text \<open>A list of rows has one to 500 rows, all of the table; an update changes their numbers only,
  to numbers from 1 to 10000.\<close>

lemma serve_rows:
  assumes "rng_laws rng" and "worlds \<noteq> []" and "t = Queries \<or> t = Cached_Queries"
  shows "\<exists>ws. serve t q k = Some (to_vec (JArr (map world_to_json ws)), k + length ws) \<and>
    1 \<le> length ws \<and> length ws \<le> 500 \<and> set ws \<subseteq> set worlds"
proof -
  let ?n = "parse_count (param q (count_param t))"
  obtain ws where "pick_worlds rng worlds ?n k = Some ws" "length ws = ?n" "set ws \<subseteq> set worlds"
    using pick_worlds_rows [OF assms(1,2)] .
  with picks_law [OF assms(3) refl, of q k] parse_count_bounds [of "param q (count_param t)"] show ?thesis by auto
qed

lemma serve_updates:
  assumes "rng_laws rng" and "worlds \<noteq> []"
  shows "\<exists>ws. serve Updates q k = Some (to_vec (JArr (map world_to_json ws)), k + 2 * length ws) \<and>
    1 \<le> length ws \<and> length ws \<le> 500 \<and> wd_id ` set ws \<subseteq> wd_id ` set worlds \<and>
    (\<forall>w\<in>set ws. 1 \<le> wd_random_number w \<and> wd_random_number w \<le> 10000)"
proof -
  let ?n = "parse_count (param q (count_param Updates))"
  obtain ws where "update_worlds rng worlds ?n k = Some ws" "length ws = ?n" "wd_id ` set ws \<subseteq> wd_id ` set worlds"
    "\<forall>w\<in>set ws. 1 \<le> wd_random_number w \<and> wd_random_number w \<le> 10000"
    using update_worlds_rows [OF assms] .
  with updates_law [OF refl, of q k] parse_count_bounds [of "param q (count_param Updates)"] show ?thesis by auto
qed

text \<open>The answer depends on the request through the count only.\<close>

lemma serve_by_param: "serve t q k = techempower rng to_vec worlds fortunes t (param q (count_param t)) k"
  by (cases t) (simp_all add: serve_laws techempower_def Let_def)

end

subsection \<open>The servers provide it\<close>

lemma routed_simps [simp]:
  "routed [] to_vec t x k = None"
  "routed ((m, p, h) # routes) to_vec t x k =
     (if m = GET \<and> p = test_path t then map_option (map_prod (reply_text to_vec) id) (h x k) else routed routes to_vec t x k)"
  by (simp_all add: routed_def)

lemmas axum_handler_defs = axum_plaintext_def axum_json_def axum_db_def axum_queries_def axum_fortunes_def axum_updates_def
  axum_cached_queries_def

lemmas actix_handler_defs = actix_plaintext_def actix_json_def actix_db_def actix_queries_def actix_fortunes_def
  actix_updates_def actix_cached_queries_def

lemmas xitca_handler_defs = xitca_db_def xitca_queries_def xitca_updates_def xitca_cached_def

lemmas hyper_handler_defs = hyper_ok_response_def hyper_json_response_def hyper_db_def hyper_queries_def hyper_updates_def

definition query_fields :: "extracted \<Rightarrow> string \<Rightarrow> string option" where
  "query_fields x name = (if name = ''count'' then cp_count (ex_cached x) else qp_queries (ex_queries x))"

lemma techempower_serverI:
  assumes "\<And>t q k. srv t q k = techempower rng to_vec worlds fortunes t (param q (count_param t)) k"
  shows "techempower_server rng to_vec worlds fortunes param srv"
  by unfold_locales (auto simp: assms techempower_def Let_def)

lemmas serve_simps = count_param_def techempower_def Let_def option.map_comp comp_def

lemma axum_serves:
  "routed (axum_app rng T) to_vec t x k =
     techempower rng to_vec (tb_worlds T) (tb_fortunes T) t (query_fields x (count_param t)) k"
  by (cases t) (simp_all add: axum_app_def axum_handler_defs query_fields_def serve_simps)

lemma actix_serves:
  "routed (actix_app rng T) to_vec t x k =
     techempower rng to_vec (tb_worlds T) (tb_fortunes T) t (query_fields x (count_param t)) k"
  by (cases t) (simp_all add: actix_app_def actix_handler_defs query_fields_def serve_simps)

lemma xitca_serves:
  "routed (xitca_app rng to_string worlds fortunes) (\<lambda>j. as_bytes (to_string j)) t q k =
     techempower rng (\<lambda>j. as_bytes (to_string j)) worlds fortunes t (parse_query_param (unwrap_or q []) (count_param t)) k"
  by (cases t) (simp_all add: xitca_app_def xitca_handler_defs serve_simps)

lemma hyper_serves:
  "hyper_serve rng to_vec T t q k =
     techempower rng to_vec (tb_worlds T) (tb_fortunes T) t (parse_query_param (unwrap_or q []) (count_param t)) k"
  by (cases t) (simp_all add: hyper_serve_def hyper_handle_def hyper_handler_defs serve_simps)

lemma mahalo_responses:
  "conn_resp_body (respond_static H st ct b c) = b" "conn_resp_body (respond_bytes H ct b c) = b"
  "bc_draws (respond_static H st ct b c) = bc_draws c" "bc_draws (respond_bytes H ct b c) = bc_draws c"
  "bc_panicked (respond_static H st ct b c) = bc_panicked c" "bc_panicked (respond_bytes H ct b c) = bc_panicked c"
  by (auto simp: respond_static_def respond_bytes_def put_resp_body_def put_resp_body_static_def put_resp_header_static_def
      put_status_def split: option.splits)

lemma mahalo_serves:
  "mahalo_serve H E T t c k =
     techempower (be_rng E) (be_to_vec E) (tb_worlds T) (tb_fortunes T) t
       (query_param (parse_query_params (be_decode E) c) (count_param t)) k"
proof -
  have frame: "query_param (parse_query_params d (c\<lparr>bc_draws := k, bc_panicked := False\<rparr>)) = query_param (parse_query_params d c)"
    "bc_draws (parse_query_params d (c\<lparr>bc_draws := k, bc_panicked := False\<rparr>)) = k"
    "bc_panicked (parse_query_params d (c\<lparr>bc_draws := k, bc_panicked := False\<rparr>)) = False" for d
    by (auto simp: parse_query_params_def query_param_def split: option.splits)
  show ?thesis
    by (cases t) (simp_all add: mahalo_serve_def plaintext_plug_def json_plug_def HELLO_JSON_def db_plug_def queries_plug_def
        updates_plug_def fortunes_plug_def respond_worlds_def mahalo_responses frame serve_simps split: option.splits)
qed

interpretation mahalo_bench: techempower_server "be_rng E" "be_to_vec E" "tb_worlds T" "tb_fortunes T"
    "\<lambda>c. query_param (parse_query_params (be_decode E) c)" "mahalo_serve H E T"
  for H E T
  by (rule techempower_serverI) (rule mahalo_serves)

interpretation hyper_bench: techempower_server rng to_vec "tb_worlds T" "tb_fortunes T"
    "\<lambda>q. parse_query_param (unwrap_or q [])" "hyper_serve rng to_vec T"
  for rng to_vec T
  by (rule techempower_serverI) (rule hyper_serves)

interpretation axum_bench: techempower_server rng to_vec "tb_worlds T" "tb_fortunes T" query_fields
    "routed (axum_app rng T) to_vec"
  for rng to_vec T
  by (rule techempower_serverI) (rule axum_serves)

interpretation actix_bench: techempower_server rng to_vec "tb_worlds T" "tb_fortunes T" query_fields
    "routed (actix_app rng T) to_vec"
  for rng to_vec T
  by (rule techempower_serverI) (rule actix_serves)

interpretation xitca_bench: techempower_server rng "\<lambda>j. as_bytes (to_string j)" worlds fortunes
    "\<lambda>q. parse_query_param (unwrap_or q [])" "routed (xitca_app rng to_string worlds fortunes) (\<lambda>j. as_bytes (to_string j))"
  for rng to_string worlds fortunes
  by (rule techempower_serverI) (rule xitca_serves)

section \<open>Reading the count\<close>

text \<open>A query string of pairs that no decoding changes, with distinct keys.\<close>

definition query_string :: "(string \<times> string) list \<Rightarrow> string" where
  "query_string kvs = join ''&'' (map (\<lambda>(k, v). k @ CHR ''='' # v) kvs)"

definition plain_pairs :: "(string \<Rightarrow> string) \<Rightarrow> (string \<times> string) list \<Rightarrow> bool" where
  "plain_pairs decode kvs \<longleftrightarrow> kvs \<noteq> [] \<and> distinct (map fst kvs) \<and>
     (\<forall>(k, v) \<in> set kvs. CHR ''='' \<notin> set k \<and> CHR ''&'' \<notin> set k \<and> CHR ''&'' \<notin> set v \<and> decode k = k \<and> decode v = v)"

lemma split_query_string:
  assumes "kvs \<noteq> []" and "\<forall>(k, v) \<in> set kvs. CHR ''&'' \<notin> set k \<and> CHR ''&'' \<notin> set v"
  shows "split_on (CHR ''&'') (query_string kvs) = map (\<lambda>(k, v). k @ CHR ''='' # v) kvs"
  unfolding query_string_def using assms by (intro split_on_join) auto

lemma split_once_pair: "CHR ''='' \<notin> set k \<Longrightarrow> split_once (CHR ''='') (k @ CHR ''='' # v) = Some (k, v)"
  by (simp add: split_once_def takeWhile_append dropWhile_append)

text \<open>The shared helper gives the first pair of a key, \<open>Conn\<close> the last one.\<close>

lemma parse_query_param_pairs:
  assumes "kvs \<noteq> []" and "\<forall>(k, v) \<in> set kvs. CHR ''='' \<notin> set k \<and> CHR ''&'' \<notin> set k \<and> CHR ''&'' \<notin> set v"
  shows "parse_query_param (query_string kvs) name = map_of kvs name"
proof -
  have "find_map (\<lambda>pair. case split_once (CHR ''='') pair of None \<Rightarrow> None | Some (k, v) \<Rightarrow> if k = name then Some v else None)
      (map (\<lambda>(k, v). k @ CHR ''='' # v) ps) = map_of ps name" if "set ps \<subseteq> set kvs" for ps
    using that
  proof (induction ps)
    case (Cons p ps)
    then show ?case using assms(2) by (cases p) (auto simp: split_once_pair)
  qed simp
  moreover have "split_on (CHR ''&'') (query_string kvs) = map (\<lambda>(k, v). k @ CHR ''='' # v) kvs"
    using assms by (intro split_query_string) auto
  ultimately show ?thesis by (simp add: parse_query_param_def)
qed

lemma query_param_pairs:
  assumes "plain_pairs decode kvs" and "uri_query (conn_uri c) = Some (query_string kvs)"
  shows "query_param (parse_query_params decode c) name = map_of kvs name"
proof -
  have "split_on (CHR ''&'') (query_string kvs) = map (\<lambda>(k, v). k @ CHR ''='' # v) kvs"
    using assms(1) by (intro split_query_string) (auto simp: plain_pairs_def)
  moreover have "map (\<lambda>(k, v). (decode k, decode v)) kvs = kvs"
    using assms(1) by (intro map_idI) (auto simp: plain_pairs_def)
  moreover have "map (\<lambda>p. case split_pair p of (k, v) \<Rightarrow> (decode k, decode v)) (map (\<lambda>(k, v). k @ CHR ''='' # v) kvs) =
      map (\<lambda>(k, v). (decode k, decode v)) kvs"
    using assms(1) by (auto simp: plain_pairs_def split_pair_encoded)
  ultimately have "query_pairs decode (query_string kvs) = kvs"
    by (simp add: query_pairs_def)
  moreover have "map_of (rev kvs) = map_of kvs"
    using assms(1) by (simp add: plain_pairs_def map_of_rev_distinct)
  ultimately show ?thesis by (simp add: query_param_parse [OF assms(2)])
qed

section \<open>Properties\<close>


section \<open>Where the servers differ\<close>

text \<open>Of a repeated parameter, \<open>hyper\<close> and \<open>xitca\<close> take the first value and \<open>Conn\<close> the last.\<close>

lemma repeated_count_differs:
  assumes "uri_query (conn_uri c) = Some ''queries=2&queries=3''"
  shows "parse_query_param ''queries=2&queries=3'' ''queries'' = Some ''2'' \<and>
    query_param (parse_query_params (\<lambda>s. s) c) ''queries'' = Some ''3''"
proof
  show "parse_query_param ''queries=2&queries=3'' ''queries'' = Some ''2''" by code_simp
  have "map_of (rev (query_pairs (\<lambda>s. s) ''queries=2&queries=3'')) ''queries'' = Some ''3''" by code_simp
  then show "query_param (parse_query_params (\<lambda>s. s) c) ''queries'' = Some ''3''"
    by (simp only: query_param_parse [OF assms])
qed

text \<open>An identifier that is no number is answered 400 by \<open>hyper\<close>; the server on the framework
  takes it for 0 and answers 404.\<close>

lemma invalid_user_id_differs:
  assumes "path_param c ''id'' = Some raw" and "parse_u64 raw = None" and "\<forall>u \<in> set (tb_users T). us_id u \<noteq> 0"
  shows "hyper_user to_vec T raw = Reply 400 [] (as_bytes ''invalid id'')"
    and "conn_status (user_plug H E (tb_users T) c) = 404"
proof -
  show "hyper_user to_vec T raw = Reply 400 [] (as_bytes ''invalid id'')" using assms(2) by (simp add: hyper_user_def)
  have "List.find (\<lambda>u. us_id u = parse_id_param c) (tb_users T) = None"
    using assms by (simp add: find_None_iff parse_id_param_def unwrap_or_def)
  then show "conn_status (user_plug H E (tb_users T) c) = 404"
    by (simp add: user_plug_def respond_static_def put_resp_body_static_def put_resp_header_static_def put_status_def
        split: option.splits)
qed

lemma hyper_rows_total:
  assumes "rng_laws rng" and "tb_worlds T \<noteq> []"
  shows "hyper_db rng to_vec T k \<noteq> None" and "hyper_queries rng to_vec T name query k \<noteq> None"
    and "hyper_updates rng to_vec T query k \<noteq> None"
  by (simp_all add: hyper_db_def hyper_queries_def hyper_updates_def Let_def world_at_Some [OF assms] worlds_Some [OF assms])

lemma hyper_handle_total:
  assumes "rng_laws rng" and "tb_worlds T \<noteq> []"
  shows "hyper_handle rng to_vec T req k \<noteq> None"
  unfolding hyper_handle_def Let_def
  by (simp only: hyper_rows_total [OF assms] option.distinct if_distrib [of "\<lambda>x. x = None"] simp_thms if_cancel)

section \<open>Witnesses\<close>

definition demo_tables :: bench_tables where
  "demo_tables = \<lparr>tb_worlds = [\<lparr>wd_id = 1, wd_random_number = 7\<rparr>, \<lparr>wd_id = 2, wd_random_number = 9\<rparr>], tb_fortunes = [], tb_users = []\<rparr>"

definition demo_query_conn :: "string \<Rightarrow> (string \<times> bytes) list bench_conn" where
  "demo_query_conn q = (demo_bench_conn ''/queries'')\<lparr>conn_uri := \<lparr>uri_path = ''/queries'', uri_query = Some q\<rparr>\<rparr>"

definition demo_extracted :: extracted where
  "demo_extracted =
     \<lparr>ex_queries = \<lparr>qp_queries = Some ''2''\<rparr>, ex_cached = \<lparr>cp_count = None\<rparr>,
      ex_search = \<lparr>sp_q = None, sp_page = None, sp_limit = None\<rparr>, ex_id = 0, ex_body = []\<rparr>"


end
