(* ===== verification/Ws_Channels.thy ===== *)
theory Ws_Channels
  imports Ws_Session Mahalo_Channel
begin

text \<open>
  A WebSocket conversation from end to end: the reader of \<open>mahalo-endpoint/src/server.rs\<close> hands the
  client's texts to \<open>handle_websocket\<close> of \<open>mahalo-channel/src/socket.rs\<close>, which casts them to the
  connection server; what channels send goes through the queue to the writer, and back to the client
  as frames. The three tasks run side by side; the connection server's mailbox is any interleaving of
  the client's texts with PubSub and timer messages.
\<close>

section \<open>Definitions\<close>

text \<open>What a client sends, each text with its masking key.\<close>

definition text_frames :: "(string \<times> bytes) list \<Rightarrow> bytes" where
  "text_frames msgs = concat (map (\<lambda>(m, key). build_masked_frame OPCODE_TEXT (as_bytes m) key) msgs)"

text \<open>The client's view of the bytes written to it.\<close>

definition written :: "io \<Rightarrow> bytes" where
  "written w = concat (map fst (filter snd (io_out w)))"

lemma decode_server_frame_shorter: "decode_server_frame bs = Some (opc, p, rest) \<Longrightarrow> length rest < length bs"
  by (auto simp: decode_server_frame_def Let_def split: list.splits if_splits)

function server_frames :: "bytes \<Rightarrow> (u8 \<times> bytes) list" where
  "server_frames bs =
     (case decode_server_frame bs of
        None \<Rightarrow> []
      | Some (opc, p, rest) \<Rightarrow> (opc, p) # server_frames rest)"
  by pat_completeness auto
termination by (relation "measure length") (auto dest: decode_server_frame_shorter)

declare server_frames.simps [simp del]

text \<open>The mailbox: the client's casts in their order, interleaved with other messages.\<close>

fun is_cast :: "mail \<Rightarrow> bool" where
  "is_cast (Cast t) = True"
| "is_cast (Info t) = False"

text \<open>One conversation: the texts that the reader extracts, the state of the connection server after a
  mailbox \<open>ms\<close>, and the connection after the writer has sent its queue.\<close>

definition conversation ::
  "json_api \<Rightarrow> 'z channel_router \<Rightarrow> mail list \<Rightarrow> 'z conn_state \<Rightarrow> io \<Rightarrow> 'z conn_state \<times> io" where
  "conversation J routes ms st w = (let st' = serve J routes ms st in (st', ws_writer (cw_out (st_world st')) w))"

definition client_mail :: "(nat \<Rightarrow> bool) \<Rightarrow> (nat \<Rightarrow> bool) \<Rightarrow> bytes list \<Rightarrow> io \<Rightarrow> mail list" where
  "client_mail rx_open cast_ok chunks w =
     handle_websocket cast_ok 0 (wp_sent (wr_peer (ws_streaming_loop rx_open (map ReadOk chunks) w)))"

section \<open>The reader\<close>

abbreviation (input) text_ok :: "string \<times> bytes \<Rightarrow> bool" where
  "text_ok mk \<equiv> length (snd mk) = 4 \<and> length (fst mk) + 14 < WS_MAX_FRAME_SIZE \<and> from_utf8 (as_bytes (fst mk)) = Some (fst mk)"

lemma text_frame_step:
  assumes "text_ok (m, key)"
  shows "ws_spec (\<lambda>_. True) (build_masked_frame OPCODE_TEXT (as_bytes m) key @ rest) p =
    ws_spec (\<lambda>_. True) rest (p\<lparr>wp_sent := wp_sent p @ [m]\<rparr>)"
proof -
  have "ws_handle_frame (\<lambda>_. True) \<lparr>ws_opcode = OPCODE_TEXT, ws_payload = as_bytes m\<rparr> p = (p\<lparr>wp_sent := wp_sent p @ [m]\<rparr>, True)"
    using assms by (simp add: ws_handle_frame_def from_utf8_lossy_valid)
  moreover have "ws_opcode_ok OPCODE_TEXT" "8 \<le> OPCODE_TEXT \<longrightarrow> length (as_bytes m) \<le> 125"
    by (simp_all add: ws_opcode_ok_def OPCODE_TEXT_def word_le_nat_alt)
  ultimately show ?thesis using assms by (simp add: ws_spec_built WS_MAX_FRAME_SIZE_def)
qed

lemma length_build_masked_frame: "length key = 4 \<Longrightarrow> length (build_masked_frame opc p key) \<le> length p + 14"
  by (simp add: build_masked_frame_def ws_len_bytes_def length_to_be_bytes)

lemma text_frame_prefix:
  assumes "text_ok (m, key)" and "n < length (build_masked_frame OPCODE_TEXT (as_bytes m) key)"
  shows "ws_spec rx (take n (build_masked_frame OPCODE_TEXT (as_bytes m) key)) p =
    (p, Some (take n (build_masked_frame OPCODE_TEXT (as_bytes m) key)))"
proof -
  have "ws_opcode_ok OPCODE_TEXT" "8 \<le> OPCODE_TEXT \<longrightarrow> length (as_bytes m) \<le> 125"
    by (simp_all add: ws_opcode_ok_def OPCODE_TEXT_def word_le_nat_alt)
  then have "try_parse_frame (take n (build_masked_frame OPCODE_TEXT (as_bytes m) key)) = Ok None"
    using assms by (intro try_parse_frame_built_take) (simp_all add: WS_MAX_FRAME_SIZE_def)
  then show ?thesis by (subst ws_spec_def, subst frames.consume_simp) (simp add: frame_verdict_def)
qed

text \<open>However much of the input has arrived, less than one frame of it is pending.\<close>

lemma text_frames_pending:
  "\<forall>mk \<in> set msgs. text_ok mk \<Longrightarrow> ws_pending (\<lambda>_. True) (take n (text_frames msgs)) p < WS_MAX_FRAME_SIZE"
proof (induction msgs arbitrary: n p)
  case Nil
  then show ?case
    by (simp add: text_frames_def ws_pending_def ws_spec_def consume.simps frame_verdict_def try_parse_frame_def WS_MAX_FRAME_SIZE_def)
next
  case (Cons mk msgs)
  obtain m key where mk: "mk = (m, key)" by (cases mk)
  let ?f = "build_masked_frame OPCODE_TEXT (as_bytes m) key"
  have ok: "text_ok (m, key)" using Cons.prems mk by simp
  have split: "text_frames (mk # msgs) = ?f @ text_frames msgs" by (simp add: text_frames_def mk)
  show ?case
  proof (cases "n < length ?f")
    case True
    then have "length (take n ?f) < WS_MAX_FRAME_SIZE"
      using ok length_build_masked_frame [of key OPCODE_TEXT "as_bytes m"] by simp
    with True text_frame_prefix [OF ok True] show ?thesis by (simp add: split ws_pending_def)
  next
    case False
    then have "ws_pending (\<lambda>_. True) (take n (text_frames (mk # msgs))) p =
        ws_pending (\<lambda>_. True) (take (n - length ?f) (text_frames msgs)) (p\<lparr>wp_sent := wp_sent p @ [m]\<rparr>)"
      by (simp add: split ws_pending_def text_frame_step [OF ok])
    with Cons.IH Cons.prems show ?thesis by simp
  qed
qed

lemma text_frames_spec:
  "\<forall>mk \<in> set msgs. text_ok mk \<Longrightarrow> fst (ws_spec (\<lambda>_. True) (text_frames msgs) p) = p\<lparr>wp_sent := wp_sent p @ map fst msgs\<rparr>"
proof (induction msgs arbitrary: p)
  case Nil
  then show ?case by (simp add: text_frames_def ws_spec_def consume.simps frame_verdict_def try_parse_frame_def)
next
  case (Cons mk msgs)
  obtain m key where mk: "mk = (m, key)" by (cases mk)
  have ok: "text_ok (m, key)" using Cons.prems mk by simp
  have "text_frames (mk # msgs) = build_masked_frame OPCODE_TEXT (as_bytes m) key @ text_frames msgs"
    by (simp add: text_frames_def mk)
  with Cons text_frame_step [OF ok] show ?case by (simp add: mk)
qed

lemma take_concat: "\<exists>n. concat (take k xss) = take n (concat xss)"
  by (metis append_eq_conv_conj append_take_drop_id concat_append)

lemma handle_websocket_all: "\<forall>n. cast_ok n \<Longrightarrow> handle_websocket cast_ok n ts = map Cast ts"
  by (induction ts arbitrary: n) simp_all

lemma client_mail_texts:
  assumes "\<forall>mk \<in> set msgs. text_ok mk" and "concat chunks = text_frames msgs" and "\<forall>c \<in> set chunks. c \<noteq> []" and "\<forall>n. cast_ok n"
  shows "client_mail (\<lambda>_. True) cast_ok chunks w = map (\<lambda>mk. Cast (fst mk)) msgs"
proof -
  have "ws_pending (\<lambda>_. True) (concat (take k chunks)) \<lparr>wp_io = w, wp_sent = []\<rparr> < WS_MAX_FRAME_SIZE" for k
    using take_concat [of k chunks] text_frames_pending [OF assms(1)] assms(2) by metis
  then have "wr_peer (ws_streaming_loop (\<lambda>_. True) (map ReadOk chunks) w) = \<lparr>wp_io = w, wp_sent = map fst msgs\<rparr>"
    using ws_streaming_spec [of chunks "\<lambda>_. True" w] assms(2,3) text_frames_spec [OF assms(1)] by simp
  then show ?thesis by (simp add: client_mail_def handle_websocket_all [OF assms(4)])
qed

section \<open>The writer\<close>

lemma ws_writer_written:
  assumes "\<forall>n. \<not> io_fails w n"
  shows "written (ws_writer msgs w) = written w @ concat (map (\<lambda>m. serialize_frame OPCODE_TEXT (as_bytes m) []) msgs)"
  using assms
proof (induction msgs arbitrary: w)
  case (Cons m msgs)
  then show ?case by (simp add: stream_write_all_def written_def)
qed simp

lemma server_frames_texts:
  "\<forall>m \<in> set msgs. length m < 2 ^ 64 \<Longrightarrow>
     server_frames (concat (map (\<lambda>m. serialize_frame OPCODE_TEXT (as_bytes m) []) msgs)) = map (\<lambda>m. (OPCODE_TEXT, as_bytes m)) msgs"
proof (induction msgs)
  case Nil
  then show ?case by (subst server_frames.simps) (simp add: decode_server_frame_def)
next
  case (Cons m msgs)
  then show ?case
    by (subst server_frames.simps) (simp add: decode_serialize_frame OPCODE_TEXT_def)
qed

section \<open>Properties\<close>

text \<open>C6: A WebSocket connection is a faithful pipe in both directions. A client sends texts as masked
  frames, with any keys, each shorter than the frame limit, and the network cuts the bytes into
  reads as it likes. Then the connection server handles exactly these texts, each once and in order,
  whatever PubSub and timer messages come between them; and the client, decoding the frames written
  to it, reads exactly the messages that channels and the server put into its queue, in order. What
  it gets back is thus determined by its texts and the messages between them, not by the transport.\<close>

theorem ws_conversation:
  assumes "\<forall>mk \<in> set msgs. length (snd mk) = 4 \<and> length (fst mk) + 14 < WS_MAX_FRAME_SIZE \<and> from_utf8 (as_bytes (fst mk)) = Some (fst mk)"
    and "concat chunks = text_frames msgs" and "\<forall>c \<in> set chunks. c \<noteq> []" and "\<forall>n. cast_ok n"
    and "filter is_cast ms = client_mail (\<lambda>_. True) cast_ok chunks w"
    and "io_out w = []" and "\<forall>n. \<not> io_fails w n"
    and "conversation J routes ms st w = (st', w')" and "\<forall>m \<in> set (cw_out (st_world st')). length m < 2 ^ 64"
  shows "filter is_cast ms = map (\<lambda>mk. Cast (fst mk)) msgs \<and> st' = serve J routes ms st \<and>
    server_frames (written w') = map (\<lambda>m. (OPCODE_TEXT, as_bytes m)) (cw_out (st_world (serve J routes ms st)))"
proof -
  have "st' = serve J routes ms st" "w' = ws_writer (cw_out (st_world st')) w"
    using assms(8) by (auto simp: conversation_def Let_def)
  moreover have "written (ws_writer out w) = concat (map (\<lambda>m. serialize_frame OPCODE_TEXT (as_bytes m) []) out)" for out
  proof -
    have "written w = []" by (simp add: written_def assms(6))
    then show ?thesis by (simp add: ws_writer_written [OF assms(7)])
  qed
  ultimately show ?thesis
    using client_mail_texts [OF assms(1-4), of w] assms(5,9) by (simp add: server_frames_texts)
qed

theorem ws_conversation_witness:
  "\<exists>st' w'. conversation demo_json [(''room:*'', echo_channel demo_json)] [Info ''tick'', Cast ''phx_join'']
      (conn_state_init 1 demo_world) demo_io = (st', w') \<and>
    client_mail (\<lambda>_. True) (\<lambda>_. True) [take 5 (text_frames [(''phx_join'', [1, 2, 3, 4])]),
      drop 5 (text_frames [(''phx_join'', [1, 2, 3, 4])])] demo_io = [Cast ''phx_join''] \<and>
    server_frames (written w') = [(OPCODE_TEXT, as_bytes ''room:1|phx_reply'')]"
proof -
  let ?msgs = "[(''phx_join'', [1, 2, 3, 4])] :: (string \<times> bytes) list"
  let ?cs = "[take 5 (text_frames ?msgs), drop 5 (text_frames ?msgs)]"
  let ?routes = "[(''room:*'', echo_channel demo_json)]" and ?ms = "[Info ''tick'', Cast ''phx_join'']"
  let ?st = "serve demo_json ?routes ?ms (conn_state_init 1 demo_world)"
  have ok: "\<forall>mk \<in> set ?msgs. length (snd mk) = 4 \<and> length (fst mk) + 14 < WS_MAX_FRAME_SIZE \<and> from_utf8 (as_bytes (fst mk)) = Some (fst mk)"
  proof -
    have "from_utf8 (as_bytes ''phx_join'') = Some ''phx_join''" by code_simp
    then show ?thesis by (simp add: WS_MAX_FRAME_SIZE_def)
  qed
  have cut: "concat ?cs = text_frames ?msgs" by simp
  have ne: "\<forall>c \<in> set ?cs. c \<noteq> []"
  proof -
    have "length (text_frames ?msgs) = 14" by code_simp
    then show ?thesis by auto
  qed
  note mail = client_mail_texts [OF ok cut ne, of "\<lambda>_. True" demo_io, simplified]
  obtain st' w' where c: "conversation demo_json ?routes ?ms (conn_state_init 1 demo_world) demo_io = (st', w')"
    by (rule prod.exhaust)
  have out: "cw_out (st_world ?st) = [''room:1|phx_reply'']"
    by (simp add: serve_def mail_step_def handle_cast_def handle_info_def deliver_info_def demo_json_def PHX_JOIN_def
        PHX_REPLY_def TIMER_PREFIX_def topic_matches_def ends_with_def starts_with_def handle_join_def echo_channel_def
        conn_state_init_def Let_def reply_if_ref_def socket_reply_def sink_send_def reply_message_def
        subscribe_forwarder_def pubsub_subscribe_def cmd_send_def socket_new_with_pid_def)
  have st': "st' = ?st" using c by (auto simp: conversation_def Let_def)
  have small: "\<forall>m \<in> set (cw_out (st_world st')). length m < 2 ^ 64" unfolding st' out by simp
  have casts: "filter is_cast ?ms = client_mail (\<lambda>_. True) (\<lambda>_. True) ?cs demo_io" using mail by simp
  from ws_conversation [OF ok cut ne _ casts _ _ c small] have "server_frames (written w') = [(OPCODE_TEXT, as_bytes ''room:1|phx_reply'')]"
    unfolding out by simp
  with c mail show ?thesis by simp
qed

end
