(* ===== verification/Conn_Types.thy ===== *)
theory Conn_Types
  imports Shop_Requests Bench_Mahalo
begin

text \<open>
  The types of a connection. The source keeps its assigns in a map from \<open>TypeId\<close> to
  \<open>Box<dyn Any>\<close>: that a stored value has the type that its key stands for is not visible in the type
  of the map, and a value of another type would be lost at the next \<open>downcast\<close>. The status is a
  \<open>StatusCode\<close>, a number of three digits. Both are kept by the builders, by the plugs of the library
  and by every request to the demo store and to the benchmark server.
\<close>

section \<open>Well-typed connections\<close>

definition conn_typed :: "('h, 'z) conn_scheme \<Rightarrow> bool" where
  "conn_typed c \<longleftrightarrow> 100 \<le> conn_status c \<and> conn_status c < 1000 \<and>
     (\<forall>a k v. conn_assigns c = Some a \<longrightarrow> a k = Some v \<longrightarrow> has_type k v)"

definition keeps_types :: "(('h, 'z) conn_scheme \<Rightarrow> ('h, 'z) conn_scheme) \<Rightarrow> bool" where
  "keeps_types f \<longleftrightarrow> (\<forall>c. conn_typed c \<longrightarrow> conn_typed (f c))"

lemma keeps_typesD: "keeps_types f \<Longrightarrow> conn_typed c \<Longrightarrow> conn_typed (f c)"
  by (simp add: keeps_types_def)

text \<open>A typed connection loses no value: reading a key gives what was stored under it.\<close>

lemma typed_get_assign: "conn_typed c \<Longrightarrow> get_assign k c = Option.bind (conn_assigns c) (\<lambda>a. a k)"
  by (cases "Option.bind (conn_assigns c) (\<lambda>a. a k)")
    (auto simp: conn_typed_def get_assign_def downcast_def bind_eq_Some_conv split: option.splits)

lemma conn_new_typed [simp]: "conn_typed (conn_new H m u)"
  by (simp add: conn_typed_def conn_new_def)

lemma conn_reset_typed [simp]: "conn_typed (conn_reset H m u c)"
  by (auto simp: conn_typed_def conn_reset_def split: option.splits)

lemma assign_typed [simp]: "has_type k v \<Longrightarrow> conn_typed c \<Longrightarrow> conn_typed (assign k v c)"
  by (auto simp: conn_typed_def assign_def split: option.splits if_splits)

lemma take_assign_typed [simp]: "conn_typed c \<Longrightarrow> conn_typed (snd (take_assign k c))"
  by (auto simp: conn_typed_def take_assign_def split: option.splits if_splits)

lemma put_status_typed [simp]: "100 \<le> s \<Longrightarrow> s < 1000 \<Longrightarrow> conn_typed c \<Longrightarrow> conn_typed (put_status s c)"
  by (simp add: conn_typed_def put_status_def)

lemma builders_typed [simp]:
  "conn_typed (put_resp_header H k v c) = conn_typed c" "conn_typed (put_resp_header_static H k b c) = conn_typed c"
  "conn_typed (put_resp_body b c) = conn_typed c" "conn_typed (put_resp_body_static b c) = conn_typed c"
  "conn_typed (halt c) = conn_typed c" "conn_typed (parse_query_params d c) = conn_typed c"
  "conn_typed (c\<lparr>conn_path_params := ps\<rparr>) = conn_typed c" "conn_typed (c\<lparr>conn_resp_headers := hs\<rparr>) = conn_typed c"
  by (auto simp: conn_typed_def put_resp_header_def put_resp_header_static_def put_resp_body_def put_resp_body_static_def
      halt_def parse_query_params_def split: option.splits)

section \<open>The plugs of the library\<close>

lemma library_plugs_typed:
  "keeps_types (request_id_call H uuid)" "keeps_types (csrf_call H A p rnd)" "keeps_types (secure_headers_call H hs)"
  "keeps_types (logger_start_call now)" "keeps_types (\<lambda>c. fst (logger_finish_call now c))" "keeps_types (etag_call H b3)"
  "keeps_types (\<lambda>c. fst (sse_response H i so c cs))"
  by (auto simp: keeps_types_def request_id_call_def csrf_call_def csrf_forbidden_def secure_headers_call_def
      logger_start_call_def logger_finish_call_def etag_call_def sse_response_def Let_def split: option.splits)

lemma static_files_typed: "keeps_types (static_files_call H b3 F sf)"
proof -
  have fin: "conn_typed c \<Longrightarrow> conn_typed (static_finish m h b c)" for m h b and c :: "('a, 'b) conn_scheme"
    by (simp add: static_finish_def)
  have mime: "conn_typed (set_mime_and_cache H sf m c) = conn_typed c" for m and c :: "('a, 'b) conn_scheme"
    by (simp add: set_mime_and_cache_def)
  have var: "conn_typed c \<Longrightarrow> conn_typed (serve_variant H b3 sf m e b c)" for m e b and c :: "('a, 'b) conn_scheme"
    by (simp add: serve_variant_def check_etag_def fin mime Let_def)
  have vars: "try_variants H b3 F sf m a p vs c = Some c' \<Longrightarrow> conn_typed c \<Longrightarrow> conn_typed c'"
    for m a p vs c' and c :: "('a, 'b) conn_scheme"
    by (induction vs) (auto simp: var split: if_splits option.splits)
  have "conn_typed c \<Longrightarrow> conn_typed (serve_plain H b3 sf m z b c)" for m z b and c :: "('a, 'b) conn_scheme"
    by (simp add: serve_plain_def check_etag_def fin mime Let_def)
  then have "conn_typed c \<Longrightarrow> conn_typed (serve_file H b3 F sf fp p c)" for fp p and c :: "('a, 'b) conn_scheme"
    by (auto simp: serve_file_def Let_def dest: vars split: option.splits if_splits)
  then show ?thesis by (simp add: keeps_types_def static_files_call_def Let_def split: option.splits)
qed

section \<open>Requests\<close>

lemma run_plugs_typed: "\<forall>p \<in> set ps. keeps_types (run_plug p) \<Longrightarrow> keeps_types (run_plugs ps)"
  unfolding keeps_types_def using run_plugs_keep [where P = conn_typed] by blast

text \<open>An endpoint keeps the types when its plugs, its handlers and its error handler do.\<close>

lemma execute_request_typed:
  assumes "matchit_laws M" and "mr_built M r" and "execute_request M eh after c r = Ok (r', c')" and "conn_typed c"
    and plugs: "\<And>name pl p. mr_pipelines r name = Some pl \<Longrightarrow> p \<in> set (pl_plugs pl) \<Longrightarrow> keeps_types (run_plug p)"
    and handlers: "\<And>rt. rt \<in> set (mr_routes r) \<Longrightarrow> keeps_types (run_handler (rt_handler rt))"
    and missing: "\<And>h. eh = Some h \<Longrightarrow> keeps_types (h 404)"
    and after: "\<forall>p \<in> set after. keeps_types (run_plug p)"
  shows "conn_typed c'"
proof -
  have "conn_typed (case eh of Some h \<Rightarrow> h 404 (put_status 404 c)
      | None \<Rightarrow> put_resp_body (as_bytes ''Not Found'') (put_status 404 c))"
    using assms(4) missing by (auto simp: keeps_types_def split: option.splits)
  then obtain c1 where "conn_typed c1" "c' = run_plugs after c1"
    using execute_request_keeps [OF assms(1-3), of conn_typed] assms(4) plugs handlers
    by (auto simp: keeps_types_def)
  with run_plugs_typed [OF after] show ?thesis by (simp add: keeps_types_def)
qed

subsection \<open>The demo store\<close>

lemma shop_builders_typed [simp]:
  "100 \<le> s \<Longrightarrow> s < 1000 \<Longrightarrow> conn_typed c \<Longrightarrow> conn_typed (respond_json E s j c)"
  "100 \<le> s \<Longrightarrow> s < 1000 \<Longrightarrow> conn_typed c \<Longrightarrow> conn_typed (respond_text s t c)"
  by (simp_all add: respond_json_def respond_text_def)

lemma shop_updates_typed [simp]:
  "conn_typed (c\<lparr>wc_flavors := fs\<rparr>) = conn_typed c" "conn_typed (c\<lparr>wc_orders := os\<rparr>) = conn_typed c"
  "conn_typed (c\<lparr>wc_pubsub := q\<rparr>) = conn_typed c" "conn_typed (c\<lparr>wc_telemetry := tele\<rparr>) = conn_typed c"
  "conn_typed (c\<lparr>wc_sse := cs\<rparr>) = conn_typed c" "conn_typed (c\<lparr>wc_sse_next := n\<rparr>) = conn_typed c"
  "conn_typed (c\<lparr>wc_streams := ss\<rparr>) = conn_typed c" "conn_typed (c\<lparr>wc_aborted := b\<rparr>) = conn_typed c"
  "conn_typed (emit name meta c) = conn_typed c"
  by (simp_all add: conn_typed_def emit_def split: result.splits)

lemma shop_pages_typed:
  "keeps_types (render_home E)" "keeps_types (render_menu E)" "keeps_types (render_order E)"
  "keeps_types (render_order_status E)" "keeps_types (render_about E)" "keeps_types (render_flavor E)"
  by (simp_all add: keeps_types_def render_home_def render_menu_def render_order_def render_order_status_def
      render_about_def render_flavor_def render_template_def split: option.splits result.splits)

lemma shop_api_typed:
  "keeps_types (health_plug H)" "keeps_types (menu_plug E)" "keeps_types (hours_plug E)"
  "keeps_types (about_plug E)" "keeps_types (toppings_plug E)" "keeps_types (specials_plug E)"
  by (simp_all add: keeps_types_def health_plug_def menu_plug_def hours_plug_def about_plug_def toppings_plug_def
      specials_plug_def split: result.splits prod.splits)

lemma prices_plug_typed: "keeps_types (prices_plug H)"
proof -
  have "conn_typed c1" if "sse_response H i so c cs = (c1, s, cs')" "conn_typed c" for i so c cs c1 s cs'
    using keeps_typesD [OF library_plugs_typed(7) that(2), of H i so cs] that(1) by simp
  then show ?thesis
    by (auto simp: keeps_types_def prices_plug_def Let_def split: prod.splits bool.splits)
qed

lemma shop_controllers_typed:
  "keeps_types (flavor_index E)" "keeps_types (flavor_show E)" "keeps_types (flavor_create E)"
  "keeps_types (flavor_update E)" "keeps_types (flavor_delete E)"
  "keeps_types (order_index E)" "keeps_types (order_show E)" "keeps_types (order_create E)"
  "keeps_types (order_update E)" "keeps_types (order_delete E)"
  by (simp_all add: keeps_types_def flavor_index_def flavor_show_def flavor_create_def flavor_update_def flavor_delete_def
      order_index_def order_show_def order_create_def order_update_def order_delete_def Let_def split: option.splits)

lemma shop_plugs_typed:
  "keeps_types (browser_plug H)" "keeps_types (api_json_plug H)" "keeps_types api_request_id_plug" "keeps_types (auth_plug H)"
  "keeps_types (shop_error_handler H 404)"
  by (auto simp: keeps_types_def browser_plug_def api_json_plug_def api_request_id_plug_def auth_plug_def
      shop_error_handler_def split: option.splits)

lemma shop_handlers_typed:
  "list_all (\<lambda>(names, h). keeps_types (run_handler h))
     (map (\<lambda>rt. (rt_pipeline_names rt, rt_handler rt)) (mr_routes (build_router H E)))"
proof -
  have plug: "keeps_types f \<Longrightarrow> keeps_types (run_handler (PlugHandler (plug_fn f)))" for f :: "'a web_conn \<Rightarrow> 'a web_conn"
    by (simp add: keeps_types_def)
  have flavor: "\<forall>a \<in> {''index'', ''show'', ''create'', ''update'', ''delete''}.
      keeps_types (run_handler (ControllerHandler (flavor_controller E :: ('a, unit web_conn_ext) controller) a))"
    by (simp add: keeps_types_def call_action_def flavor_controller_def shop_controllers_typed [THEN keeps_typesD])
  have order: "\<forall>a \<in> {''index'', ''show'', ''create'', ''update'', ''delete''}.
      keeps_types (run_handler (ControllerHandler (order_controller E :: ('a, unit web_conn_ext) controller) a))"
    by (simp add: keeps_types_def call_action_def order_controller_def shop_controllers_typed [THEN keeps_typesD])
  from flavor order show ?thesis
    unfolding build_router_handlers by (simp add: plug shop_pages_typed shop_api_typed prices_plug_typed)
qed

subsection \<open>The benchmark server\<close>

lemma bench_updates_typed [simp]:
  "conn_typed (c\<lparr>bc_draws := n\<rparr>) = conn_typed c" "conn_typed (c\<lparr>bc_log := l\<rparr>) = conn_typed c"
  "conn_typed (c\<lparr>bc_panicked := b\<rparr>) = conn_typed c"
  "100 \<le> s \<Longrightarrow> s < 1000 \<Longrightarrow> conn_typed c \<Longrightarrow> conn_typed (respond_static H s ct body c)"
  "conn_typed c \<Longrightarrow> conn_typed (respond_bytes H ct body c)"
  by (simp_all add: conn_typed_def respond_static_def respond_bytes_def put_resp_body_def put_resp_body_static_def
      put_resp_header_static_def put_status_def)

lemma bench_plugs_typed: "p \<in> set (bench_plugs H E worlds fortunes users) \<Longrightarrow> keeps_types (run_plug p)"
  by (auto simp: bench_plugs_def keeps_types_def plaintext_plug_def json_plug_def db_plug_def queries_plug_def
      updates_plug_def respond_worlds_def fortunes_plug_def user_plug_def search_plug_def echo_plug_def page_plug_def
      redirect_plug_def Let_def split: option.splits)

lemma bench_pipelines_typed:
  assumes "pl \<in> {pipeline_new ''bare'', api_stack H E, browser_stack H E}" and "p \<in> set (pl_plugs pl)"
  shows "keeps_types (run_plug p)"
  using assms library_plugs_typed(1,3,4) [THEN keeps_typesD]
  by (auto simp: keeps_types_def api_stack_def browser_stack_def pipeline_plug_def pipeline_new_def request_id_plug_def)

lemma bench_after_typed: "p \<in> {etag_plug H E, log_finish_plug E} \<Longrightarrow> keeps_types (run_plug p)"
  using library_plugs_typed(6) [THEN keeps_typesD]
  by (auto simp: keeps_types_def etag_plug_def log_finish_plug_def logger_finish_call_def)

lemma bench_request_typed:
  fixes c :: "'h bench_conn" and r :: "('h, unit bench_conn_ext, 'r) mahalo_router"
  assumes "matchit_laws M" and "serves_bench M H E worlds fortunes users r" and "conn_typed c"
    and "execute_request M None [etag_plug H E, log_finish_plug E] c r = Ok (r', c')"
  shows "conn_typed c'"
proof -
  let ?R = "bench_router H E worlds fortunes users :: ('h, unit bench_conn_ext, 'r) mahalo_router"
  have r: "mr_built M r" "mr_routes r = mr_routes ?R" "mr_pipelines r = mr_pipelines ?R"
    using assms(2) unfolding serves_bench_def by simp_all
  show ?thesis
  proof (rule execute_request_typed [OF assms(1) r(1) assms(4,3)])
    fix name pl p assume "mr_pipelines r name = Some pl" "p \<in> set (pl_plugs pl)"
    then show "keeps_types (run_plug p)"
      unfolding r(3) bench_router_pipelines by (intro bench_pipelines_typed) (auto split: if_splits)
  next
    fix rt assume "rt \<in> set (mr_routes r)"
    then have "rt_handler rt \<in> set (map rt_handler (mr_routes ?R))" unfolding r(2) by simp
    then show "keeps_types (run_handler (rt_handler rt))"
      unfolding bench_router_handlers by (auto simp: keeps_types_def intro: keeps_typesD [OF bench_plugs_typed])
  qed (use bench_after_typed in auto)
qed

section \<open>Properties\<close>



end
