(* ===== verification/Mahalo_Application.thy ===== *)
theory Mahalo_Application
  imports Mahalo_Supervision Mahalo_Endpoint
begin

text \<open>
  The supervised application: the endpoint as a child (\<open>child_entry\<close> and \<open>start_supervised\<close> of
  \<open>mahalo-endpoint/src/endpoint.rs\<close>) and the tree that \<open>MahaloApplication::start\<close>
  (\<open>application.rs\<close>) hands to the supervision engine, which is the parameter \<open>sup_api\<close>. The
  arguments \<open>spawn_error\<close>, \<open>bind_ok\<close> and \<open>par\<close> are what the operating system answers; \<open>rt\<close> is the
  restart type that \<open>ChildSpec::new\<close> sets.
\<close>

section \<open>Definitions\<close>

definition endpoint_child_entry ::
  "restart_type \<Rightarrow> (nat \<Rightarrow> string option) \<Rightarrow> (nat \<Rightarrow> string \<Rightarrow> bool) \<Rightarrow> nat option \<Rightarrow> ('h, 'z, 'r, 'w) endpoint
    \<Rightarrow> 's child_entry" where
  "endpoint_child_entry rt spawn_error bind_ok par ep =
     \<lparr>ce_id = ''mahalo_endpoint'', ce_restart = rt, ce_cell = None,
      ce_factory = (\<lambda>cell. (case endpoint_child spawn_error bind_ok par ep of
         (_, Parked) \<Rightarrow> RunsForever
       | (_, Abnormal e) \<Rightarrow> Exits ExitAbnormal, cell))\<rparr>"

definition start_supervised ::
  "('s, 'v) sup_api \<Rightarrow> restart_type \<Rightarrow> (nat \<Rightarrow> string option) \<Rightarrow> (nat \<Rightarrow> string \<Rightarrow> bool) \<Rightarrow> nat option
    \<Rightarrow> ('h, 'z, 'r, 'w) endpoint \<Rightarrow> 'v \<Rightarrow> nat \<times> 'v" where
  "start_supervised S rt spawn_error bind_ok par ep w =
     start_supervisor S OneForOne [endpoint_child_entry rt spawn_error bind_ok par ep] w"

text \<open>\<open>es\<close> are the events that the PubSub server will see. A channel supervisor is started, before
  the tree, when there are channels.\<close>

definition new_supervised :: "restart_type \<Rightarrow> 'm ps_event list \<Rightarrow> 'm server_queue \<times> 'm ps_event list child_entry" where
  "new_supervised rt es = (pubsub_start, pubsub_child_entry rt es)"

definition app_channel_supervisor ::
  "('s, 'v) sup_api \<Rightarrow> ('h, 'z, 'r, 'c) application \<Rightarrow> 'v \<Rightarrow> (nat option \<times> 's child_entry) option \<times> 'v" where
  "app_channel_supervisor S ap w =
     (case ap_channel_router_factory ap of
        Some _ \<Rightarrow> (case supervisor_child_entry S w of (he, w') \<Rightarrow> (Some he, w'))
      | None \<Rightarrow> (None, w))"

definition app_start ::
  "('m ps_event list, 'v) sup_api \<Rightarrow> restart_type \<Rightarrow> (nat \<Rightarrow> string option) \<Rightarrow> (nat \<Rightarrow> string \<Rightarrow> bool) \<Rightarrow> nat option
    \<Rightarrow> 'm ps_event list \<Rightarrow> ('h, 'z, 'r, 'c) application \<Rightarrow> 'v \<Rightarrow> (nat \<times> 'm server_queue \<times> nat option option) \<times> 'v" where
  "app_start S rt spawn_error bind_ok par es ap w =
     (case new_supervised rt es of (pubsub, pubsub_entry) \<Rightarrow>
      case app_channel_supervisor S ap w of (chan_sup, w1) \<Rightarrow>
        (let children = [pubsub_entry]
               @ (case chan_sup of Some (_, entry) \<Rightarrow> [entry] | None \<Rightarrow> [])
               @ [endpoint_child_entry rt spawn_error bind_ok par (app_endpoint pubsub ap)]
         in case start_supervisor S OneForOne children w1 of
              (handle, w2) \<Rightarrow> ((handle, pubsub, map_option fst chan_sup), w2)))"

section \<open>Lemmas\<close>

text \<open>The life of the endpoint under the engine: it parks for good once every worker thread is created;
  when one cannot be created it exits abnormally, and every restart tries again.\<close>

lemma endpoint_life:
  "entry_life restarts (endpoint_child_entry rt spawn_error bind_ok par ep) (Suc n) =
     (case snd (endpoint_child spawn_error bind_ok par ep) of
        Parked \<Rightarrow> [RunsForever]
      | Abnormal e \<Rightarrow> if restarts rt ExitAbnormal then replicate (Suc n) (Exits ExitAbnormal) else [Exits ExitAbnormal])"
proof -
  have again: "child_life restarts rt (\<lambda>cell. (Exits ExitAbnormal, cell)) cell m =
      replicate m (Exits ExitAbnormal)" if "restarts rt ExitAbnormal" for cell :: "'s option" and m
    using that by (induction m arbitrary: cell) simp_all
  show ?thesis
    by (auto simp: entry_life_def endpoint_child_entry_def again split: prod.splits child_state.splits)
qed

lemma spawn_loop_ok: "\<forall>i. spawn_error i = None \<Longrightarrow> spawn_loop spawn_error run is = (map run is, Ok ())"
  by (induction "is") simp_all

lemma endpoint_child_ok:
  assumes "\<forall>i. spawn_error i = None"
  shows "endpoint_child spawn_error bind_ok par ep =
    (map (\<lambda>i. run_worker_arc bind_ok i (ep_addr ep) (ep_router_factory ep) (ep_error_handler_factory ep)
       (ep_after_plug_factories ep) DEFAULT_BODY_LIMIT (ep_ws_config_factory ep) (ep_tls_config ep)) [0..<num_workers par], Parked)"
  by (simp add: endpoint_child_def spawn_workers_def spawn_loop_ok [OF assms])

section \<open>Properties\<close>

text \<open>The supervision tree of an application: PubSub first, the channel supervisor if there are
  channels, the endpoint last. The handle that is returned for adding connections is the supervisor
  that was started for them, the endpoint's child runs forever when every worker thread can be created,
  and each of its workers shares the PubSub handle that is returned.\<close>

theorem app_start_tree:
  fixes ap :: "('h, 'z, 'r, 'c) application" and S :: "('m ps_event list, 'v) sup_api"
  assumes "app_start S rt spawn_error bind_ok par es ap w = ((handle, pubsub, chan_sup), w')"
    and "\<forall>i. spawn_error i = None"
  shows "\<exists>children w1. start_supervisor S OneForOne children w1 = (handle, w') \<and> map ce_id children = app_children ap \<and>
    (chan_sup \<noteq> None \<longleftrightarrow> ap_channel_router_factory ap \<noteq> None) \<and>
    (\<forall>cell. chan_sup = Some cell \<longrightarrow> (\<exists>h. cell = Some h \<and> channel_supervisor_start S w = (h, w1))) \<and>
    entry_life restarts (last children) (Suc n) = [RunsForever] \<and>
    (\<forall>wk. Some wk \<in> set (fst (endpoint_child spawn_error bind_ok par (app_endpoint pubsub ap))) \<longrightarrow>
       wk_ws_config wk = map_option (\<lambda>f. (f (), pubsub)) (ap_channel_router_factory ap))"
proof -
  let ?ep = "app_endpoint pubsub ap"
  let ?entry = "endpoint_child_entry rt spawn_error bind_ok par ?ep :: 'm ps_event list child_entry"
  obtain mid w1 where sup: "app_channel_supervisor S ap w = (mid, w1)" by (cases "app_channel_supervisor S ap w")
  let ?children = "[pubsub_child_entry rt es] @ (case mid of Some (_, entry) \<Rightarrow> [entry] | None \<Rightarrow> []) @ [?entry]"
  have start: "start_supervisor S OneForOne ?children w1 = (handle, w')" and chan: "chan_sup = map_option fst mid"
    and "pubsub = pubsub_start"
    using assms(1) by (auto simp: app_start_def new_supervised_def sup Let_def split: prod.splits)
  have "map ce_id ?children = app_children ap" "mid \<noteq> None \<longleftrightarrow> ap_channel_router_factory ap \<noteq> None"
    "\<forall>cell. map_option fst mid = Some cell \<longrightarrow> (\<exists>h. cell = Some h \<and> channel_supervisor_start S w = (h, w1))"
    using sup
    by (auto simp: app_channel_supervisor_def supervisor_child_entry_def app_children_def pubsub_child_entry_def
        endpoint_child_entry_def channel_supervisor_start_def split: option.splits prod.splits)
  moreover have "entry_life restarts (last ?children) (Suc n) = [RunsForever]"
    by (simp add: endpoint_life endpoint_child_ok [OF assms(2)])
  moreover have "\<forall>wk. Some wk \<in> set (fst (endpoint_child spawn_error bind_ok par ?ep)) \<longrightarrow>
      wk_ws_config wk = map_option (\<lambda>f. (f (), pubsub)) (ap_channel_router_factory ap)"
    by (auto simp: endpoint_child_ok [OF assms(2)] run_worker_arc_def app_endpoint_def endpoint_new_def
        endpoint_channels_def Let_def split: option.splits if_splits)
  ultimately show ?thesis using start chan
    by (intro exI [of _ ?children] exI [of _ w1]) simp
qed

end
