(* ===== verification/PubSub_Mesh.thy ===== *)
theory PubSub_Mesh
  imports Mahalo_PubSub "HOL-Library.Multiset" "HOL-Library.Sublist"
begin

text \<open>
  A mesh of nodes joined by the bridge of \<open>mahalo-pubsub/src/bridge.rs\<close>: node \<open>j\<close> reads the
  peer channel \<open>j\<close>, whose sending end every other node has added as a peer. Clients broadcast,
  subscribe and unsubscribe at any node, and the relay thread of each node takes one message at a time
  from its channel to its local server, in any interleaving. The list that the step relation carries
  records who broadcast what.
\<close>

section \<open>Definitions\<close>

record 'v mesh =
  ms_nodes :: "nat \<Rightarrow> 'v dps"
  ms_chans :: "'v pubsub_message chans"

definition mesh_node :: "nat \<Rightarrow> nat \<Rightarrow> 'v dps" where
  "mesh_node n i = fold add_peer (filter (\<lambda>j. j \<noteq> i) [0..<n]) (dps_new pubsub_start)"

definition mesh_init :: "nat \<Rightarrow> 'v mesh" where
  "mesh_init n = \<lparr>ms_nodes = mesh_node n, ms_chans = fold (\<lambda>i cs. snd (peer_channel i cs)) [0..<n] (\<lambda>_. chan_new)\<rparr>"

text \<open>One turn of the relay thread of \<open>spawn_relay\<close>.\<close>

definition relay_one :: "nat \<Rightarrow> 'v mesh \<Rightarrow> 'v mesh" where
  "relay_one j m =
     (case ch_queue (ms_chans m j) of
        [] \<Rightarrow> m
      | msg # rest \<Rightarrow>
          m\<lparr>ms_nodes := (ms_nodes m)(j := (ms_nodes m j)\<lparr>dp_local := relay [msg] (dp_local (ms_nodes m j))\<rparr>),
            ms_chans := (ms_chans m)(j := (ms_chans m j)\<lparr>ch_queue := rest\<rparr>)\<rparr>)"

definition set_node :: "nat \<Rightarrow> 'v dps \<times> 'v pubsub_message chans \<Rightarrow> 'v mesh \<Rightarrow> 'v mesh" where
  "set_node i dc m = m\<lparr>ms_nodes := (ms_nodes m)(i := fst dc), ms_chans := snd dc\<rparr>"

inductive mesh_run :: "nat \<Rightarrow> 'v mesh \<Rightarrow> (nat \<times> 'v pubsub_message) list \<Rightarrow> bool" for n where
  mesh_start: "mesh_run n (mesh_init n) []"
| mesh_broadcast: "mesh_run n m log \<Longrightarrow> i < n \<Longrightarrow>
    mesh_run n (set_node i (dps_broadcast topic event payload (ms_nodes m i) (ms_chans m)) m)
      (log @ [(i, \<lparr>pm_topic = topic, pm_event = event, pm_payload = payload\<rparr>)])"
| mesh_subscribe: "mesh_run n m log \<Longrightarrow> i < n \<Longrightarrow>
    mesh_run n (set_node i (fst (dps_subscribe topic (ms_nodes m i)), ms_chans m) m) log"
| mesh_unsubscribe: "mesh_run n m log \<Longrightarrow> i < n \<Longrightarrow>
    mesh_run n (set_node i (dps_unsubscribe topic (ms_nodes m i), ms_chans m) m) log"
| mesh_relay: "mesh_run n m log \<Longrightarrow> j < n \<Longrightarrow> mesh_run n (relay_one j m) log"

text \<open>The broadcasts among the commands of a server, and what a node has been told: those and the
  messages that wait in its channel.\<close>

definition broadcasts :: "'v pubsub_command list \<Rightarrow> 'v pubsub_message list" where
  "broadcasts cmds = concat (map (\<lambda>c. case c of Broadcast t m \<Rightarrow> [m] | _ \<Rightarrow> []) cmds)"

definition served :: "nat \<Rightarrow> 'v mesh \<Rightarrow> 'v pubsub_message list" where
  "served j m = broadcasts (sq_cmds (dp_local (ms_nodes m j)))"

definition told :: "nat \<Rightarrow> 'v mesh \<Rightarrow> 'v pubsub_message list" where
  "told j m = served j m @ ch_queue (ms_chans m j)"

definition from_node :: "nat \<Rightarrow> (nat \<times> 'v pubsub_message) list \<Rightarrow> 'v pubsub_message list" where
  "from_node i log = map snd (filter (\<lambda>x. fst x = i) log)"

definition pending :: "nat \<Rightarrow> 'v mesh \<Rightarrow> nat" where
  "pending n m = (\<Sum>j<n. length (ch_queue (ms_chans m j)))"

section \<open>The invariant\<close>

definition mesh_inv :: "nat \<Rightarrow> 'v mesh \<Rightarrow> (nat \<times> 'v pubsub_message) list \<Rightarrow> bool" where
  "mesh_inv n m log \<longleftrightarrow> (\<forall>j<n.
     sq_alive (dp_local (ms_nodes m j)) \<and> ch_open (ms_chans m j) \<and>
     dp_peers (ms_nodes m j) = filter (\<lambda>k. k \<noteq> j) [0..<n] \<and>
     mset (told j m) = mset (map snd log) \<and> subseq (from_node j log) (served j m) \<and>
     (\<forall>i<n. subseq (from_node i log) (told j m)))"

lemma broadcasts_simps [simp]:
  "broadcasts [] = []" "broadcasts (cs @ ds) = broadcasts cs @ broadcasts ds"
  "broadcasts [Broadcast t m] = [m]" "broadcasts [Subscribe t] = []" "broadcasts [Unsubscribe t] = []"
  by (simp_all add: broadcasts_def)

lemma from_node_simps [simp]:
  "from_node i [] = []" "from_node i (log @ [(k, m)]) = from_node i log @ (if k = i then [m] else [])"
  by (simp_all add: from_node_def)

lemma set_node_sel [simp]:
  "ms_nodes (set_node i dc m) = (ms_nodes m)(i := fst dc)" "ms_chans (set_node i dc m) = snd dc"
  by (simp_all add: set_node_def)

lemma fold_add_peer: "fold add_peer is d = d\<lparr>dp_peers := dp_peers d @ is\<rparr>"
  by (induction "is" arbitrary: d) (simp_all add: add_peer_def)

lemma mesh_init_chans: "ms_chans (mesh_init n) = (\<lambda>_. chan_new)"
proof -
  have "fold (\<lambda>i cs. snd (peer_channel i cs)) is (\<lambda>_. chan_new) = (\<lambda>_. chan_new)" for "is" :: "nat list"
    by (induction "is") (simp_all add: peer_channel_def fun_upd_idem)
  then show ?thesis by (simp add: mesh_init_def)
qed

lemma mesh_init_inv: "mesh_inv n (mesh_init n) []"
  by (simp add: mesh_inv_def told_def served_def mesh_init_chans)
    (simp add: mesh_init_def mesh_node_def fold_add_peer dps_new_def pubsub_start_def chan_new_def)

lemma subseq_insert: "subseq xs (ys @ zs) \<Longrightarrow> subseq xs (ys @ y # zs)"
  by (rule subseq_order.trans) (auto intro: list_emb_append_mono)

lemma mesh_invD:
  assumes "mesh_inv n m log" and "j < n"
  shows "sq_alive (dp_local (ms_nodes m j))" and "ch_open (ms_chans m j)"
    and "dp_peers (ms_nodes m j) = filter (\<lambda>k. k \<noteq> j) [0..<n]" and "mset (told j m) = mset (map snd log)"
    and "subseq (from_node j log) (served j m)" and "i < n \<Longrightarrow> subseq (from_node i log) (told j m)"
  using assms by (simp_all add: mesh_inv_def)

text \<open>Commands that are no broadcasts leave what the nodes were told.\<close>

lemma mesh_inv_quiet:
  assumes "mesh_inv n m log" and "dp_peers d = dp_peers (ms_nodes m i)"
    and "dp_local d = cmd_send cmd (dp_local (ms_nodes m i))" and "broadcasts [cmd] = []"
  shows "mesh_inv n (set_node i (d, ms_chans m) m) log"
proof -
  have "broadcasts (sq_cmds (dp_local d)) = broadcasts (sq_cmds (dp_local (ms_nodes m i)))"
    "sq_alive (dp_local d) = sq_alive (dp_local (ms_nodes m i))"
    using assms(3,4) by (simp_all add: cmd_send_def)
  with assms(1,2) show ?thesis by (auto simp: mesh_inv_def told_def served_def)
qed

lemma mesh_inv_relay:
  assumes "mesh_inv n m log" and "j < n"
  shows "mesh_inv n (relay_one j m) log"
proof (cases "ch_queue (ms_chans m j)")
  case Nil
  with assms(1) show ?thesis by (simp add: relay_one_def)
next
  case (Cons msg rest)
  let ?m = "relay_one j m"
  have alive: "sq_alive (dp_local (ms_nodes m j))" by (rule mesh_invD(1) [OF assms])
  have served: "served k ?m = served k m @ (if k = j then [msg] else [])" for k
    using alive by (simp add: relay_one_def Cons served_def broadcast_arc_def cmd_send_def)
  have told: "told k ?m = told k m" for k
    unfolding told_def served by (simp add: relay_one_def Cons)
  have "sq_alive (dp_local (ms_nodes ?m k)) = sq_alive (dp_local (ms_nodes m k))"
    "ch_open (ms_chans ?m k) = ch_open (ms_chans m k)" "dp_peers (ms_nodes ?m k) = dp_peers (ms_nodes m k)" for k
    by (simp_all add: relay_one_def Cons broadcast_arc_def cmd_send_def)
  moreover have "subseq (from_node k log) (served k ?m)" if "k < n" for k
    using mesh_invD(5) [OF assms(1) that] by (simp add: served subseq_rev_drop_many)
  ultimately show ?thesis using assms(1) by (simp add: mesh_inv_def told)
qed

lemma mesh_inv_broadcast:
  assumes "mesh_inv n m log" and "i < n"
    and msg: "msg = \<lparr>pm_topic = topic, pm_event = event, pm_payload = payload\<rparr>"
  shows "mesh_inv n (set_node i (dps_broadcast topic event payload (ms_nodes m i) (ms_chans m)) m) (log @ [(i, msg)])"
proof -
  obtain d cs where b: "dps_broadcast topic event payload (ms_nodes m i) (ms_chans m) = (d, cs)"
    by (cases "dps_broadcast topic event payload (ms_nodes m i) (ms_chans m)")
  let ?m = "set_node i (d, cs) m"
  have "distinct (dp_peers (ms_nodes m i))" by (simp add: mesh_invD(3) [OF assms(1,2)])
  note fan = dps_broadcast_fans_out [OF this b]
  have peers: "dp_peers d = filter (\<lambda>k. k \<noteq> i) [0..<n]"
    using fan mesh_invD(2) [OF assms(1)] by (auto simp: mesh_invD(3) [OF assms(1,2)] intro!: filter_cong)
  have queue: "ch_queue (cs k) = ch_queue (ms_chans m k) @ (if k \<noteq> i then [msg] else [])" if "k < n" for k
    using fan that by (simp add: peers msg)
  have "cs = snd (retain_send (dp_peers (ms_nodes m i)) msg (ms_chans m))"
    using b by (auto simp: dps_broadcast_def msg Let_def split: prod.splits)
  then have "ch_open (cs k) = ch_open (ms_chans m k)" for k by simp
  moreover have alive: "sq_alive (dp_local (ms_nodes ?m k)) = sq_alive (dp_local (ms_nodes m k))" for k
    using fan by (simp add: broadcast_arc_def cmd_send_def)
  moreover have "dp_peers (ms_nodes ?m k) = dp_peers (ms_nodes m k)" for k
    by (simp add: peers mesh_invD(3) [OF assms(1,2)])
  moreover have served: "served k ?m = served k m @ (if k = i then [msg] else [])" for k
    using fan mesh_invD(1) [OF assms(1,2)] by (simp add: served_def broadcast_arc_def cmd_send_def msg)
  moreover have told: "told k ?m = (if k = i then served i m @ [msg] @ ch_queue (ms_chans m i) else told k m @ [msg])"
    if "k < n" for k
    unfolding told_def served using queue [OF that] by simp
  moreover have "mset (told k ?m) = mset (map snd (log @ [(i, msg)]))" if "k < n" for k
    using mesh_invD(4) [OF assms(1) that] unfolding told [OF that] by (auto simp: told_def)
  moreover have "subseq (from_node k (log @ [(i, msg)])) (served k ?m)" if "k < n" for k
    using mesh_invD(5) [OF assms(1) that] by (auto simp: served)
  moreover have "subseq (from_node l (log @ [(i, msg)])) (told k ?m)" if "k < n" "l < n" for k l
  proof (cases "k = i")
    case True
    with mesh_invD(5) [OF assms(1,2)] mesh_invD(6) [OF assms(1) that] show ?thesis unfolding told [OF that(1)]
      by (auto simp: told_def intro: subseq_insert subseq_rev_drop_many list_emb_append_mono)
  next
    case False
    with mesh_invD(6) [OF assms(1) that] show ?thesis unfolding told [OF that(1)]
      by (auto intro: subseq_rev_drop_many list_emb_append_mono)
  qed
  ultimately show ?thesis using assms(1) b by (simp add: mesh_inv_def)
qed

lemma mesh_run_inv: "mesh_run n m log \<Longrightarrow> mesh_inv n m log"
proof (induction rule: mesh_run.induct)
  case mesh_start
  show ?case by (rule mesh_init_inv)
next
  case (mesh_broadcast m log i topic event payload)
  then show ?case by (intro mesh_inv_broadcast refl)
next
  case (mesh_subscribe m log i topic)
  then show ?case
    by (intro mesh_inv_quiet [where cmd = "Subscribe topic"]) (auto simp: dps_subscribe_def pubsub_subscribe_def)
next
  case (mesh_unsubscribe m log i topic)
  then show ?case
    by (intro mesh_inv_quiet [where cmd = "Unsubscribe topic"]) (auto simp: dps_unsubscribe_def pubsub_unsubscribe_def)
next
  case (mesh_relay m log j)
  then show ?case by (intro mesh_inv_relay)
qed

section \<open>Draining the channels\<close>

definition relay_step :: "nat \<Rightarrow> 'v mesh \<Rightarrow> 'v mesh \<Rightarrow> bool" where
  "relay_step n m m' \<longleftrightarrow> (\<exists>j<n. ch_queue (ms_chans m j) \<noteq> [] \<and> m' = relay_one j m)"

lemma pending_zero: "pending n m = 0 \<longleftrightarrow> (\<forall>j<n. ch_queue (ms_chans m j) = [])"
  by (auto simp: pending_def)

lemma relay_step_pending: "relay_step n m m' \<Longrightarrow> pending n m = Suc (pending n m')"
proof -
  assume "relay_step n m m'"
  then obtain j msg rest where j: "j < n" "ch_queue (ms_chans m j) = msg # rest" "m' = relay_one j m"
    unfolding relay_step_def by (metis list.exhaust)
  have "pending n m = Suc (length rest) + (\<Sum>k\<in>{..<n} - {j}. length (ch_queue (ms_chans m k)))"
    using j by (simp add: pending_def sum.remove [of _ j])
  moreover have "pending n m' = length rest + (\<Sum>k\<in>{..<n} - {j}. length (ch_queue (ms_chans m k)))"
    using j by (simp add: pending_def relay_one_def sum.remove [of _ j])
  ultimately show ?thesis by simp
qed

lemma relay_steps_run: "(relay_step n)\<^sup>*\<^sup>* m m' \<Longrightarrow> mesh_run n m log \<Longrightarrow> mesh_run n m' log"
  by (induction rule: rtranclp_induct) (auto simp: relay_step_def intro: mesh_relay)

lemma relays_drain: "\<exists>m'. (relay_step n)\<^sup>*\<^sup>* m m' \<and> pending n m' = 0"
proof (induction "pending n m" arbitrary: m)
  case (Suc k)
  then obtain j where "j < n" "ch_queue (ms_chans m j) \<noteq> []" using pending_zero by (metis nat.distinct(1))
  then have step: "relay_step n m (relay_one j m)" by (auto simp: relay_step_def)
  with relay_step_pending [OF step] Suc have "pending n (relay_one j m) = k" by simp
  with Suc.hyps(1) [of "relay_one j m"] step show ?case by (metis converse_rtranclp_into_rtranclp)
qed auto

section \<open>Properties\<close>


section \<open>Witnesses\<close>

definition demo_mesh :: "nat mesh" where
  "demo_mesh =
     (let m = mesh_init 2; m1 = set_node 0 (dps_broadcast ''t'' ''a'' 1 (ms_nodes m 0) (ms_chans m)) m
      in set_node 1 (dps_broadcast ''t'' ''b'' 2 (ms_nodes m1 1) (ms_chans m1)) m1)"


end
