(* ===== verification/Spec2Isabelle.thy ===== *)
theory Spec2Isabelle
  imports Http_Session Mahalo_Presence Mahalo_Channel Mahalo_Sse Static_Files Mahalo_Cluster
    Mahalo_Telemetry Mahalo_Supervision Cargo_Project Shop_Orders Bench_Servers Ws_Channels Conn_Types
    Mahalo_Application PubSub_Mesh
begin

text \<open>
  Mahalo is a web framework in Rust in the style of Phoenix, serving HTTP and WebSocket connections on
  the ReBorrow runtime. This development models its crates, the command-line tool, the demo
  application and the benchmark servers, and proves what makes them correct. Paths below
  are those under \<open>src/crates/\<close> unless said otherwise.

  \<^bold>\<open>The program and its parts.\<close> A worker thread accepts connections and runs one loop per
  connection (\<open>mahalo-endpoint/src/server.rs\<close>): it reads bytes, parses requests
  (\<open>http_parse.rs\<close>), resolves a route (\<open>mahalo-router\<close>), runs the pipelines, the handler and
  the after-plugs of the endpoint on a \<open>Conn\<close> (\<open>mahalo-core\<close>, \<open>mahalo-plug\<close>) and writes the
  response with unchecked pointer writes. A request can instead upgrade the connection to a WebSocket
  (\<open>ws_parse.rs\<close>), whose text messages go to a connection server (\<open>mahalo-channel\<close>), or become a
  stream of server-sent events (\<open>mahalo-sse\<close>). Channels, presence and cluster membership talk
  through a PubSub server (\<open>mahalo-pubsub\<close>, \<open>mahalo-presence\<close>, \<open>mahalo-cluster\<close>);
  \<open>mahalo-telemetry\<close> dispatches events to handlers.

  \<^bold>\<open>Theories and sources.\<close>
  \<^item> \<open>Mahalo_Prelude\<close>: result type, byte strings, buffers as lists with their allocation.
  \<^item> \<open>Rust_Std\<close>, \<open>Rust_Path\<close>, \<open>Mpsc\<close>: what is used of the standard library: UTF-8, string and
    number functions, paths, channels. A string is the list of its UTF-8 bytes as characters.
  \<^item> \<open>Stream_Parsing\<close>: the specification of reading a byte stream through an incremental parser,
    shared by the HTTP and the WebSocket loops.
  \<^item> \<open>Mahalo_Conn\<close>, \<open>Mahalo_Pipeline\<close>: \<open>mahalo-core/src/conn.rs\<close>, \<open>plug.rs\<close>,
    \<open>pipeline.rs\<close>, \<open>controller.rs\<close>. \<open>Mahalo_Router\<close>: \<open>mahalo-router/src/router.rs\<close>.
  \<^item> \<open>Mahalo_Plugs\<close>, \<open>Static_Files\<close>: \<open>mahalo-plug/src\<close>.
  \<^item> \<open>Http_Date\<close>, \<open>Http_Parse\<close>, \<open>Ws_Parse\<close>: \<open>mahalo-endpoint/src/date.rs\<close>,
    \<open>http_parse.rs\<close>, \<open>ws_parse.rs\<close>. \<open>Ws_Session\<close> and \<open>Http_Session\<close>: the WebSocket and the
    HTTP loops of \<open>server.rs\<close>. \<open>Mahalo_Endpoint\<close>: \<open>handler.rs\<close>, \<open>endpoint.rs\<close>,
    \<open>worker.rs\<close>, \<open>application.rs\<close>; \<open>Mahalo_Application\<close>: the supervised endpoint and the
    supervision tree of the last two. \<open>Ws_Channels\<close>: the WebSocket loops and the connection server
    together.
  \<^item> \<open>Mahalo_PubSub\<close>: \<open>mahalo-pubsub/src/pubsub.rs\<close> and \<open>bridge.rs\<close>; \<open>PubSub_Mesh\<close>: several
    nodes joined by the bridge; \<open>Mahalo_Presence\<close>:
    \<open>mahalo-presence/src\<close>; \<open>Mahalo_Channel\<close>: \<open>mahalo-channel/src/channel.rs\<close> and
    \<open>socket.rs\<close>; \<open>Mahalo_Supervision\<close>: \<open>supervisor.rs\<close> and the supervised entries;
    \<open>Mahalo_Cluster\<close>: \<open>mahalo-cluster/src\<close>; \<open>Mahalo_Sse\<close>: \<open>mahalo-sse/src/lib.rs\<close>;
    \<open>Mahalo_Telemetry\<close>: \<open>mahalo-telemetry/src/telemetry.rs\<close>.
  \<^item> \<open>Cargo_Templates\<close>, \<open>Cargo_Mahalo\<close>, \<open>Cargo_Project\<close>: \<open>cargo-mahalo/src\<close>.
  \<^item> \<open>Shop_Data\<close>, \<open>Shop_Http\<close>, \<open>Shop_Channels\<close>: the demo application
    \<open>mahalo-test-app/src/main.rs\<close>; \<open>Shop_Requests\<close>, \<open>Ice_Cream_Shop\<close> and
    \<open>Shop_Orders\<close>: what holds of it.
  \<^item> \<open>Bench_Data\<close>, \<open>Bench_Mahalo\<close>, \<open>Bench_Servers\<close>: \<open>src/bench/src/shared.rs\<close>, the server
    \<open>bin/mahalo.rs\<close> built on the framework, and those it is compared with, \<open>bin/hyper.rs\<close>,
    \<open>axum.rs\<close> (\<open>axum_raw.rs\<close> is a copy), \<open>actix.rs\<close> and \<open>xitca.rs\<close>.
  \<^item> \<open>Conn_Types\<close>: the types that a connection keeps through plugs and requests.

  \<^bold>\<open>State and operations.\<close> A struct is a record and an enum a datatype with the source's variants; a
  method is a function that takes the state and returns it changed. A panic, an early return and a
  failed pointer write are values of \<open>result\<close> or \<open>option\<close>. Words are kept at their width where
  the code relies on it (frame lengths, status codes, identifiers and prices of the demo), and the
  release profile is modelled: arithmetic wraps, a panic ends the process. The state of an application, which its
  plugs capture in closures, is the extension \<open>'z\<close> of the \<open>conn\<close> record, so that the same
  framework definitions run stateless plugs, the demo store (\<open>web_conn\<close>) and the benchmark
  (\<open>bench_conn\<close>); the connection loop threads it from request to request in \<open>sv_app\<close>. Channels
  work in the same way on the extension of \<open>chan_world\<close>. Threads and tasks that communicate through
  queues are the order of the commands in those queues, over which the theorems quantify; the demo
  store interleaves requests, channel messages, simulation steps and price changes in the step
  relation \<open>shop_step\<close>, and a mesh of PubSub nodes the commands of clients with the turns of the relay
  threads in \<open>mesh_run\<close>.

  \<^bold>\<open>Code that is not part of the repository\<close> is an argument: the header map and header values of
  \<open>http\<close> (\<open>http_api\<close>, laws \<open>hm_laws\<close>), \<open>httparse\<close>, \<open>matchit\<close>, \<open>serde_json\<close>,
  percent decoding, HMAC, base64, SHA-1 and BLAKE3, UUIDs, random numbers, the template engine,
  the clock, the allocator, the file system, DNS, and the supervision engine. Their laws are
  hypotheses that state documented behaviour, and each is shown to hold of a concrete instance.

  \<^bold>\<open>What is shown.\<close>
  \<^item> Connections: the responses do not depend on how the input is cut into reads, each request is
    answered once, no parse loop spins, and the one case in which a pipelined request waits is made
    precise. The serializer's unchecked writes stay inside their allocation. A WebSocket conversation
    carries the texts of the client and the messages of the channels, in order and unchanged. An
    endpoint with TLS handles no connection in the clear.
  \<^item> Parsers: frames and query strings read back, accepted input lies inside the buffer and within
    the limits, and parsing into a recycled connection is equivalent to parsing into a fresh one.
  \<^item> Routing: what a resolved request reaches, reverse routing, and when resolving can panic; request
    dispatch is one halting sequence of plugs.
  \<^item> Plugs: CSRF protection and its round trip, static files confined to their directory; the plugs of
    the library and the requests of both applications keep connections well typed.
  \<^item> Messaging: PubSub delivery, on one server and over a mesh of nodes, presence as a replayed map, channel routing, server-sent events that
    decode to what was sent, cluster views that follow the polls.
  \<^item> Tools and applications: a generated project can be extended by the generators; the demo store
    keeps its invariant under every interleaving, protects its orders, stores, announces and delivers
    them, and shows every price change to its browsers; the benchmark answers every request without a panic, its
    page of fortunes reads back to its rows, and all five benchmark servers do the same work on the
    tests they share. The tree of an application starts its parts in order around one PubSub handle.

  \<^bold>\<open>Interfaces.\<close> The locale \<open>incremental_parser\<close> is what a connection loop needs of its parser
  (interpreted for the WebSocket frames; the HTTP parser satisfies it under the laws of
  \<open>httparse\<close>); \<open>typed_store\<close> is the contract of the assigns of connections and sockets;
  \<open>plug_contract\<close> relates the two call paths of a plug; \<open>stage\<close> is what every link of request
  processing promises about halted connections; \<open>techempower_server\<close> is what a benchmark server
  promises about the common tests, interpreted for all five.

  \<^bold>\<open>Bounds and fuel.\<close> The parse loop of a read has one more turn than the buffer holds bytes; each turn
  consumes a byte, and \<open>handle_connection_terminates\<close> shows that the turns are always enough.
  Telemetry handlers that emit events are bounded by the nesting depth given to \<open>execute\<close>; without
  nested emission any positive depth is enough. \<open>child_life\<close> shows a chosen number of runs of a
  supervised child. The invariant of the store counts steps to exclude the wrap-around of the
  identifiers after \<open>2 ^ 64\<close> of them. All other loops are total functions.

  \<^bold>\<open>Not modelled.\<close> The sockets and TLS sessions below a stream, the creation of threads and the
  supervision engine, which are the environment of the loops; the other web frameworks around the
  handlers of the benchmark servers, that is how they route, extract parameters and write a reply; the
  argument parser and the fixed console messages of the command-line tool, and log messages in
  general, with the callbacks of the demo channels that only log; constructors and accessors
  that only store or return a field (\<open>ChannelConnectionServer::new\<close>, \<open>DistributedPubSub::local\<close>); the re-exports of
  \<open>mahalo/src/lib.rs\<close> and the tests. Names given to the command-line tool are ASCII.
\<close>

end
